theory Spec2Isabelle
  imports Main "HOL-Library.Signed_Division"
begin

section \<open>deltafs-nexus: bootstrap, teardown and the routing contract\<close>

text \<open>
  A shallow embedding of \<^verbatim>\<open>src/nexus_setup.cc\<close> and of the routing contract declared in
  \<^verbatim>\<open>include/deltafs-nexus_api.h\<close>. Every call into Mercury (\<^verbatim>\<open>HG_*\<close>), MPI, the
  socket layer, \<^verbatim>\<open>malloc\<close> and pthreads is answered by an environment record; the
  functions below are the C functions with their control flow kept, returning how the
  call ended together with the state they leave behind and the calls they made.
\<close>

subsection \<open>Values of the transport and of the library\<close>

text \<open>
  \<^verbatim>\<open>hg_return_t\<close> is Mercury's; the source names three of its values, every other
  code is \<open>HG_OTHER_ERROR n\<close>. An \<^verbatim>\<open>hg_addr_t\<close> is an opaque handle, \<^verbatim>\<open>HG_ADDR_NULL\<close>
  the null handle.
\<close>

datatype hg_return_t = HG_SUCCESS | HG_TIMEOUT | HG_NOMEM_ERROR | HG_OTHER_ERROR nat

type_synonym hg_addr_t = nat

definition HG_ADDR_NULL :: hg_addr_t where
  "HG_ADDR_NULL = 0"

text \<open>The error codes of \<^verbatim>\<open>deltafs-nexus_api.h\<close>, in the order of the enum.\<close>

datatype nexus_ret_t =
    NX_SUCCESS
  | NX_ERROR
  | NX_NOTFOUND
  | NX_ISLOCAL
  | NX_SRCREP
  | NX_DESTREP
  | NX_INVAL
  | NX_DONE

subsection \<open>The network support thread\<close>

text \<open>
  \<^verbatim>\<open>nexus_bgthread\<close> runs beside the thread that owns \<^verbatim>\<open>bgdat\<close>. What it sees of the
  rest of the process is what its three reads return: the value of \<^verbatim>\<open>bgdat->bgdone\<close> at
  each test of the outer loop, the return code and \<^verbatim>\<open>count\<close> of each \<^verbatim>\<open>HG_Trigger\<close>, and
  the return code of each \<^verbatim>\<open>HG_Progress\<close>. The model takes these as three lists, in
  the order of the calls; a run whose next answer is missing is still running
  (\<open>BgRunning\<close>), so a thread that never sees the flag is every finite prefix of it.
\<close>

datatype bg_event =
    BgReadDone int
  | BgTrigger nat nat hg_return_t nat
  | BgProgress nat hg_return_t
  | BgAbort string

datatype bg_outcome = BgReturned | BgAborted string | BgRunning

text \<open>
  The inner \<^verbatim>\<open>do { hret = HG_Trigger(hgctx, 0, 1, &count); } while (hret == HG_SUCCESS && count)\<close>.
  The result is the last \<^verbatim>\<open>hret\<close> (\<open>None\<close> when the answers end inside the loop), the
  calls made and the answers left.
\<close>

fun bg_drain ::
  "(hg_return_t \<times> nat) list \<Rightarrow> hg_return_t option \<times> bg_event list \<times> (hg_return_t \<times> nat) list"
where
  "bg_drain [] = (None, [], [])"
| "bg_drain ((hret, count) # ts) =
     (if hret = HG_SUCCESS \<and> count \<noteq> 0
      then (case bg_drain ts of (r, evs, rest) \<Rightarrow> (r, BgTrigger 0 1 hret count # evs, rest))
      else (Some hret, [BgTrigger 0 1 hret count], ts))"

fun nexus_bgthread ::
  "int list \<Rightarrow> (hg_return_t \<times> nat) list \<Rightarrow> hg_return_t list \<Rightarrow> bg_outcome \<times> bg_event list"
where
  "nexus_bgthread [] ts ps = (BgRunning, [])"
| "nexus_bgthread (bgdone # fs) ts ps =
     (if bgdone \<noteq> 0 then (BgReturned, [BgReadDone bgdone])
      else
        (case bg_drain ts of
           (None, evs, rest) \<Rightarrow> (BgRunning, BgReadDone bgdone # evs)
         | (Some hret, evs, rest) \<Rightarrow>
             if hret \<noteq> HG_SUCCESS \<and> hret \<noteq> HG_TIMEOUT
             then (BgAborted ''nexus_bgthread: HG_Trigger failed'',
                   BgReadDone bgdone # evs @ [BgAbort ''nexus_bgthread: HG_Trigger failed''])
             else
               (case ps of
                  [] \<Rightarrow> (BgRunning, BgReadDone bgdone # evs)
                | hret' # ps' \<Rightarrow>
                    if hret' \<noteq> HG_SUCCESS \<and> hret' \<noteq> HG_TIMEOUT
                    then (BgAborted ''nexus_bgthread: HG_Progress failed'',
                          BgReadDone bgdone # evs @
                            [BgProgress 100 hret', BgAbort ''nexus_bgthread: HG_Progress failed''])
                    else
                      (case nexus_bgthread fs rest ps' of
                         (out, evs') \<Rightarrow>
                           (out, BgReadDone bgdone # evs @ [BgProgress 100 hret'] @ evs')))))"

text \<open>
  The loop as section 4.3 of the specification words it, as a relation between the
  answers the thread is given (the values read from the flag, the answers of the
  triggers, the answers of the progress calls), the calls it makes and how it ends. An
  iteration reads the flag clear, repeats the non-blocking trigger while it reports
  completed work, makes one last trigger that reports none (or times out), then one
  progress call bounded by 100 ms, and goes on with the answers left; the thread
  returns on reading the flag set; a trigger or progress code other than success and
  timeout is followed by the abort and by nothing else. The thread is still running
  only where the answer it needs next has not been given.
\<close>

definition completed_work :: "hg_return_t \<times> nat \<Rightarrow> bool" where
  "completed_work t = (fst t = HG_SUCCESS \<and> snd t \<noteq> 0)"

definition hg_benign :: "hg_return_t \<Rightarrow> bool" where
  "hg_benign h = (h = HG_SUCCESS \<or> h = HG_TIMEOUT)"

definition trigger_events :: "(hg_return_t \<times> nat) list \<Rightarrow> bg_event list" where
  "trigger_events ts = map (\<lambda>t. BgTrigger 0 1 (fst t) (snd t)) ts"

inductive bg_loop ::
  "int list \<Rightarrow> (hg_return_t \<times> nat) list \<Rightarrow> hg_return_t list \<Rightarrow> bg_event list \<Rightarrow>
   bg_outcome \<Rightarrow> bool"
where
  bg_stop:
    "bgdone \<noteq> 0 \<Longrightarrow> bg_loop (bgdone # fs) ts ps [BgReadDone bgdone] BgReturned"
| bg_iteration:
    "list_all completed_work busy \<Longrightarrow> \<not> completed_work t \<Longrightarrow> hg_benign (fst t) \<Longrightarrow>
     hg_benign p \<Longrightarrow> bg_loop fs ts ps evs out \<Longrightarrow>
     bg_loop (0 # fs) (busy @ t # ts) (p # ps)
       (BgReadDone 0 # trigger_events busy @ trigger_events [t] @ [BgProgress 100 p] @ evs) out"
| bg_trigger_failed:
    "list_all completed_work busy \<Longrightarrow> \<not> hg_benign (fst t) \<Longrightarrow>
     bg_loop (0 # fs) (busy @ t # ts) ps
       (BgReadDone 0 # trigger_events busy @ trigger_events [t] @
          [BgAbort ''nexus_bgthread: HG_Trigger failed''])
       (BgAborted ''nexus_bgthread: HG_Trigger failed'')"
| bg_progress_failed:
    "list_all completed_work busy \<Longrightarrow> \<not> completed_work t \<Longrightarrow> hg_benign (fst t) \<Longrightarrow>
     \<not> hg_benign p \<Longrightarrow>
     bg_loop (0 # fs) (busy @ t # ts) (p # ps)
       (BgReadDone 0 # trigger_events busy @ trigger_events [t] @
          [BgProgress 100 p, BgAbort ''nexus_bgthread: HG_Progress failed''])
       (BgAborted ''nexus_bgthread: HG_Progress failed'')"
| bg_awaits_flag:
    "bg_loop [] ts ps [] BgRunning"
| bg_awaits_trigger:
    "list_all completed_work busy \<Longrightarrow>
     bg_loop (0 # fs) busy ps (BgReadDone 0 # trigger_events busy) BgRunning"
| bg_awaits_progress:
    "list_all completed_work busy \<Longrightarrow> \<not> completed_work t \<Longrightarrow> hg_benign (fst t) \<Longrightarrow>
     bg_loop (0 # fs) (busy @ t # ts) []
       (BgReadDone 0 # trigger_events busy @ trigger_events [t]) BgRunning"

subsection \<open>C integers and strings\<close>

text \<open>
  A C \<^verbatim>\<open>int\<close> is modelled by an \<open>int\<close> between \<open>INT_MIN\<close> and \<open>INT_MAX\<close>. A signed
  overflow is undefined behaviour in C: where the source adds or subtracts values that it
  has not bounded itself, the model checks the range and ends the run as \<open>Undefined\<close>.
  \<^verbatim>\<open>%\<close> is C's remainder, truncating towards zero (\<open>smod\<close>).
\<close>

definition INT_MAX :: int where
  "INT_MAX = 2147483647"

definition INT_MIN :: int where
  "INT_MIN = - 2147483648"

definition in_int :: "int \<Rightarrow> bool" where
  "in_int x = (INT_MIN \<le> x \<and> x \<le> INT_MAX)"

text \<open>The \<^verbatim>\<open>%d\<close> conversion of \<^verbatim>\<open>snprintf\<close> and \<^verbatim>\<open>sprintf\<close>.\<close>

fun dec_nat :: "nat \<Rightarrow> string" where
  "dec_nat n = (if n < 10 then [''0123456789'' ! n] else dec_nat (n div 10) @ [''0123456789'' ! (n mod 10)])"

declare dec_nat.simps [simp del]

definition dec_int :: "int \<Rightarrow> string" where
  "dec_int i = (if i < 0 then ''-'' @ dec_nat (nat (- i)) else dec_nat (nat i))"

text \<open>
  \<^verbatim>\<open>snprintf(hgaddr, sizeof(hgaddr), "na+sm://%d/%d", pid, id)\<close> with \<^verbatim>\<open>char hgaddr[128]\<close>:
  at most 127 characters are kept.
\<close>

definition na_sm_addr :: "int \<Rightarrow> int \<Rightarrow> string" where
  "na_sm_addr pid hgid = take 127 (''na+sm://'' @ dec_int pid @ ''/'' @ dec_int hgid)"

subsection \<open>Calls, outcomes and the context\<close>

datatype comm = MPI_COMM_WORLD | LOCALCOMM | REPCOMM

text \<open>
  The two Mercury endpoints of a context: \<open>LOCAL_EP\<close> stands for \<^verbatim>\<open>local_hgcl\<close> and
  \<^verbatim>\<open>local_hgctx\<close>, \<open>REMOTE_EP\<close> for \<^verbatim>\<open>remote_hgcl\<close> and \<^verbatim>\<open>remote_hgctx\<close>.
\<close>

datatype endpoint = LOCAL_EP | REMOTE_EP

text \<open>
  The calls a run makes into MPI, Mercury, pthreads and the socket layer, in the order
  it makes them. \<open>Ev_set_bgdone\<close> is the store \<^verbatim>\<open>bgarg->bgdone = 1\<close>, \<open>Ev_hg_lookup\<close> the
  entry into \<^verbatim>\<open>hg_lookup\<close>. The \<^verbatim>\<open>fprintf\<close> diagnostics and \<^verbatim>\<open>free\<close> are not recorded.
\<close>

datatype event =
    EvMPI_Comm_rank comm
  | EvMPI_Comm_size comm
  | EvMPI_Allgather comm
  | EvMPI_Barrier comm
  | EvMPI_Comm_free comm
  | Ev_init_local_comm
  | Ev_init_rep_comm
  | EvHG_Init endpoint string
  | EvHG_Context_create endpoint
  | EvHG_Addr_self endpoint
  | Ev_hg_lookup endpoint string
  | EvHG_Addr_lookup endpoint string
  | EvHG_Addr_free endpoint hg_addr_t
  | EvHG_Context_destroy endpoint
  | EvHG_Finalize endpoint
  | Ev_pthread_create endpoint
  | Ev_set_bgdone endpoint
  | Ev_pthread_join endpoint
  | Ev_getifaddrs
  | Ev_getnameinfo
  | Ev_freeifaddrs
  | Ev_socket
  | Ev_setsockopt
  | Ev_bind int
  | Ev_getsockname
  | Ev_close
  | Ev_msg_abort string

text \<open>
  How a call ends: it returns a value; the process is aborted with a message; the
  thread never comes back from a blocking call or loops for ever (\<open>Blocks\<close>); or the run
  leaves what C or MPI define (\<open>Undefined\<close>: signed overflow, an index outside its array,
  a read of a variable never written, a buffer overrun).
\<close>

datatype 'a outcome = Returns 'a | Aborts string | Blocks | Undefined

text \<open>
  The records exchanged by the two all-gathers. The fields of \<^verbatim>\<open>ldata_t\<close> and \<^verbatim>\<open>rdata_t\<close>
  carry the prefixes \<open>ld_\<close> and \<open>rd_\<close>, since \<^verbatim>\<open>grank\<close> and \<^verbatim>\<open>lrank\<close> are fields of the
  context too. \<open>rd_addr\<close> is the \<^verbatim>\<open>char addr[60]\<close> field read as a C string.
\<close>

record ldata_t =
  ld_pid :: int
  ld_hgid :: int
  ld_grank :: int
  ld_lrank :: int

record rdata_t =
  rd_addr :: string
  rd_grank :: int

text \<open>
  The fields of \<^verbatim>\<open>nexus_ctx_t\<close> that \<^verbatim>\<open>nexus_setup.cc\<close> reads or writes
  (\<^verbatim>\<open>nexus_internal.h\<close> is not among the sources). The two \<^verbatim>\<open>std::map<int, hg_addr_t>\<close>
  are association lists kept in key order, which is the order a \<^verbatim>\<open>std::map\<close> iterates
  in; pointers are numbers, 0 the null pointer. \<open>world\<close> adds the calls made so far.
\<close>

record nexus_ctx =
  grank :: int
  gsize :: int
  lrank :: int
  lsize :: int
  lroot :: int
  localranks :: "int list"
  rankreps :: "int list"
  laddrs :: "(int \<times> hg_addr_t) list"
  gaddrs :: "(int \<times> hg_addr_t) list"
  local_hgcl :: nat
  local_hgctx :: nat
  remote_hgcl :: nat
  remote_hgctx :: nat

record world = nexus_ctx +
  calls :: "event list"

text \<open>\<^verbatim>\<open>m[k] = v\<close> on a \<^verbatim>\<open>std::map\<close>: the entry of \<open>k\<close> is replaced or inserted in key order.\<close>

fun map_set :: "int \<Rightarrow> 'v \<Rightarrow> (int \<times> 'v) list \<Rightarrow> (int \<times> 'v) list" where
  "map_set k v [] = [(k, v)]"
| "map_set k v ((k', v') # m) =
     (if k < k' then (k, v) # (k', v') # m
      else if k = k' then (k, v) # m
      else (k', v') # map_set k v m)"

subsection \<open>The environment\<close>

text \<open>
  What the rest of the system answers. An interface of \<^verbatim>\<open>getifaddrs\<close> is \<open>None\<close> when its
  \<^verbatim>\<open>ifa_addr\<close> is null, else its address family, the value \<^verbatim>\<open>getnameinfo\<close> returns for it
  and the content of \<^verbatim>\<open>ip\<close> after that call. \<open>peer_ldat r\<close>, \<open>peer_rdat r\<close> and
  \<open>peer_lroot r\<close> are what rank \<open>r\<close> of the communicator sends into the all-gather over
  the local group, the representative group and the world. \<open>lookup_cb_info\<close> is the
  \<^verbatim>\<open>hg_cb_info\<close> handed to \<^verbatim>\<open>hg_lookup_cb\<close> (return code and address), \<open>None\<close> when Mercury
  never runs the callback.
\<close>

type_synonym ifaddr = "(int \<times> int \<times> string) option"

record env =
  getpid_ret :: int
  mpi_rank :: "comm \<Rightarrow> int"
  mpi_size :: "comm \<Rightarrow> int"
  peer_ldat :: "int \<Rightarrow> ldata_t"
  peer_rdat :: "int \<Rightarrow> rdata_t"
  peer_lroot :: "int \<Rightarrow> int"
  barrier_returns :: "comm \<Rightarrow> bool"
  comm_split_ok :: "comm \<Rightarrow> bool"
  malloc_ok :: "string \<Rightarrow> bool"
  HG_Init_ret :: "string \<Rightarrow> nat"
  HG_Context_create_ret :: "nat \<Rightarrow> nat"
  HG_Addr_self_ret :: "endpoint \<Rightarrow> hg_return_t \<times> hg_addr_t"
  HG_Addr_lookup_ret :: "endpoint \<Rightarrow> string \<Rightarrow> hg_return_t"
  lookup_cb_info :: "endpoint \<Rightarrow> string \<Rightarrow> (hg_return_t \<times> hg_addr_t) option"
  pthread_create_ret :: "endpoint \<Rightarrow> int"
  getifaddrs_ret :: "ifaddr list option"
  socket_ret :: "int \<Rightarrow> int"
  bind_ret :: "int \<Rightarrow> int"
  getsockname_ret :: "int \<times> int"

definition call :: "event \<Rightarrow> world \<Rightarrow> world" where
  "call e s = s\<lparr>calls := calls s @ [e]\<rparr>"

text \<open>
  Modelled from the spec: \<^verbatim>\<open>msg_abort\<close> is declared in \<^verbatim>\<open>nexus_internal.h\<close>, which is not
  among the sources. Section 7 of the specification: an unrecoverable failure
  terminates the process after emitting a diagnostic.
\<close>

definition msg_abort :: "string \<Rightarrow> world \<Rightarrow> 'a outcome \<times> world" where
  "msg_abort m s = (Aborts m, call (Ev_msg_abort m) s)"

text \<open>Sequencing: what follows a call runs only when the call returns.\<close>

definition and_then ::
  "'a outcome \<times> world \<Rightarrow> ('a \<Rightarrow> world \<Rightarrow> 'b outcome \<times> world) \<Rightarrow> 'b outcome \<times> world"
where
  "and_then r f =
     (case r of
        (Returns x, s) \<Rightarrow> f x s
      | (Aborts m, s) \<Rightarrow> (Aborts m, s)
      | (Blocks, s) \<Rightarrow> (Blocks, s)
      | (Undefined, s) \<Rightarrow> (Undefined, s))"

text \<open>
  \<^verbatim>\<open>MPI_Allgather\<close> as the caller of rank \<open>rank\<close> sees it in a communicator of
  \<open>nranks\<close> members: block \<open>r\<close> of the receive buffer is what rank \<open>r\<close> sent, the caller's own
  block is its send buffer.
\<close>

definition MPI_Allgather :: "int \<Rightarrow> int \<Rightarrow> (int \<Rightarrow> 'a) \<Rightarrow> 'a \<Rightarrow> 'a list" where
  "MPI_Allgather rank nranks peer mine =
     map (\<lambda>r. if int r = rank then mine else peer (int r)) [0..<nat nranks]"

text \<open>\<^verbatim>\<open>MPI_Barrier\<close>: the call returns once every member has entered it, or never.\<close>

definition MPI_Barrier :: "env \<Rightarrow> comm \<Rightarrow> world \<Rightarrow> unit outcome \<times> world" where
  "MPI_Barrier env c s =
     (if barrier_returns env c then (Returns (), call (EvMPI_Barrier c) s) else (Blocks, s))"

subsection \<open>The synchronous lookup\<close>

text \<open>
  \<^verbatim>\<open>hg_lookup_cb\<close> stores the callback's return code and address in the completion
  record and signals the waiting thread.
\<close>

definition hg_lookup_cb :: "hg_return_t \<times> hg_addr_t \<Rightarrow> hg_return_t \<times> hg_addr_t" where
  "hg_lookup_cb info =
     (if fst info \<noteq> HG_SUCCESS then (fst info, HG_ADDR_NULL) else (fst info, snd info))"

text \<open>
  \<^verbatim>\<open>hg_lookup\<close> returns the code and, when it wrote \<^verbatim>\<open>*addr\<close>, the address. It blocks in
  \<^verbatim>\<open>pthread_cond_wait\<close> until the callback has run.
\<close>

definition hg_lookup ::
  "env \<Rightarrow> endpoint \<Rightarrow> string \<Rightarrow> world \<Rightarrow> (hg_return_t \<times> hg_addr_t option) outcome \<times> world"
where
  "hg_lookup env ep hgaddr s =
     (let s1 = call (Ev_hg_lookup ep hgaddr) s in
      if \<not> malloc_ok env ''hg_lookup_out_t'' then (Returns (HG_NOMEM_ERROR, None), s1)
      else
        let s2 = call (EvHG_Addr_lookup ep hgaddr) s1;
            hret = HG_Addr_lookup_ret env ep hgaddr
        in if hret \<noteq> HG_SUCCESS then (Returns (hret, None), s2)
           else
             (case lookup_cb_info env ep hgaddr of
                None \<Rightarrow> (Blocks, s2)
              | Some info \<Rightarrow>
                  let out = hg_lookup_cb info in
                  if fst out \<noteq> HG_SUCCESS then (Returns (fst out, None), s2)
                  else (Returns (HG_SUCCESS, Some (snd out)), s2)))"

text \<open>\<^verbatim>\<open>HG_Addr_self(cl, &addr)\<close>: the address is written when the call succeeds.\<close>

definition HG_Addr_self ::
  "env \<Rightarrow> endpoint \<Rightarrow> world \<Rightarrow> (hg_return_t \<times> hg_addr_t option) outcome \<times> world"
where
  "HG_Addr_self env ep s =
     (let r = HG_Addr_self_ret env ep in
      (Returns (fst r, if fst r = HG_SUCCESS then Some (snd r) else None),
       call (EvHG_Addr_self ep) s))"

subsection \<open>Local discovery\<close>

text \<open>
  \<^verbatim>\<open>discover_local_info\<close>, lines 255 to 282: the rank and size in the local group, the
  local endpoint and its network thread.
\<close>

definition local_endpoint_up :: "env \<Rightarrow> world \<Rightarrow> unit outcome \<times> world" where
  "local_endpoint_up env s0 =
     (let s1 = call (EvMPI_Comm_rank LOCALCOMM) (s0\<lparr>lrank := mpi_rank env LOCALCOMM\<rparr>);
          s2 = call (EvMPI_Comm_size LOCALCOMM) (s1\<lparr>lsize := mpi_size env LOCALCOMM\<rparr>);
          hgaddr = na_sm_addr (getpid_ret env) 0;
          s3 = call (EvHG_Init LOCAL_EP hgaddr) (s2\<lparr>local_hgcl := HG_Init_ret env hgaddr\<rparr>)
      in if local_hgcl s3 = 0 then msg_abort ''HG_init failed for local endpoint'' s3
         else
           let s4 = call (EvHG_Context_create LOCAL_EP)
                      (s3\<lparr>local_hgctx := HG_Context_create_ret env (local_hgcl s3)\<rparr>)
           in if local_hgctx s4 = 0
              then msg_abort ''HG_Context_create failed for local endpoint'' s4
              else if \<not> malloc_ok env ''bgarg'' then msg_abort ''malloc failed'' s4
              else
                let s5 = call (Ev_pthread_create LOCAL_EP) s4
                in if pthread_create_ret env LOCAL_EP \<noteq> 0
                   then msg_abort ''pthread_create failed'' s5
                   else (Returns (), s5))"

text \<open>
  Lines 284 to 300: the caller's \<^verbatim>\<open>ldat\<close>, the all-gather into \<^verbatim>\<open>hginfo\<close> and the
  allocation of \<^verbatim>\<open>localranks\<close> (whose cells are not read in this file before the loop
  has stored into them).
\<close>

definition local_exchange :: "env \<Rightarrow> world \<Rightarrow> ldata_t list outcome \<times> world" where
  "local_exchange env s =
     (let ldat = \<lparr>ld_pid = getpid_ret env, ld_hgid = 0, ld_grank = grank s, ld_lrank = lrank s\<rparr>
      in if \<not> malloc_ok env ''hginfo'' then msg_abort ''malloc failed'' s
         else
           let s1 = call (EvMPI_Allgather LOCALCOMM) s;
               hginfo = MPI_Allgather (mpi_rank env LOCALCOMM) (mpi_size env LOCALCOMM)
                          (peer_ldat env) ldat
           in if \<not> malloc_ok env ''localranks'' then msg_abort ''malloc failed'' s1
              else (Returns hginfo, s1\<lparr>localranks := replicate (nat (lsize s1)) 0\<rparr>))"

text \<open>The body of the loop of lines 302 to 338, for one value of \<^verbatim>\<open>i\<close>.\<close>

definition local_visit :: "env \<Rightarrow> ldata_t list \<Rightarrow> int \<Rightarrow> world \<Rightarrow> unit outcome \<times> world" where
  "local_visit env hginfo i s =
     (if \<not> in_int (lrank s + i) \<or> lsize s = 0 then (Undefined, s)
      else
        let eff_i = (lrank s + i) smod lsize s in
        if eff_i < 0 \<or> int (length hginfo) \<le> eff_i then (Undefined, s)
        else
          let h = hginfo ! nat eff_i;
              s1 = (if ld_lrank h = 0 then s\<lparr>lroot := ld_grank h\<rparr> else s)
          in if ld_lrank h < 0 \<or> int (length (localranks s1)) \<le> ld_lrank h then (Undefined, s1)
             else
               let s2 = s1\<lparr>localranks := (localranks s1)[nat (ld_lrank h) := ld_grank h]\<rparr>;
                   hgaddr = na_sm_addr (ld_pid h) (ld_hgid h)
               in and_then
                    (if ld_grank h = grank s2 then HG_Addr_self env LOCAL_EP s2
                     else hg_lookup env LOCAL_EP hgaddr s2)
                    (\<lambda>r s3.
                       if fst r \<noteq> HG_SUCCESS then msg_abort ''hg_lookup failed'' s3
                       else
                         (case snd r of
                            None \<Rightarrow> (Undefined, s3)
                          | Some localaddr \<Rightarrow>
                              (Returns (),
                               s3\<lparr>laddrs := map_set (ld_grank h) localaddr (laddrs s3)\<rparr>))))"

text \<open>\<^verbatim>\<open>for (int i = 0; i < nctx->lsize; i++)\<close>, over the values \<^verbatim>\<open>i\<close> takes.\<close>

fun local_loop :: "env \<Rightarrow> ldata_t list \<Rightarrow> int list \<Rightarrow> world \<Rightarrow> unit outcome \<times> world" where
  "local_loop env hginfo [] s = (Returns (), s)"
| "local_loop env hginfo (i # is) s =
     and_then (local_visit env hginfo i s) (\<lambda>_ s'. local_loop env hginfo is s')"

text \<open>Lines 340 to 349: the barrier, then the end of the network thread.\<close>

definition local_finish :: "env \<Rightarrow> world \<Rightarrow> unit outcome \<times> world" where
  "local_finish env s =
     and_then (MPI_Barrier env LOCALCOMM s)
       (\<lambda>_ s1. (Returns (), call (Ev_pthread_join LOCAL_EP) (call (Ev_set_bgdone LOCAL_EP) s1)))"

definition discover_local_info :: "env \<Rightarrow> world \<Rightarrow> unit outcome \<times> world" where
  "discover_local_info env s =
     and_then (local_endpoint_up env s) (\<lambda>_ s1.
     and_then (local_exchange env s1) (\<lambda>hginfo s2.
     and_then (local_loop env hginfo (map int [0..<nat (lsize s2)]) s2) (\<lambda>_ s3.
     local_finish env s3)))"

subsection \<open>The address of the remote endpoint\<close>

definition AF_INET :: int where
  "AF_INET = 2"

text \<open>
  The loop over the interfaces (lines 91 to 104). \<^verbatim>\<open>strncmp(subnet, ip, strlen(subnet)) == 0\<close>
  holds when \<^verbatim>\<open>subnet\<close> is a prefix of \<^verbatim>\<open>ip\<close>. The result is \<^verbatim>\<open>ip\<close> at the \<^verbatim>\<open>break\<close>, or
  \<open>None\<close> when \<^verbatim>\<open>cur\<close> ends as \<^verbatim>\<open>NULL\<close>.
\<close>

fun find_ifaddr :: "string \<Rightarrow> ifaddr list \<Rightarrow> world \<Rightarrow> string option outcome \<times> world" where
  "find_ifaddr subnet [] s = (Returns None, s)"
| "find_ifaddr subnet (None # ifs) s = find_ifaddr subnet ifs s"
| "find_ifaddr subnet (Some (family, ret, ip) # ifs) s =
     (if family = AF_INET then
        let s1 = call Ev_getnameinfo s in
        if ret = - 1 then msg_abort ''getnameinfo failed'' s1
        else if take (length subnet) ip = subnet then (Returns (Some ip), s1)
        else find_ifaddr subnet ifs s1
      else find_ifaddr subnet ifs s)"

text \<open>
  \<^verbatim>\<open>for (; port <= maxport; port += size)\<close> (lines 122 to 140); the result is \<^verbatim>\<open>port\<close>
  after the loop. With \<^verbatim>\<open>size\<close> 0 and a port that cannot be bound the loop never ends.
\<close>

function probe_ports :: "env \<Rightarrow> int \<Rightarrow> int \<Rightarrow> int \<Rightarrow> world \<Rightarrow> int outcome \<times> world" where
  "probe_ports env port maxport sz s =
     (if port \<le> maxport then
        let s1 = call Ev_socket s;
            so = socket_ret env port;
            s2 = call Ev_setsockopt s1
        in if so \<noteq> - 1 then
             let s3 = call (Ev_bind port) s2;
                 n = bind_ret env port;
                 s4 = call Ev_close s3
             in if n = 0 then (Returns port, s4)
                else if sz = 0 then (Blocks, s4)
                else if \<not> in_int (port + sz) then (Undefined, s4)
                else probe_ports env (port + sz) maxport sz s4
           else msg_abort ''socket'' s2
      else (Returns port, s))"
  by pat_completeness auto
termination
  by (relation "measure (\<lambda>(env, port, maxport, sz, s).
        if 0 < sz then nat (maxport - port + 1) else nat (port - INT_MIN + 1))")
     (auto simp: in_int_def)

text \<open>Lines 142 to 166: the port the system picks when none of the range is free.\<close>

definition port_fallback :: "env \<Rightarrow> world \<Rightarrow> int outcome \<times> world" where
  "port_fallback env s =
     (let s1 = call Ev_socket s;
          so = socket_ret env 0;
          s2 = call Ev_setsockopt s1
      in if so \<noteq> - 1 then
           let s3 = call (Ev_bind 0) s2 in
           if bind_ret env 0 = 0 then
             let s4 = call Ev_getsockname s3;
                 port = (if fst (getsockname_ret env) = 0
                         then snd (getsockname_ret env) mod 65536 else 0)
             in (Returns port, call Ev_close s4)
           else (Returns 0, call Ev_close s3)
         else msg_abort ''socket'' s2)"

text \<open>
  \<^verbatim>\<open>prepare_addr\<close>. The result is the URI written by \<^verbatim>\<open>sprintf\<close> into the caller's
  \<^verbatim>\<open>char hgaddr[128]\<close>; a longer URI overruns the buffer.
\<close>

definition prepare_addr ::
  "env \<Rightarrow> int \<Rightarrow> int \<Rightarrow> string \<Rightarrow> string \<Rightarrow> world \<Rightarrow> string outcome \<times> world"
where
  "prepare_addr env minport maxport subnet proto s =
     (let s1 = call Ev_getifaddrs s in
      case getifaddrs_ret env of
        None \<Rightarrow> msg_abort ''getifaddrs failed'' s1
      | Some ifaddr \<Rightarrow>
          and_then (find_ifaddr subnet ifaddr s1) (\<lambda>cur s2.
            case cur of
              None \<Rightarrow> msg_abort ''no ip addr'' s2
            | Some ip \<Rightarrow>
                let s3 = call Ev_freeifaddrs s2 in
                if \<not> in_int (maxport - minport) then (Undefined, s3)
                else if maxport - minport < 0 then msg_abort ''bad min-max port'' s3
                else if minport < 1 then msg_abort ''bad min port'' s3
                else if maxport > 65535 then msg_abort ''bad max port'' s3
                else
                  let s4 = call (EvMPI_Comm_rank LOCALCOMM) s3;
                      rank = mpi_rank env LOCALCOMM;
                      s5 = call (EvMPI_Comm_size LOCALCOMM) s4;
                      sz = mpi_size env LOCALCOMM;
                      port = minport + (rank smod (1 + maxport - minport))
                  in and_then (probe_ports env port maxport sz s5) (\<lambda>port s6.
                     and_then (if port > maxport then port_fallback env s6
                               else (Returns port, s6)) (\<lambda>port s7.
                       if port = 0 then msg_abort ''no free ports'' s7
                       else
                         let uri = proto @ ''://'' @ ip @ '':'' @ dec_int port in
                         if 128 \<le> length uri then (Undefined, s7)
                         else (Returns uri, s7)))))"

subsection \<open>Remote discovery\<close>

text \<open>
  The stores into \<^verbatim>\<open>rdat.addr\<close> (lines 399 and 400), as pairs of an index into
  \<^verbatim>\<open>char addr[60]\<close> and the byte stored: \<^verbatim>\<open>strncpy(rdat.addr, hgaddr, sizeof(rdat.addr))\<close>
  copies the string and pads with null bytes up to 60 bytes, then \<^verbatim>\<open>rdat.addr[60] = '\0'\<close>.
\<close>

definition strncpy_stores :: "string \<Rightarrow> nat \<Rightarrow> (nat \<times> char) list" where
  "strncpy_stores src n = map (\<lambda>i. (i, if i < length src then src ! i else CHR 0x00)) [0..<n]"

definition rdat_addr_stores :: "string \<Rightarrow> (nat \<times> char) list" where
  "rdat_addr_stores hgaddr = strncpy_stores hgaddr (60::nat) @ [(60, CHR 0x00)]"

text \<open>
  The bytes of a field after a list of stores; a store past the end of the field leaves
  the field as it is (in \<^verbatim>\<open>rdata_t\<close> it falls on \<^verbatim>\<open>grank\<close>, which line 401 assigns next).
\<close>

definition store_bytes :: "(nat \<times> char) list \<Rightarrow> char list \<Rightarrow> char list" where
  "store_bytes stores buf =
     fold (\<lambda>st b. if fst st < length b then b[fst st := snd st] else b) stores buf"

definition c_string :: "char list \<Rightarrow> string" where
  "c_string bytes = takeWhile (\<lambda>c. c \<noteq> CHR 0x00) bytes"

text \<open>
  The record the caller sends (lines 399 to 401), as the compiled program lays it out:
  the 60 bytes of \<^verbatim>\<open>addr\<close>, then the four bytes of \<^verbatim>\<open>grank\<close>, least significant first
  (the store of line 400 falls on the first of them and line 401 overwrites it).
  \<open>rd_addr\<close> is the string a reader of \<^verbatim>\<open>addr\<close> finds: it ends at the first null byte,
  inside the field for a URI of fewer than 60 characters; a longer URI leaves the field
  without a null byte, and the reader runs on into the bytes of \<^verbatim>\<open>grank\<close>. (Were none
  of those null either, it would run past the record; the model stops at its end.)
\<close>

definition int_bytes :: "int \<Rightarrow> char list" where
  "int_bytes g = map (\<lambda>k. char_of ((g mod 2 ^ 32) div 256 ^ k)) [0..<4]"

definition build_rdat :: "string \<Rightarrow> int \<Rightarrow> rdata_t" where
  "build_rdat hgaddr g =
     \<lparr>rd_addr = c_string (store_bytes (rdat_addr_stores hgaddr) (replicate 60 (CHR 0x00)) @
                          int_bytes g),
      rd_grank = g\<rparr>"

text \<open>
  \<^verbatim>\<open>discover_remote_info\<close>, lines 366 to 375: the caller's rank and size in the
  representative group (the result) and the map from rank to representative. The
  buffer holds \<^verbatim>\<open>gsize\<close> values and receives one from every rank of the world.
\<close>

definition remote_rankreps :: "env \<Rightarrow> world \<Rightarrow> (int \<times> int) outcome \<times> world" where
  "remote_rankreps env s =
     (let s1 = call (EvMPI_Comm_rank REPCOMM) s;
          rep_rank = mpi_rank env REPCOMM;
          s2 = call (EvMPI_Comm_size REPCOMM) s1;
          rep_size = mpi_size env REPCOMM
      in if \<not> malloc_ok env ''rankreps'' then msg_abort ''malloc failed'' s2
         else
           let s3 = call (EvMPI_Allgather MPI_COMM_WORLD) s2;
               got = MPI_Allgather (mpi_rank env MPI_COMM_WORLD) (mpi_size env MPI_COMM_WORLD)
                       (peer_lroot env) (lroot s3)
           in if nat (gsize s3) < length got then (Undefined, s3)
              else (Returns (rep_rank, rep_size),
                    s3\<lparr>rankreps := got @ replicate (nat (gsize s3) - length got) 0\<rparr>))"

text \<open>Lines 377 to 396: the remote endpoint and its network thread.\<close>

definition remote_endpoint_up :: "env \<Rightarrow> string \<Rightarrow> world \<Rightarrow> unit outcome \<times> world" where
  "remote_endpoint_up env hgaddr s =
     (let s1 = call (EvHG_Init REMOTE_EP hgaddr) (s\<lparr>remote_hgcl := HG_Init_ret env hgaddr\<rparr>)
      in if remote_hgcl s1 = 0 then msg_abort ''HG_Init failed for remote endpoint'' s1
         else
           let s2 = call (EvHG_Context_create REMOTE_EP)
                      (s1\<lparr>remote_hgctx := HG_Context_create_ret env (remote_hgcl s1)\<rparr>)
           in if remote_hgctx s2 = 0
              then msg_abort ''HG_Context_create failed for remote endpoint'' s2
              else if \<not> malloc_ok env ''bgarg'' then msg_abort ''malloc failed'' s2
              else
                let s3 = call (Ev_pthread_create REMOTE_EP) s2
                in if pthread_create_ret env REMOTE_EP \<noteq> 0
                   then msg_abort ''pthread_create failed'' s3
                   else (Returns (), s3))"

text \<open>Lines 398 to 408: the caller's \<^verbatim>\<open>rdat\<close> and the all-gather over the representatives.\<close>

definition remote_exchange :: "env \<Rightarrow> string \<Rightarrow> world \<Rightarrow> rdata_t list outcome \<times> world" where
  "remote_exchange env hgaddr s =
     (let rdat = build_rdat hgaddr (grank s)
      in if \<not> malloc_ok env ''hginfo'' then msg_abort ''malloc failed'' s
         else (Returns (MPI_Allgather (mpi_rank env REPCOMM) (mpi_size env REPCOMM)
                          (peer_rdat env) rdat),
               call (EvMPI_Allgather REPCOMM) s))"

text \<open>The body of the loop of lines 410 to 433, for one value of \<^verbatim>\<open>i\<close>.\<close>

definition remote_visit ::
  "env \<Rightarrow> rdata_t list \<Rightarrow> int \<Rightarrow> int \<Rightarrow> int \<Rightarrow> world \<Rightarrow> unit outcome \<times> world"
where
  "remote_visit env hginfo rep_rank rep_size i s =
     (if \<not> in_int (rep_rank + i) \<or> rep_size = 0 then (Undefined, s)
      else
        let eff_i = (rep_rank + i) smod rep_size in
        if eff_i < 0 \<or> int (length hginfo) \<le> eff_i then (Undefined, s)
        else
          let h = hginfo ! nat eff_i
          in and_then
               (if rd_grank h = grank s then HG_Addr_self env REMOTE_EP s
                else hg_lookup env REMOTE_EP (rd_addr h) s)
               (\<lambda>r s1.
                  if fst r \<noteq> HG_SUCCESS then msg_abort ''hg_lookup failed'' s1
                  else
                    (case snd r of
                       None \<Rightarrow> (Undefined, s1)
                     | Some remoteaddr \<Rightarrow>
                         (Returns (),
                          s1\<lparr>gaddrs := map_set (rd_grank h) remoteaddr (gaddrs s1)\<rparr>))))"

fun remote_loop ::
  "env \<Rightarrow> rdata_t list \<Rightarrow> int \<Rightarrow> int \<Rightarrow> int list \<Rightarrow> world \<Rightarrow> unit outcome \<times> world"
where
  "remote_loop env hginfo rep_rank rep_size [] s = (Returns (), s)"
| "remote_loop env hginfo rep_rank rep_size (i # is) s =
     and_then (remote_visit env hginfo rep_rank rep_size i s)
       (\<lambda>_ s'. remote_loop env hginfo rep_rank rep_size is s')"

text \<open>Lines 435 to 443: the barrier, then the end of the network thread.\<close>

definition remote_finish :: "env \<Rightarrow> world \<Rightarrow> unit outcome \<times> world" where
  "remote_finish env s =
     and_then (MPI_Barrier env REPCOMM s)
       (\<lambda>_ s1. (Returns (), call (Ev_pthread_join REMOTE_EP) (call (Ev_set_bgdone REMOTE_EP) s1)))"

definition discover_remote_info :: "env \<Rightarrow> string \<Rightarrow> world \<Rightarrow> unit outcome \<times> world" where
  "discover_remote_info env hgaddr s =
     and_then (remote_rankreps env s) (\<lambda>rep s1.
     and_then (remote_endpoint_up env hgaddr s1) (\<lambda>_ s2.
     and_then (remote_exchange env hgaddr s2) (\<lambda>hginfo s3.
     and_then (remote_loop env hginfo (fst rep) (snd rep) (map int [0..<nat (snd rep)]) s3)
       (\<lambda>_ s4. remote_finish env s4))))"

subsection \<open>Bootstrap and teardown\<close>

text \<open>
  Modelled from the spec: \<^verbatim>\<open>init_local_comm\<close> and \<^verbatim>\<open>init_rep_comm\<close> are called by
  \<^verbatim>\<open>nexus_bootstrap\<close> and defined in a file that is not among the sources. Section 4.1
  of the specification: the partitioner derives the groups with the group-splitting
  primitive of the substrate; if the substrate cannot produce group membership, this is
  fatal. The communicators they leave in the context are \<open>LOCALCOMM\<close> and \<open>REPCOMM\<close>
  of the environment.
\<close>

definition init_local_comm :: "env \<Rightarrow> world \<Rightarrow> unit outcome \<times> world" where
  "init_local_comm env s =
     (let s1 = call Ev_init_local_comm s in
      if comm_split_ok env LOCALCOMM then (Returns (), s1)
      else msg_abort ''init_local_comm failed'' s1)"

definition init_rep_comm :: "env \<Rightarrow> world \<Rightarrow> unit outcome \<times> world" where
  "init_rep_comm env s =
     (let s1 = call Ev_init_rep_comm s in
      if comm_split_ok env REPCOMM then (Returns (), s1)
      else msg_abort ''init_rep_comm failed'' s1)"

definition nexus_bootstrap ::
  "env \<Rightarrow> int \<Rightarrow> int \<Rightarrow> string \<Rightarrow> string \<Rightarrow> world \<Rightarrow> nexus_ret_t outcome \<times> world"
where
  "nexus_bootstrap env minport maxport subnet proto s0 =
     (let s1 = call (EvMPI_Comm_rank MPI_COMM_WORLD) (s0\<lparr>grank := mpi_rank env MPI_COMM_WORLD\<rparr>);
          s2 = call (EvMPI_Comm_size MPI_COMM_WORLD) (s1\<lparr>gsize := mpi_size env MPI_COMM_WORLD\<rparr>)
      in and_then (init_local_comm env s2) (\<lambda>_ s3.
         and_then (discover_local_info env s3) (\<lambda>_ s4.
         and_then (prepare_addr env minport maxport subnet proto s4) (\<lambda>hgaddr s5.
         and_then (init_rep_comm env s5) (\<lambda>_ s6.
         and_then (discover_remote_info env hgaddr s6) (\<lambda>_ s7.
         (Returns NX_SUCCESS, s7)))))))"

text \<open>The two loops of \<^verbatim>\<open>nexus_destroy\<close> over a map, in the order of its keys.\<close>

fun free_addrs :: "endpoint \<Rightarrow> (int \<times> hg_addr_t) list \<Rightarrow> world \<Rightarrow> world" where
  "free_addrs ep [] s = s"
| "free_addrs ep ((k, a) # m) s =
     free_addrs ep m (if a \<noteq> HG_ADDR_NULL then call (EvHG_Addr_free ep a) s else s)"

definition nexus_destroy :: "env \<Rightarrow> world \<Rightarrow> nexus_ret_t outcome \<times> world" where
  "nexus_destroy env s =
     (let s1 = free_addrs LOCAL_EP (laddrs s) s in
      and_then (MPI_Barrier env LOCALCOMM s1) (\<lambda>_ s2.
        let s3 = call (EvMPI_Comm_free LOCALCOMM) s2;
            s4 = call (EvHG_Context_destroy LOCAL_EP) s3;
            s5 = call (EvHG_Finalize LOCAL_EP) s4;
            s6 = free_addrs REMOTE_EP (gaddrs s5) s5
        in and_then (MPI_Barrier env REPCOMM s6) (\<lambda>_ s7.
             let s8 = call (EvHG_Context_destroy REMOTE_EP) s7;
                 s9 = call (EvHG_Finalize REMOTE_EP) s8
             in (Returns NX_SUCCESS, call (EvMPI_Comm_free REPCOMM) s9))))"

subsection \<open>The routing resolver\<close>

text \<open>
  Modelled from the spec: \<^verbatim>\<open>nexus_next_hop\<close> is declared in \<^verbatim>\<open>deltafs-nexus_api.h\<close>
  and its body is not among the sources. Section 4.6 of the specification: a destination
  rank outside the valid global-rank range is rejected as an invalid-parameter error
  without side effects; then, in priority order, the destination is the caller (already
  at destination), is co-located (its representative is the caller's: its entry of the
  Local Routing Table), the caller is not its node's representative (the entry of the
  caller's representative in the Local Routing Table), or the caller is (the entry of
  the destination's representative in the Remote Routing Table); an identity missing
  from its table is a not-found error. The result is the code of the header, the rank
  and address of the next hop when there is one, and the context the call leaves.
\<close>

definition nexus_next_hop ::
  "world \<Rightarrow> int \<Rightarrow> (nexus_ret_t \<times> int option \<times> hg_addr_t option) \<times> world"
where
  "nexus_next_hop nctx dest =
     (if dest < 0 \<or> gsize nctx \<le> dest then ((NX_INVAL, None, None), nctx)
      else if dest = grank nctx then ((NX_DONE, None, None), nctx)
      else if length (rankreps nctx) \<le> nat dest then ((NX_NOTFOUND, None, None), nctx)
      else
        let destrep = rankreps nctx ! nat dest in
        if destrep = lroot nctx then
          (case map_of (laddrs nctx) dest of
             None \<Rightarrow> ((NX_NOTFOUND, None, None), nctx)
           | Some a \<Rightarrow> ((NX_ISLOCAL, Some dest, Some a), nctx))
        else if grank nctx \<noteq> lroot nctx then
          (case map_of (laddrs nctx) (lroot nctx) of
             None \<Rightarrow> ((NX_NOTFOUND, None, None), nctx)
           | Some a \<Rightarrow> ((NX_SRCREP, Some (lroot nctx), Some a), nctx))
        else
          (case map_of (gaddrs nctx) destrep of
             None \<Rightarrow> ((NX_NOTFOUND, None, None), nctx)
           | Some a \<Rightarrow> ((NX_DESTREP, Some destrep, Some a), nctx)))"

subsection \<open>Notions the statements use\<close>

text \<open>The calls a run adds to the calls made before it.\<close>

definition made :: "world \<Rightarrow> world \<Rightarrow> event list" where
  "made s s' = drop (length (calls s)) (calls s')"

text \<open>
  A resolution of a peer's address on an endpoint: the self-address query, or the entry
  into the synchronous lookup.
\<close>

fun resolution :: "endpoint \<Rightarrow> event \<Rightarrow> bool" where
  "resolution ep (EvHG_Addr_self ep') = (ep = ep')"
| "resolution ep (Ev_hg_lookup ep' a) = (ep = ep')"
| "resolution ep e = False"

text \<open>The result of the all-gather of each discovery, as the code computes it.\<close>

definition local_hginfo :: "env \<Rightarrow> world \<Rightarrow> ldata_t list" where
  "local_hginfo env s =
     MPI_Allgather (mpi_rank env LOCALCOMM) (mpi_size env LOCALCOMM) (peer_ldat env)
       \<lparr>ld_pid = getpid_ret env, ld_hgid = 0, ld_grank = grank s,
        ld_lrank = mpi_rank env LOCALCOMM\<rparr>"

definition remote_hginfo :: "env \<Rightarrow> string \<Rightarrow> world \<Rightarrow> rdata_t list" where
  "remote_hginfo env hgaddr s =
     MPI_Allgather (mpi_rank env REPCOMM) (mpi_size env REPCOMM) (peer_rdat env)
       (build_rdat hgaddr (grank s))"

text \<open>
  What claim C1 expects for the peer at index \<open>j\<close> of a group in which the caller has
  rank \<open>r\<close>: the self-address query for the caller, the lookup of the peer's address
  string for every other peer; and the address that resolution yields (\<open>None\<close> when it
  does not succeed).
\<close>

definition local_resolution :: "int \<Rightarrow> ldata_t list \<Rightarrow> nat \<Rightarrow> event" where
  "local_resolution r hginfo j =
     (if int j = r then EvHG_Addr_self LOCAL_EP
      else Ev_hg_lookup LOCAL_EP (na_sm_addr (ld_pid (hginfo ! j)) (ld_hgid (hginfo ! j))))"

definition remote_resolution :: "int \<Rightarrow> rdata_t list \<Rightarrow> nat \<Rightarrow> event" where
  "remote_resolution r hginfo j =
     (if int j = r then EvHG_Addr_self REMOTE_EP
      else Ev_hg_lookup REMOTE_EP (rd_addr (hginfo ! j)))"

definition self_address :: "env \<Rightarrow> endpoint \<Rightarrow> hg_addr_t option" where
  "self_address env ep =
     (if fst (HG_Addr_self_ret env ep) = HG_SUCCESS then Some (snd (HG_Addr_self_ret env ep))
      else None)"

definition looked_up :: "env \<Rightarrow> endpoint \<Rightarrow> string \<Rightarrow> hg_addr_t option" where
  "looked_up env ep a =
     (if malloc_ok env ''hg_lookup_out_t'' \<and> HG_Addr_lookup_ret env ep a = HG_SUCCESS
      then (case lookup_cb_info env ep a of
              None \<Rightarrow> None
            | Some info \<Rightarrow> if fst info = HG_SUCCESS then Some (snd info) else None)
      else None)"

definition local_address :: "env \<Rightarrow> int \<Rightarrow> ldata_t list \<Rightarrow> nat \<Rightarrow> hg_addr_t option" where
  "local_address env r hginfo j =
     (if int j = r then self_address env LOCAL_EP
      else looked_up env LOCAL_EP (na_sm_addr (ld_pid (hginfo ! j)) (ld_hgid (hginfo ! j))))"

definition remote_address :: "env \<Rightarrow> int \<Rightarrow> rdata_t list \<Rightarrow> nat \<Rightarrow> hg_addr_t option" where
  "remote_address env r hginfo j =
     (if int j = r then self_address env REMOTE_EP
      else looked_up env REMOTE_EP (rd_addr (hginfo ! j)))"

text \<open>
  The same two notions as the loops decide them, by comparing the peer's global rank
  with the caller's: \<open>local_peer\<close> and \<open>remote_peer\<close> are \<^verbatim>\<open>hginfo[eff_i]\<close>.
\<close>

definition local_peer :: "world \<Rightarrow> ldata_t list \<Rightarrow> int \<Rightarrow> ldata_t" where
  "local_peer s hginfo i = hginfo ! nat ((lrank s + i) smod lsize s)"

definition local_peer_call :: "int \<Rightarrow> ldata_t \<Rightarrow> event" where
  "local_peer_call g h =
     (if ld_grank h = g then EvHG_Addr_self LOCAL_EP
      else Ev_hg_lookup LOCAL_EP (na_sm_addr (ld_pid h) (ld_hgid h)))"

definition local_peer_addr :: "env \<Rightarrow> int \<Rightarrow> ldata_t \<Rightarrow> hg_addr_t option" where
  "local_peer_addr env g h =
     (if ld_grank h = g then self_address env LOCAL_EP
      else looked_up env LOCAL_EP (na_sm_addr (ld_pid h) (ld_hgid h)))"

definition remote_peer :: "int \<Rightarrow> int \<Rightarrow> rdata_t list \<Rightarrow> int \<Rightarrow> rdata_t" where
  "remote_peer rep_rank rep_size hginfo i = hginfo ! nat ((rep_rank + i) smod rep_size)"

definition remote_peer_call :: "int \<Rightarrow> rdata_t \<Rightarrow> event" where
  "remote_peer_call g h =
     (if rd_grank h = g then EvHG_Addr_self REMOTE_EP
      else Ev_hg_lookup REMOTE_EP (rd_addr h))"

definition remote_peer_addr :: "env \<Rightarrow> int \<Rightarrow> rdata_t \<Rightarrow> hg_addr_t option" where
  "remote_peer_addr env g h =
     (if rd_grank h = g then self_address env REMOTE_EP
      else looked_up env REMOTE_EP (rd_addr h))"

text \<open>
  A call that uses an endpoint to resolve an address: a resolution, or the posting of
  the asynchronous lookup inside \<^verbatim>\<open>hg_lookup\<close>.
\<close>

fun resolving :: "endpoint \<Rightarrow> event \<Rightarrow> bool" where
  "resolving ep (EvHG_Addr_self ep') = (ep = ep')"
| "resolving ep (Ev_hg_lookup ep' a) = (ep = ep')"
| "resolving ep (EvHG_Addr_lookup ep' a) = (ep = ep')"
| "resolving ep e = False"

text \<open>
  The order of claim C7 on the calls of one process: with \<open>seen\<close> telling whether the
  barrier of the group has returned, the stop flag is stored and the thread joined only
  after it, and nothing is resolved on the endpoint after it.
\<close>

fun barrier_then_stop :: "comm \<Rightarrow> endpoint \<Rightarrow> bool \<Rightarrow> event list \<Rightarrow> bool" where
  "barrier_then_stop c ep seen [] = True"
| "barrier_then_stop c ep seen (e # es) =
     (if e = EvMPI_Barrier c then barrier_then_stop c ep True es
      else if e = Ev_set_bgdone ep \<or> e = Ev_pthread_join ep
      then seen \<and> barrier_then_stop c ep seen es
      else if resolving ep e then \<not> seen \<and> barrier_then_stop c ep seen es
      else barrier_then_stop c ep seen es)"

text \<open>
  The code a resolution returns, \<open>None\<close> when it never returns: \<^verbatim>\<open>hg_lookup\<close> fails
  with \<^verbatim>\<open>HG_NOMEM_ERROR\<close> when its allocation fails, with the code of \<^verbatim>\<open>HG_Addr_lookup\<close>
  when the lookup cannot be posted, and returns the callback's code otherwise.
\<close>

definition lookup_code :: "env \<Rightarrow> endpoint \<Rightarrow> string \<Rightarrow> hg_return_t option" where
  "lookup_code env ep a =
     (if \<not> malloc_ok env ''hg_lookup_out_t'' then Some HG_NOMEM_ERROR
      else if HG_Addr_lookup_ret env ep a \<noteq> HG_SUCCESS then Some (HG_Addr_lookup_ret env ep a)
      else map_option fst (lookup_cb_info env ep a))"

definition local_peer_code :: "env \<Rightarrow> int \<Rightarrow> ldata_t \<Rightarrow> hg_return_t option" where
  "local_peer_code env g h =
     (if ld_grank h = g then Some (fst (HG_Addr_self_ret env LOCAL_EP))
      else lookup_code env LOCAL_EP (na_sm_addr (ld_pid h) (ld_hgid h)))"

definition remote_peer_code :: "env \<Rightarrow> int \<Rightarrow> rdata_t \<Rightarrow> hg_return_t option" where
  "remote_peer_code env g h =
     (if rd_grank h = g then Some (fst (HG_Addr_self_ret env REMOTE_EP))
      else lookup_code env REMOTE_EP (rd_addr h))"

text \<open>The record the loop visits at step \<open>i\<close>, in terms of the environment.\<close>

definition local_visited :: "env \<Rightarrow> world \<Rightarrow> int \<Rightarrow> ldata_t" where
  "local_visited env s i =
     local_hginfo env s ! nat ((mpi_rank env LOCALCOMM + i) smod mpi_size env LOCALCOMM)"

definition remote_visited :: "env \<Rightarrow> string \<Rightarrow> world \<Rightarrow> int \<Rightarrow> rdata_t" where
  "remote_visited env hgaddr s i =
     remote_hginfo env hgaddr s ! nat ((mpi_rank env REPCOMM + i) smod mpi_size env REPCOMM)"

text \<open>
  Discovery without a partial-success mode, as sections 4.4 and 4.5 of the
  specification word it: the resolutions are made in order, the first one that returns
  a code other than success is fatal, and one that never returns holds the run there.
\<close>

fun resolve_all :: "hg_return_t option list \<Rightarrow> unit outcome" where
  "resolve_all [] = Returns ()"
| "resolve_all (None # cs) = Blocks"
| "resolve_all (Some c # cs) =
     (if c = HG_SUCCESS then resolve_all cs else Aborts ''hg_lookup failed'')"

text \<open>
  The calls of the members of a group, in the order they happen: each with the member
  that makes it. \<open>member_calls m\<close> are the calls of member \<open>m\<close>. A schedule is
  \<open>barrier_synchronised\<close> when it respects \<^verbatim>\<open>MPI_Barrier\<close>: the barrier returns in no
  member before every member has entered it, so once it has returned somewhere
  (\<open>released\<close> lists the members it has returned in), a member makes no call other than
  returning from the barrier until its own barrier has returned.
  \<open>no_resolution_after_stop\<close>: once a member has stored the stop flag of its network
  thread or joined it, no member resolves an address on that endpoint any more.
\<close>

definition member_calls :: "nat \<Rightarrow> (nat \<times> event) list \<Rightarrow> event list" where
  "member_calls m sched = map snd (filter (\<lambda>x. fst x = m) sched)"

fun barrier_synchronised :: "comm \<Rightarrow> nat list \<Rightarrow> (nat \<times> event) list \<Rightarrow> bool" where
  "barrier_synchronised c released [] = True"
| "barrier_synchronised c released ((m, e) # sched) =
     (if e = EvMPI_Barrier c then barrier_synchronised c (m # released) sched
      else (released = [] \<or> m \<in> set released) \<and> barrier_synchronised c released sched)"

fun no_resolution_after_stop :: "endpoint \<Rightarrow> bool \<Rightarrow> (nat \<times> event) list \<Rightarrow> bool" where
  "no_resolution_after_stop ep stopped [] = True"
| "no_resolution_after_stop ep stopped ((m, e) # sched) =
     (if e = Ev_set_bgdone ep \<or> e = Ev_pthread_join ep
      then no_resolution_after_stop ep True sched
      else (stopped \<longrightarrow> \<not> resolving ep e) \<and> no_resolution_after_stop ep stopped sched)"

text \<open>
  The calls of each discovery: those on the local group and the local endpoint, and
  those on the representative group, the world and the remote endpoint.
\<close>

fun local_tier :: "event \<Rightarrow> bool" where
  "local_tier (EvMPI_Comm_rank c) = (c = LOCALCOMM)"
| "local_tier (EvMPI_Comm_size c) = (c = LOCALCOMM)"
| "local_tier (EvMPI_Allgather c) = (c = LOCALCOMM)"
| "local_tier (EvMPI_Barrier c) = (c = LOCALCOMM)"
| "local_tier (EvHG_Init ep a) = (ep = LOCAL_EP)"
| "local_tier (EvHG_Context_create ep) = (ep = LOCAL_EP)"
| "local_tier (EvHG_Addr_self ep) = (ep = LOCAL_EP)"
| "local_tier (Ev_hg_lookup ep a) = (ep = LOCAL_EP)"
| "local_tier (EvHG_Addr_lookup ep a) = (ep = LOCAL_EP)"
| "local_tier (Ev_pthread_create ep) = (ep = LOCAL_EP)"
| "local_tier (Ev_set_bgdone ep) = (ep = LOCAL_EP)"
| "local_tier (Ev_pthread_join ep) = (ep = LOCAL_EP)"
| "local_tier (Ev_msg_abort m) = True"
| "local_tier e = False"

fun remote_tier :: "event \<Rightarrow> bool" where
  "remote_tier (EvMPI_Comm_rank c) = (c = REPCOMM)"
| "remote_tier (EvMPI_Comm_size c) = (c = REPCOMM)"
| "remote_tier (EvMPI_Allgather c) = (c = REPCOMM \<or> c = MPI_COMM_WORLD)"
| "remote_tier (EvMPI_Barrier c) = (c = REPCOMM)"
| "remote_tier (EvHG_Init ep a) = (ep = REMOTE_EP)"
| "remote_tier (EvHG_Context_create ep) = (ep = REMOTE_EP)"
| "remote_tier (EvHG_Addr_self ep) = (ep = REMOTE_EP)"
| "remote_tier (Ev_hg_lookup ep a) = (ep = REMOTE_EP)"
| "remote_tier (EvHG_Addr_lookup ep a) = (ep = REMOTE_EP)"
| "remote_tier (Ev_pthread_create ep) = (ep = REMOTE_EP)"
| "remote_tier (Ev_set_bgdone ep) = (ep = REMOTE_EP)"
| "remote_tier (Ev_pthread_join ep) = (ep = REMOTE_EP)"
| "remote_tier (Ev_msg_abort m) = True"
| "remote_tier e = False"

text \<open>
  Two notions for the proofs. \<open>adds P s r\<close>: the result \<open>r\<close> of a call made in \<open>s\<close> extends
  the calls of \<open>s\<close> by calls that satisfy \<open>P\<close>. \<open>staged c ep P s r\<close>: it extends them by
  calls that satisfy \<open>P\<close> and are neither the barrier of \<open>c\<close> nor the stop or join of the
  thread of \<open>ep\<close>, followed, when and only when the call returns, by that barrier, the
  stop and the join.
\<close>

definition adds :: "(event \<Rightarrow> bool) \<Rightarrow> world \<Rightarrow> 'a outcome \<times> world \<Rightarrow> bool" where
  "adds P s r = (\<exists>evs. calls (snd r) = calls s @ evs \<and> list_all P evs)"

definition quiet :: "comm \<Rightarrow> endpoint \<Rightarrow> event \<Rightarrow> bool" where
  "quiet c ep e = (e \<noteq> EvMPI_Barrier c \<and> e \<noteq> Ev_set_bgdone ep \<and> e \<noteq> Ev_pthread_join ep)"

definition staged ::
  "comm \<Rightarrow> endpoint \<Rightarrow> (event \<Rightarrow> bool) \<Rightarrow> world \<Rightarrow> 'a outcome \<times> world \<Rightarrow> bool"
where
  "staged c ep P s r =
     (\<exists>evs fin. calls (snd r) = calls s @ evs @ fin \<and>
        list_all (\<lambda>e. P e \<and> quiet c ep e) evs \<and>
        (fin = [] \<and> (\<forall>x. fst r \<noteq> Returns x) \<or>
         fin = [EvMPI_Barrier c, Ev_set_bgdone ep, Ev_pthread_join ep] \<and>
           (\<exists>x. fst r = Returns x)))"

subsection \<open>The test topology\<close>

text \<open>
  The topology of section 8 of the specification: global ranks 0 to 3, node A holds
  ranks 0 and 1, node B ranks 2 and 3; the local rank of rank \<open>g\<close> is \<open>g mod 2\<close>, its
  node \<open>g div 2\<close>. \<open>example_env g\<close> is what rank \<open>g\<close> is answered when every call
  succeeds, \<open>example_world g\<close> its context before the bootstrap.
\<close>

definition example_env :: "int \<Rightarrow> env" where
  "example_env g =
     \<lparr>getpid_ret = 100 + g,
      mpi_rank = (\<lambda>c. case c of MPI_COMM_WORLD \<Rightarrow> g | LOCALCOMM \<Rightarrow> g mod 2 | REPCOMM \<Rightarrow> g div 2),
      mpi_size = (\<lambda>c. case c of MPI_COMM_WORLD \<Rightarrow> 4 | LOCALCOMM \<Rightarrow> 2 | REPCOMM \<Rightarrow> 2),
      peer_ldat = (\<lambda>r. \<lparr>ld_pid = 100 + (2 * (g div 2) + r), ld_hgid = 0,
                         ld_grank = 2 * (g div 2) + r, ld_lrank = r\<rparr>),
      peer_rdat = (\<lambda>r. \<lparr>rd_addr = ''tcp://10.0.0.'' @ dec_int (r + 1) @ '':5000'',
                         rd_grank = 2 * r + g mod 2\<rparr>),
      peer_lroot = (\<lambda>r. 2 * (r div 2)),
      barrier_returns = (\<lambda>c. True),
      comm_split_ok = (\<lambda>c. True),
      malloc_ok = (\<lambda>site. True),
      HG_Init_ret = (\<lambda>a. 1),
      HG_Context_create_ret = (\<lambda>cl. 2),
      HG_Addr_self_ret = (\<lambda>ep. (HG_SUCCESS, 10)),
      HG_Addr_lookup_ret = (\<lambda>ep a. HG_SUCCESS),
      lookup_cb_info = (\<lambda>ep a. Some (HG_SUCCESS, 20 + length a)),
      pthread_create_ret = (\<lambda>ep. 0),
      getifaddrs_ret = Some [None, Some (2, 0, ''127.0.0.1''), Some (2, 0, ''10.0.0.1'')],
      socket_ret = (\<lambda>p. 3),
      bind_ret = (\<lambda>p. 0),
      getsockname_ret = (0, 40000)\<rparr>"

definition example_world :: "int \<Rightarrow> world" where
  "example_world g =
     \<lparr>grank = g, gsize = 4, lrank = 0, lsize = 0, lroot = 0, localranks = [], rankreps = [],
      laddrs = [], gaddrs = [], local_hgcl = 0, local_hgctx = 0, remote_hgcl = 0,
      remote_hgctx = 0, calls = []\<rparr>"

text \<open>
  A schedule of the local discovery of node A (members 0 and 1 are global ranks 0 and
  1) and one of the remote discovery of the representatives (members 0 and 1 are global
  ranks 0 and 2): each member resolves its peers, the barrier returns in both, then
  both stop their network thread.
\<close>

definition example_local_schedule :: "(nat \<times> event) list" where
  "example_local_schedule =
     [(0, EvMPI_Comm_rank LOCALCOMM), (1, EvMPI_Comm_rank LOCALCOMM),
      (0, EvMPI_Comm_size LOCALCOMM), (1, EvMPI_Comm_size LOCALCOMM),
      (0, EvHG_Init LOCAL_EP ''na+sm://100/0''), (1, EvHG_Init LOCAL_EP ''na+sm://101/0''),
      (0, EvHG_Context_create LOCAL_EP), (0, Ev_pthread_create LOCAL_EP),
      (1, EvHG_Context_create LOCAL_EP), (1, Ev_pthread_create LOCAL_EP),
      (0, EvMPI_Allgather LOCALCOMM), (1, EvMPI_Allgather LOCALCOMM),
      (1, EvHG_Addr_self LOCAL_EP), (0, EvHG_Addr_self LOCAL_EP),
      (0, Ev_hg_lookup LOCAL_EP ''na+sm://101/0''),
      (0, EvHG_Addr_lookup LOCAL_EP ''na+sm://101/0''),
      (1, Ev_hg_lookup LOCAL_EP ''na+sm://100/0''),
      (1, EvHG_Addr_lookup LOCAL_EP ''na+sm://100/0''),
      (0, EvMPI_Barrier LOCALCOMM), (1, EvMPI_Barrier LOCALCOMM),
      (1, Ev_set_bgdone LOCAL_EP), (0, Ev_set_bgdone LOCAL_EP),
      (0, Ev_pthread_join LOCAL_EP), (1, Ev_pthread_join LOCAL_EP)]"

definition example_remote_schedule :: "(nat \<times> event) list" where
  "example_remote_schedule =
     [(0, EvMPI_Comm_rank REPCOMM), (0, EvMPI_Comm_size REPCOMM),
      (1, EvMPI_Comm_rank REPCOMM), (1, EvMPI_Comm_size REPCOMM),
      (0, EvMPI_Allgather MPI_COMM_WORLD), (1, EvMPI_Allgather MPI_COMM_WORLD),
      (1, EvHG_Init REMOTE_EP ''tcp://10.0.0.2:5000''),
      (0, EvHG_Init REMOTE_EP ''tcp://10.0.0.1:5000''),
      (0, EvHG_Context_create REMOTE_EP), (0, Ev_pthread_create REMOTE_EP),
      (1, EvHG_Context_create REMOTE_EP), (1, Ev_pthread_create REMOTE_EP),
      (0, EvMPI_Allgather REPCOMM), (1, EvMPI_Allgather REPCOMM),
      (0, EvHG_Addr_self REMOTE_EP),
      (0, Ev_hg_lookup REMOTE_EP ''tcp://10.0.0.2:5000''),
      (1, EvHG_Addr_self REMOTE_EP),
      (1, Ev_hg_lookup REMOTE_EP ''tcp://10.0.0.1:5000''),
      (0, EvHG_Addr_lookup REMOTE_EP ''tcp://10.0.0.2:5000''),
      (1, EvHG_Addr_lookup REMOTE_EP ''tcp://10.0.0.1:5000''),
      (1, EvMPI_Barrier REPCOMM), (0, EvMPI_Barrier REPCOMM),
      (0, Ev_set_bgdone REMOTE_EP), (0, Ev_pthread_join REMOTE_EP),
      (1, Ev_set_bgdone REMOTE_EP), (1, Ev_pthread_join REMOTE_EP)]"


text \<open>
  The same topology with unreachable peers: every lookup is posted, and its callback
  reports a transport error. The self-address query still succeeds.
\<close>

definition unreachable_env :: "int \<Rightarrow> env" where
  "unreachable_env g =
     (example_env g)\<lparr>lookup_cb_info := (\<lambda>ep a. Some (HG_OTHER_ERROR 11, HG_ADDR_NULL))\<rparr>"

subsection \<open>Notions of the port check\<close>

text \<open>
  What claim C4 speaks of. A group operation is a collective of MPI: the split of a
  communicator, an all-gather, a barrier (the queries \<^verbatim>\<open>MPI_Comm_rank\<close> and
  \<^verbatim>\<open>MPI_Comm_size\<close> are not counted). A network operation is a call into Mercury or into
  the socket layer (the query of the interfaces is not counted). A run
  \<open>fails_before_any_operation\<close> when it ends in \<^verbatim>\<open>msg_abort\<close>, has made no such call and
  has left the routing tables as they were.
\<close>

fun group_operation :: "event \<Rightarrow> bool" where
  "group_operation (EvMPI_Allgather c) = True"
| "group_operation (EvMPI_Barrier c) = True"
| "group_operation Ev_init_local_comm = True"
| "group_operation Ev_init_rep_comm = True"
| "group_operation e = False"

fun network_operation :: "event \<Rightarrow> bool" where
  "network_operation (EvHG_Init ep a) = True"
| "network_operation (EvHG_Context_create ep) = True"
| "network_operation (EvHG_Addr_self ep) = True"
| "network_operation (EvHG_Addr_lookup ep a) = True"
| "network_operation Ev_socket = True"
| "network_operation Ev_setsockopt = True"
| "network_operation (Ev_bind p) = True"
| "network_operation Ev_getsockname = True"
| "network_operation Ev_close = True"
| "network_operation e = False"

definition fails_before_any_operation :: "world \<Rightarrow> 'a outcome \<times> world \<Rightarrow> bool" where
  "fails_before_any_operation s r =
     ((case fst r of Aborts m \<Rightarrow> True | _ \<Rightarrow> False) \<and>
      \<not> list_ex (\<lambda>e. group_operation e \<or> network_operation e) (made s (snd r)) \<and>
      laddrs (snd r) = laddrs s \<and> gaddrs (snd r) = gaddrs s)"

text \<open>
  What the code does: the check is the one of \<^verbatim>\<open>prepare_addr\<close>, which asks for the
  interfaces first (\<open>ifaddr_query\<close>), and which \<^verbatim>\<open>nexus_bootstrap\<close> calls after the local
  group and the local discovery. \<open>past_port_check\<close> are the calls that come after the
  check: the probing of ports, the group of the representatives, the exchange over the
  world and everything on the remote endpoint.
\<close>

fun ifaddr_query :: "event \<Rightarrow> bool" where
  "ifaddr_query Ev_getifaddrs = True"
| "ifaddr_query Ev_getnameinfo = True"
| "ifaddr_query Ev_freeifaddrs = True"
| "ifaddr_query (Ev_msg_abort m) = True"
| "ifaddr_query e = False"

fun past_port_check :: "event \<Rightarrow> bool" where
  "past_port_check Ev_socket = True"
| "past_port_check Ev_setsockopt = True"
| "past_port_check (Ev_bind p) = True"
| "past_port_check Ev_getsockname = True"
| "past_port_check Ev_close = True"
| "past_port_check Ev_init_rep_comm = True"
| "past_port_check (EvMPI_Comm_rank c) = (c = REPCOMM)"
| "past_port_check (EvMPI_Comm_size c) = (c = REPCOMM)"
| "past_port_check (EvMPI_Allgather c) = (c \<noteq> LOCALCOMM)"
| "past_port_check (EvMPI_Barrier c) = (c = REPCOMM)"
| "past_port_check (EvMPI_Comm_free c) = (c = REPCOMM)"
| "past_port_check (EvHG_Init ep a) = (ep = REMOTE_EP)"
| "past_port_check (EvHG_Context_create ep) = (ep = REMOTE_EP)"
| "past_port_check (EvHG_Addr_self ep) = (ep = REMOTE_EP)"
| "past_port_check (Ev_hg_lookup ep a) = (ep = REMOTE_EP)"
| "past_port_check (EvHG_Addr_lookup ep a) = (ep = REMOTE_EP)"
| "past_port_check (EvHG_Addr_free ep a) = (ep = REMOTE_EP)"
| "past_port_check (EvHG_Context_destroy ep) = (ep = REMOTE_EP)"
| "past_port_check (EvHG_Finalize ep) = (ep = REMOTE_EP)"
| "past_port_check (Ev_pthread_create ep) = (ep = REMOTE_EP)"
| "past_port_check (Ev_set_bgdone ep) = (ep = REMOTE_EP)"
| "past_port_check (Ev_pthread_join ep) = (ep = REMOTE_EP)"
| "past_port_check e = False"

definition bad_ports :: "int \<Rightarrow> int \<Rightarrow> bool" where
  "bad_ports minport maxport \<longleftrightarrow> maxport < minport \<or> minport < 1 \<or> 65535 < maxport"

text \<open>The messages \<^verbatim>\<open>prepare_addr\<close> can abort with up to and including its port check.\<close>

definition port_check_aborts :: "string list" where
  "port_check_aborts = [''getifaddrs failed'', ''getnameinfo failed'', ''no ip addr'',
     ''bad min-max port'', ''bad min port'', ''bad max port'']"


subsection \<open>The processes of a job\<close>

text \<open>
  Claim C2 is about all the processes of a job at once. \<open>local_stage\<close> is
  \<^verbatim>\<open>nexus_bootstrap\<close> up to the end of local discovery; \<open>lroot_sent\<close> is the \<^verbatim>\<open>lroot\<close> a
  process holds then, which is the send buffer of its all-gather over the world (line
  374), and \<open>ldat_sent\<close> the record it sends in the all-gather of its local group (lines
  284 to 287, with \<^verbatim>\<open>grank\<close> and \<^verbatim>\<open>lrank\<close> as \<^verbatim>\<open>nexus_bootstrap\<close> and
  \<^verbatim>\<open>discover_local_info\<close> have set them).
\<close>

definition local_stage :: "env \<Rightarrow> world \<Rightarrow> unit outcome \<times> world" where
  "local_stage env s0 =
     (let s1 = call (EvMPI_Comm_rank MPI_COMM_WORLD) (s0\<lparr>grank := mpi_rank env MPI_COMM_WORLD\<rparr>);
          s2 = call (EvMPI_Comm_size MPI_COMM_WORLD) (s1\<lparr>gsize := mpi_size env MPI_COMM_WORLD\<rparr>)
      in and_then (init_local_comm env s2) (\<lambda>_ s3. discover_local_info env s3))"

definition lroot_sent :: "env \<Rightarrow> world \<Rightarrow> int" where
  "lroot_sent env s0 = lroot (snd (local_stage env s0))"

definition ldat_sent :: "env \<Rightarrow> ldata_t" where
  "ldat_sent env =
     \<lparr>ld_pid = getpid_ret env, ld_hgid = 0, ld_grank = mpi_rank env MPI_COMM_WORLD,
      ld_lrank = mpi_rank env LOCALCOMM\<rparr>"

text \<open>
  A job of \<open>N\<close> processes: \<open>envs g\<close> answers the process of global rank \<open>g\<close>, \<open>ws g\<close> is its
  context before the bootstrap, and \<open>mem g r\<close> is the global rank of the member of local
  rank \<open>r\<close> of the node of \<open>g\<close>. The answers are \<open>mpi_consistent\<close> when they are those of one
  run of MPI: the ranks of the world are \<open>0\<close> to \<open>N - 1\<close>; the members of a local group
  agree on its size and its members, each holding the local rank it is listed under;
  and the block an all-gather delivers from a peer is what that peer sent.
\<close>

definition ranks :: "int \<Rightarrow> int list" where
  "ranks n = map int [0..<nat n]"

definition mpi_consistent ::
  "int \<Rightarrow> (int \<Rightarrow> env) \<Rightarrow> (int \<Rightarrow> world) \<Rightarrow> (int \<Rightarrow> int \<Rightarrow> int) \<Rightarrow> bool"
where
  "mpi_consistent N envs ws mem \<longleftrightarrow>
     list_all (\<lambda>g.
        mpi_rank (envs g) MPI_COMM_WORLD = g \<and> mpi_size (envs g) MPI_COMM_WORLD = N \<and>
        0 \<le> mpi_rank (envs g) LOCALCOMM \<and>
        mpi_rank (envs g) LOCALCOMM < mpi_size (envs g) LOCALCOMM \<and>
        mem g (mpi_rank (envs g) LOCALCOMM) = g \<and>
        list_all (\<lambda>r.
           0 \<le> mem g r \<and> mem g r < N \<and>
           mpi_rank (envs (mem g r)) LOCALCOMM = r \<and>
           mpi_size (envs (mem g r)) LOCALCOMM = mpi_size (envs g) LOCALCOMM \<and>
           list_all (\<lambda>r'. mem (mem g r) r' = mem g r') (ranks (mpi_size (envs g) LOCALCOMM)) \<and>
           (r \<noteq> mpi_rank (envs g) LOCALCOMM \<longrightarrow>
              peer_ldat (envs g) r = ldat_sent (envs (mem g r))))
          (ranks (mpi_size (envs g) LOCALCOMM)) \<and>
        list_all (\<lambda>h. h \<noteq> g \<longrightarrow> peer_lroot (envs g) h = lroot_sent (envs h) (ws h)) (ranks N))
      (ranks N)"

text \<open>The context a process is left with by \<^verbatim>\<open>nexus_bootstrap\<close>.\<close>

definition bootstrapped ::
  "(int \<Rightarrow> env) \<Rightarrow> (int \<Rightarrow> world) \<Rightarrow> int \<Rightarrow> int \<Rightarrow> string \<Rightarrow> string \<Rightarrow> int \<Rightarrow> world"
where
  "bootstrapped envs ws minport maxport subnet proto g =
     snd (nexus_bootstrap (envs g) minport maxport subnet proto (ws g))"

subsection \<open>Visits within defined behaviour\<close>

text \<open>
  A visit of the loop of \<^verbatim>\<open>discover_local_info\<close> stays within what C defines when
  \<^verbatim>\<open>lrank + i\<close> does not overflow, the group is not empty, \<^verbatim>\<open>eff_i\<close> indexes
  \<^verbatim>\<open>hginfo\<close> and the local rank of the visited record indexes \<^verbatim>\<open>localranks\<close>; a visit of
  the loop of \<^verbatim>\<open>discover_remote_info\<close> likewise, without the last condition.
\<close>

definition local_visit_defined :: "world \<Rightarrow> ldata_t list \<Rightarrow> int \<Rightarrow> bool" where
  "local_visit_defined s hginfo i \<longleftrightarrow>
     in_int (lrank s + i) \<and> lsize s \<noteq> 0 \<and>
     0 \<le> (lrank s + i) smod lsize s \<and> (lrank s + i) smod lsize s < int (length hginfo) \<and>
     0 \<le> ld_lrank (local_peer s hginfo i) \<and>
     ld_lrank (local_peer s hginfo i) < int (length (localranks s))"

definition remote_visit_defined :: "int \<Rightarrow> int \<Rightarrow> rdata_t list \<Rightarrow> int \<Rightarrow> bool" where
  "remote_visit_defined rep_rank rep_size hginfo i \<longleftrightarrow>
     in_int (rep_rank + i) \<and> rep_size \<noteq> 0 \<and>
     0 \<le> (rep_rank + i) smod rep_size \<and> (rep_rank + i) smod rep_size < int (length hginfo)"

text \<open>
  What makes every visit of a discovery defined, in terms of what MPI answers: the
  caller's rank lies within its group, rank plus size is an \<^verbatim>\<open>int\<close>, and (local
  discovery) every gathered record carries a local rank of the group; (remote
  discovery) the buffer \<^verbatim>\<open>rankreps\<close> of \<^verbatim>\<open>gsize\<close> cells holds the blocks of the world.
\<close>

definition local_discovery_defined :: "env \<Rightarrow> world \<Rightarrow> bool" where
  "local_discovery_defined env s \<longleftrightarrow>
     0 \<le> mpi_rank env LOCALCOMM \<and> mpi_rank env LOCALCOMM < mpi_size env LOCALCOMM \<and>
     in_int (mpi_rank env LOCALCOMM + mpi_size env LOCALCOMM) \<and>
     list_all (\<lambda>h. 0 \<le> ld_lrank h \<and> ld_lrank h < mpi_size env LOCALCOMM) (local_hginfo env s)"

definition remote_discovery_defined :: "env \<Rightarrow> world \<Rightarrow> bool" where
  "remote_discovery_defined env s \<longleftrightarrow>
     0 \<le> mpi_rank env REPCOMM \<and> mpi_rank env REPCOMM < mpi_size env REPCOMM \<and>
     in_int (mpi_rank env REPCOMM + mpi_size env REPCOMM) \<and>
     nat (mpi_size env MPI_COMM_WORLD) \<le> nat (gsize s)"

text \<open>
  The steps before the loop return (the endpoint is up, the buffers are allocated):
  from there on the only way for a discovery to abort is a failed resolution.
\<close>

definition local_setup_returns :: "env \<Rightarrow> world \<Rightarrow> bool" where
  "local_setup_returns env s =
     (case local_endpoint_up env s of
        (Returns u, s1) \<Rightarrow> (case fst (local_exchange env s1) of Returns h \<Rightarrow> True | _ \<Rightarrow> False)
      | _ \<Rightarrow> False)"

definition remote_setup_returns :: "env \<Rightarrow> string \<Rightarrow> world \<Rightarrow> bool" where
  "remote_setup_returns env hgaddr s =
     (case remote_rankreps env s of
        (Returns rep, s1) \<Rightarrow>
          (case remote_endpoint_up env hgaddr s1 of
             (Returns u, s2) \<Rightarrow>
               (case fst (remote_exchange env hgaddr s2) of Returns h \<Rightarrow> True | _ \<Rightarrow> False)
           | _ \<Rightarrow> False)
      | _ \<Rightarrow> False)"
subsection \<open>Properties of the network support thread\<close>

lemma completed_work_pair: "completed_work (h, c) = (h = HG_SUCCESS \<and> c \<noteq> 0)"
  by (simp add: completed_work_def)

lemma trigger_events_Nil: "trigger_events [] = []"
  by (simp add: trigger_events_def)

lemma trigger_events_Cons:
  "trigger_events ((h, c) # ts) = BgTrigger 0 1 h c # trigger_events ts"
  by (simp add: trigger_events_def)

lemma bg_drain_None:
  "bg_drain ts = (None, evs, rest) \<Longrightarrow>
     list_all completed_work ts \<and> evs = trigger_events ts"
proof (induction ts arbitrary: evs rest)
  case Nil
  then show ?case by (simp add: trigger_events_Nil)
next
  case (Cons t ts)
  obtain h c where t: "t = (h, c)" by (cases t)
  show ?case
  proof (cases "h = HG_SUCCESS \<and> c \<noteq> 0")
    case True
    obtain r evs' rest' where d: "bg_drain ts = (r, evs', rest')"
      by (cases "bg_drain ts")
    with Cons.prems t True have "r = None" and e: "evs = BgTrigger 0 1 h c # evs'"
      by auto
    with d Cons.IH have "list_all completed_work ts \<and> evs' = trigger_events ts"
      by blast
    with t True e show ?thesis
      by (simp add: completed_work_pair trigger_events_Cons)
  next
    case False
    with Cons.prems t show ?thesis by auto
  qed
qed

lemma bg_drain_Some:
  "bg_drain ts = (Some h, evs, rest) \<Longrightarrow>
     \<exists>busy c. ts = busy @ (h, c) # rest \<and> list_all completed_work busy \<and>
       \<not> completed_work (h, c) \<and> evs = trigger_events busy @ trigger_events [(h, c)]"
proof (induction ts arbitrary: evs rest)
  case Nil
  then show ?case by simp
next
  case (Cons t ts)
  obtain h' c' where t: "t = (h', c')" by (cases t)
  show ?case
  proof (cases "h' = HG_SUCCESS \<and> c' \<noteq> 0")
    case True
    obtain r evs' rest' where d: "bg_drain ts = (r, evs', rest')"
      by (cases "bg_drain ts")
    with Cons.prems t True
    have r: "r = Some h" and e: "evs = BgTrigger 0 1 h' c' # evs'" and "rest' = rest"
      by auto
    with d Cons.IH obtain busy c where
      b: "ts = busy @ (h, c) # rest" "list_all completed_work busy"
         "\<not> completed_work (h, c)" "evs' = trigger_events busy @ trigger_events [(h, c)]"
      by blast
    from b t True e
    have "t # ts = (t # busy) @ (h, c) # rest \<and> list_all completed_work (t # busy) \<and>
          \<not> completed_work (h, c) \<and>
          evs = trigger_events (t # busy) @ trigger_events [(h, c)]"
      by (simp add: completed_work_pair trigger_events_Cons)
    then show ?thesis by blast
  next
    case False
    with Cons.prems t
    have "t # ts = [] @ (h, c') # rest \<and> list_all completed_work [] \<and>
          \<not> completed_work (h, c') \<and> evs = trigger_events [] @ trigger_events [(h, c')]"
      by (auto simp: completed_work_pair trigger_events_Cons trigger_events_Nil)
    then show ?thesis by blast
  qed
qed

lemma bg_drain_busy:
  "list_all completed_work busy \<Longrightarrow> bg_drain busy = (None, trigger_events busy, [])"
proof (induction busy)
  case Nil
  show ?case by (simp add: trigger_events_Nil)
next
  case (Cons t busy)
  obtain h c where t: "t = (h, c)" by (cases t)
  with Cons show ?case
    by (simp add: completed_work_pair trigger_events_Cons)
qed

lemma bg_drain_last:
  "list_all completed_work busy \<Longrightarrow> \<not> completed_work t \<Longrightarrow>
     bg_drain (busy @ t # ts) = (Some (fst t), trigger_events busy @ trigger_events [t], ts)"
proof (induction busy)
  case Nil
  obtain h c where t: "t = (h, c)" by (cases t)
  with Nil show ?case
    by (auto simp: completed_work_pair trigger_events_Cons trigger_events_Nil)
next
  case (Cons b busy)
  obtain h c where b: "b = (h, c)" by (cases b)
  with Cons show ?case
    by (simp add: completed_work_pair trigger_events_Cons)
qed

lemma failed_trigger_no_work: "\<not> hg_benign (fst t) \<Longrightarrow> \<not> completed_work t"
  by (auto simp: hg_benign_def completed_work_def)

lemma bg_loop_sound:
  "bg_loop fs ts ps evs out \<Longrightarrow> nexus_bgthread fs ts ps = (out, evs)"
proof (induction rule: bg_loop.induct)
  case (bg_stop bgdone fs ts ps)
  then show ?case by simp
next
  case (bg_iteration busy t p fs ts ps evs out)
  then show ?case
    by (auto simp: bg_drain_last hg_benign_def)
next
  case (bg_trigger_failed busy t fs ts ps)
  then show ?case
    by (auto simp: bg_drain_last failed_trigger_no_work hg_benign_def)
next
  case (bg_progress_failed busy t p fs ts ps)
  then show ?case
    by (auto simp: bg_drain_last hg_benign_def)
next
  case (bg_awaits_flag ts ps)
  show ?case by simp
next
  case (bg_awaits_trigger busy fs ps)
  then show ?case by (simp add: bg_drain_busy)
next
  case (bg_awaits_progress busy t fs ts)
  then show ?case
    by (auto simp: bg_drain_last hg_benign_def)
qed

lemma bg_loop_complete:
  "bg_loop fs ts ps (snd (nexus_bgthread fs ts ps)) (fst (nexus_bgthread fs ts ps))"
proof (induction fs arbitrary: ts ps)
  case Nil
  show ?case by (simp add: bg_awaits_flag)
next
  case (Cons bgdone fs)
  show ?case
  proof (cases "bgdone \<noteq> 0")
    case True
    then show ?thesis by (simp add: bg_stop)
  next
    case False
    then have z: "bgdone = 0" by simp
    obtain r evs rest where d: "bg_drain ts = (r, evs, rest)"
      by (cases "bg_drain ts")
    show ?thesis
    proof (cases r)
      case None
      with d bg_drain_None have "list_all completed_work ts" "evs = trigger_events ts"
        by blast+
      with d None z show ?thesis by (simp add: bg_awaits_trigger)
    next
      case (Some h)
      with d bg_drain_Some obtain busy c where
        b: "ts = busy @ (h, c) # rest" "list_all completed_work busy"
           "\<not> completed_work (h, c)"
           "evs = trigger_events busy @ trigger_events [(h, c)]"
        by blast
      show ?thesis
      proof (cases "hg_benign h")
        case False
        with b(2) have "bg_loop (0 # fs) (busy @ (h, c) # rest) ps
            (BgReadDone 0 # trigger_events busy @ trigger_events [(h, c)] @
              [BgAbort ''nexus_bgthread: HG_Trigger failed''])
            (BgAborted ''nexus_bgthread: HG_Trigger failed'')"
          by (intro bg_trigger_failed) simp_all
        with d Some z b(1,4) False show ?thesis
          by (simp add: hg_benign_def)
      next
        case hb: True
        show ?thesis
        proof (cases ps)
          case Nil
          from b(2,3) hb
          have "bg_loop (0 # fs) (busy @ (h, c) # rest) []
              (BgReadDone 0 # trigger_events busy @ trigger_events [(h, c)]) BgRunning"
            by (intro bg_awaits_progress) simp_all
          with d Some z b(1,4) hb Nil show ?thesis
            by (auto simp: hg_benign_def)
        next
          case (Cons p ps')
          show ?thesis
          proof (cases "hg_benign p")
            case False
            with b(2,3) hb
            have "bg_loop (0 # fs) (busy @ (h, c) # rest) (p # ps')
              (BgReadDone 0 # trigger_events busy @ trigger_events [(h, c)] @
                [BgProgress 100 p, BgAbort ''nexus_bgthread: HG_Progress failed''])
              (BgAborted ''nexus_bgthread: HG_Progress failed'')"
              by (intro bg_progress_failed) simp_all
            with d Some z b(1,4) hb Cons False show ?thesis
              by (auto simp: hg_benign_def)
          next
            case True
            obtain out evs' where n: "nexus_bgthread fs rest ps' = (out, evs')"
              by (cases "nexus_bgthread fs rest ps'")
            from Cons.IH [of rest ps'] n have "bg_loop fs rest ps' evs' out" by simp
            with b(2,3) hb True
            have "bg_loop (0 # fs) (busy @ (h, c) # rest) (p # ps')
                    (BgReadDone 0 # trigger_events busy @ trigger_events [(h, c)] @
                     [BgProgress 100 p] @ evs') out"
              by (intro bg_iteration) simp_all
            with d Some z b(1,4) hb Cons True n show ?thesis
              by (auto simp: hg_benign_def)
          qed
        qed
      qed
    qed
  qed
qed

subsection \<open>Sequencing\<close>

lemma and_then_Returns:
  "and_then r f = (Returns y, s') \<longleftrightarrow> (\<exists>x s1. r = (Returns x, s1) \<and> f x s1 = (Returns y, s'))"
  by (cases r; cases "fst r") (auto simp: and_then_def)

lemma and_then_simps:
  "and_then (Returns x, s) f = f x s"
  "and_then (Aborts m, s) f = (Aborts m, s)"
  "and_then (Blocks, s) f = (Blocks, s)"
  "and_then (Undefined, s) f = (Undefined, s)"
  by (simp_all add: and_then_def)

lemma msg_abort_not_Returns: "msg_abort m s \<noteq> (Returns x, s')"
  by (simp add: msg_abort_def)

subsection \<open>One resolution\<close>

lemma made_self: "made s s = []"
  by (simp add: made_def)

lemma made_append: "calls s' = calls s @ evs \<Longrightarrow> made s s' = evs"
  by (simp add: made_def)

lemma hg_lookup_state:
  "hg_lookup env ep a s = (out, s') \<Longrightarrow> s' = s\<lparr>calls := calls s'\<rparr>"
  by (auto simp: hg_lookup_def Let_def call_def split: if_splits option.splits)

lemma hg_lookup_calls:
  "hg_lookup env ep a s = (out, s') \<Longrightarrow>
     calls s' = calls s @ [Ev_hg_lookup ep a] \<or>
     calls s' = calls s @ [Ev_hg_lookup ep a, EvHG_Addr_lookup ep a]"
  by (auto simp: hg_lookup_def Let_def call_def split: if_splits option.splits)

lemma hg_lookup_world:
  "hg_lookup env ep a s = (out, s') \<Longrightarrow>
     \<exists>evs. s' = s\<lparr>calls := calls s @ evs\<rparr> \<and>
       filter (resolution ep) evs = [Ev_hg_lookup ep a] \<and>
       set evs \<subseteq> {Ev_hg_lookup ep a, EvHG_Addr_lookup ep a}"
proof -
  assume run: "hg_lookup env ep a s = (out, s')"
  from hg_lookup_state [OF run] hg_lookup_calls [OF run]
  have "s' = s\<lparr>calls := calls s @ [Ev_hg_lookup ep a]\<rparr> \<or>
        s' = s\<lparr>calls := calls s @ [Ev_hg_lookup ep a, EvHG_Addr_lookup ep a]\<rparr>"
    by auto
  then show ?thesis
  proof
    assume "s' = s\<lparr>calls := calls s @ [Ev_hg_lookup ep a]\<rparr>"
    then have "s' = s\<lparr>calls := calls s @ [Ev_hg_lookup ep a]\<rparr> \<and>
       filter (resolution ep) [Ev_hg_lookup ep a] = [Ev_hg_lookup ep a] \<and>
       set [Ev_hg_lookup ep a] \<subseteq> {Ev_hg_lookup ep a, EvHG_Addr_lookup ep a}"
      by simp
    then show ?thesis by blast
  next
    assume "s' = s\<lparr>calls := calls s @ [Ev_hg_lookup ep a, EvHG_Addr_lookup ep a]\<rparr>"
    then have "s' = s\<lparr>calls := calls s @ [Ev_hg_lookup ep a, EvHG_Addr_lookup ep a]\<rparr> \<and>
       filter (resolution ep) [Ev_hg_lookup ep a, EvHG_Addr_lookup ep a] = [Ev_hg_lookup ep a] \<and>
       set [Ev_hg_lookup ep a, EvHG_Addr_lookup ep a] \<subseteq> {Ev_hg_lookup ep a, EvHG_Addr_lookup ep a}"
      by simp
    then show ?thesis by blast
  qed
qed

lemma hg_lookup_outcome:
  "hg_lookup env ep a s = (out, s') \<Longrightarrow> out = Blocks \<or> (\<exists>r. out = Returns r)"
  by (auto simp: hg_lookup_def Let_def split: if_splits option.splits)

lemma hg_lookup_success:
  "hg_lookup env ep a s = (Returns r, s') \<Longrightarrow> fst r = HG_SUCCESS \<Longrightarrow>
     snd r = looked_up env ep a \<and> snd r \<noteq> None"
  by (auto simp: hg_lookup_def Let_def looked_up_def hg_lookup_cb_def split: if_splits option.splits)

lemma hg_lookup_failure:
  "hg_lookup env ep a s = (Returns r, s') \<Longrightarrow> fst r \<noteq> HG_SUCCESS \<Longrightarrow>
     looked_up env ep a = None"
  by (auto simp: hg_lookup_def Let_def looked_up_def hg_lookup_cb_def split: if_splits option.splits)

lemma HG_Addr_self_result:
  "HG_Addr_self env ep s = (out, s') \<Longrightarrow>
     s' = s\<lparr>calls := calls s @ [EvHG_Addr_self ep]\<rparr> \<and>
     (\<exists>h. out = Returns (h, self_address env ep) \<and> (h = HG_SUCCESS \<longleftrightarrow> self_address env ep \<noteq> None))"
  by (auto simp: HG_Addr_self_def Let_def call_def self_address_def)


lemma local_visit_Returns:
  assumes run: "local_visit env hginfo i s = (Returns (), s')"
  shows "in_int (lrank s + i) \<and> lsize s \<noteq> 0 \<and> 0 \<le> (lrank s + i) smod lsize s \<and>
         (lrank s + i) smod lsize s < int (length hginfo) \<and>
         (\<exists>a evs.
            s' = s\<lparr>lroot := (if ld_lrank (hginfo ! nat ((lrank s + i) smod lsize s)) = 0
                              then ld_grank (hginfo ! nat ((lrank s + i) smod lsize s)) else lroot s),
                    localranks := (localranks s)
                      [nat (ld_lrank (hginfo ! nat ((lrank s + i) smod lsize s))) :=
                         ld_grank (hginfo ! nat ((lrank s + i) smod lsize s))],
                    laddrs := map_set (ld_grank (hginfo ! nat ((lrank s + i) smod lsize s))) a (laddrs s),
                    calls := calls s @ evs\<rparr> \<and>
            (if ld_grank (hginfo ! nat ((lrank s + i) smod lsize s)) = grank s
             then evs = [EvHG_Addr_self LOCAL_EP] \<and> self_address env LOCAL_EP = Some a
             else filter (resolution LOCAL_EP) evs =
                    [Ev_hg_lookup LOCAL_EP
                       (na_sm_addr (ld_pid (hginfo ! nat ((lrank s + i) smod lsize s)))
                                   (ld_hgid (hginfo ! nat ((lrank s + i) smod lsize s))))] \<and>
                  looked_up env LOCAL_EP
                       (na_sm_addr (ld_pid (hginfo ! nat ((lrank s + i) smod lsize s)))
                                   (ld_hgid (hginfo ! nat ((lrank s + i) smod lsize s)))) = Some a))"
proof -
  define e where "e = (lrank s + i) smod lsize s"
  define h where "h = hginfo ! nat e"
  define s1 where "s1 = (if ld_lrank h = 0 then s\<lparr>lroot := ld_grank h\<rparr> else s)"
  define s2 where "s2 = s1\<lparr>localranks := (localranks s1)[nat (ld_lrank h) := ld_grank h]\<rparr>"
  define hgaddr where "hgaddr = na_sm_addr (ld_pid h) (ld_hgid h)"
  from run have g1: "in_int (lrank s + i)" "lsize s \<noteq> 0"
    by (auto simp: local_visit_def split: if_splits)
  with run have g2: "0 \<le> e" "e < int (length hginfo)"
    by (auto simp: local_visit_def Let_def e_def split: if_splits)
  with run g1 have g3: "\<not> (ld_lrank h < 0 \<or> int (length (localranks s1)) \<le> ld_lrank h)"
    by (auto simp: local_visit_def Let_def e_def h_def s1_def split: if_splits)
  with run g1 g2 have
    "and_then (if ld_grank h = grank s2 then HG_Addr_self env LOCAL_EP s2
               else hg_lookup env LOCAL_EP hgaddr s2)
       (\<lambda>r s3. if fst r \<noteq> HG_SUCCESS then msg_abort ''hg_lookup failed'' s3
                else (case snd r of None \<Rightarrow> (Undefined, s3)
                      | Some localaddr \<Rightarrow>
                         (Returns (), s3\<lparr>laddrs := map_set (ld_grank h) localaddr (laddrs s3)\<rparr>)))
     = (Returns (), s')"
    unfolding local_visit_def Let_def e_def [symmetric] h_def [symmetric]
      s1_def [symmetric] s2_def [symmetric] hgaddr_def [symmetric]
    by simp
  then obtain r s3 where
    res: "(if ld_grank h = grank s2 then HG_Addr_self env LOCAL_EP s2
           else hg_lookup env LOCAL_EP hgaddr s2) = (Returns r, s3)"
    and fin: "(if fst r \<noteq> HG_SUCCESS then msg_abort ''hg_lookup failed'' s3
               else (case snd r of None \<Rightarrow> (Undefined, s3)
                     | Some localaddr \<Rightarrow>
                        (Returns (), s3\<lparr>laddrs := map_set (ld_grank h) localaddr (laddrs s3)\<rparr>)))
              = (Returns (), s')"
    unfolding and_then_Returns by blast
  from fin obtain a where ok: "fst r = HG_SUCCESS" and a: "snd r = Some a"
    and s': "s' = s3\<lparr>laddrs := map_set (ld_grank h) a (laddrs s3)\<rparr>"
    by (auto simp: msg_abort_def split: if_splits option.splits)
  have gr: "grank s2 = grank s" by (simp add: s2_def s1_def)
  have "\<exists>evs. s3 = s2\<lparr>calls := calls s2 @ evs\<rparr> \<and>
          (if ld_grank h = grank s
           then evs = [EvHG_Addr_self LOCAL_EP] \<and> self_address env LOCAL_EP = Some a
           else filter (resolution LOCAL_EP) evs = [Ev_hg_lookup LOCAL_EP hgaddr] \<and>
                looked_up env LOCAL_EP hgaddr = Some a)"
  proof (cases "ld_grank h = grank s")
    case True
    with res gr have "HG_Addr_self env LOCAL_EP s2 = (Returns r, s3)" by simp
    from HG_Addr_self_result [OF this] a True show ?thesis by auto
  next
    case False
    with res gr have l: "hg_lookup env LOCAL_EP hgaddr s2 = (Returns r, s3)" by simp
    from hg_lookup_success [OF l ok] a have "looked_up env LOCAL_EP hgaddr = Some a" by simp
    moreover from hg_lookup_world [OF l]
    have "\<exists>evs. s3 = s2\<lparr>calls := calls s2 @ evs\<rparr> \<and>
            filter (resolution LOCAL_EP) evs = [Ev_hg_lookup LOCAL_EP hgaddr]"
      by blast
    ultimately show ?thesis using False by auto
  qed
  then obtain evs where s3: "s3 = s2\<lparr>calls := calls s2 @ evs\<rparr>"
    and evs: "(if ld_grank h = grank s
           then evs = [EvHG_Addr_self LOCAL_EP] \<and> self_address env LOCAL_EP = Some a
           else filter (resolution LOCAL_EP) evs = [Ev_hg_lookup LOCAL_EP hgaddr] \<and>
                looked_up env LOCAL_EP hgaddr = Some a)"
    by blast
  have "s' = s\<lparr>lroot := (if ld_lrank h = 0 then ld_grank h else lroot s),
                localranks := (localranks s)[nat (ld_lrank h) := ld_grank h],
                laddrs := map_set (ld_grank h) a (laddrs s),
                calls := calls s @ evs\<rparr>"
    by (simp add: s' s3 s2_def s1_def)
  with evs g1 g2 show ?thesis
    unfolding e_def h_def hgaddr_def by blast
qed

subsection \<open>The loop of local discovery\<close>

lemma local_visit_frame:
  "local_visit env hginfo i s = (Returns (), s') \<Longrightarrow>
     lrank s' = lrank s \<and> lsize s' = lsize s \<and> grank s' = grank s \<and> gsize s' = gsize s \<and>
     gaddrs s' = gaddrs s \<and> rankreps s' = rankreps s"
  by (drule local_visit_Returns) auto

lemma local_visit_index:
  "local_visit env hginfo i s = (Returns (), s') \<Longrightarrow>
     0 \<le> (lrank s + i) smod lsize s \<and> (lrank s + i) smod lsize s < int (length hginfo) \<and>
     in_int (lrank s + i) \<and> lsize s \<noteq> 0"
  by (drule local_visit_Returns) simp

lemma local_visit_calls:
  "local_visit env hginfo i s = (Returns (), s') \<Longrightarrow>
     \<exists>evs. calls s' = calls s @ evs \<and>
       filter (resolution LOCAL_EP) evs = [local_peer_call (grank s) (local_peer s hginfo i)]"
  by (drule local_visit_Returns) (auto simp: local_peer_call_def local_peer_def split: if_splits)

lemma local_visit_laddrs:
  "local_visit env hginfo i s = (Returns (), s') \<Longrightarrow>
     \<exists>a. local_peer_addr env (grank s) (local_peer s hginfo i) = Some a \<and>
       laddrs s' = map_set (ld_grank (local_peer s hginfo i)) a (laddrs s)"
  by (drule local_visit_Returns) (auto simp: local_peer_addr_def local_peer_def split: if_splits)

lemma local_visit_lroot:
  "local_visit env hginfo i s = (Returns (), s') \<Longrightarrow>
     lroot s' = (if ld_lrank (local_peer s hginfo i) = 0 then ld_grank (local_peer s hginfo i)
                 else lroot s)"
  by (drule local_visit_Returns) (auto simp: local_peer_def)

lemma local_peer_cong:
  "lrank s' = lrank s \<Longrightarrow> lsize s' = lsize s \<Longrightarrow> local_peer s' hginfo i = local_peer s hginfo i"
  by (simp add: local_peer_def)

lemma map_of_map_set: "map_of (map_set k v m) = (map_of m)(k \<mapsto> v)"
  by (induction m) (auto simp: fun_upd_twist)

lemma local_loop_Cons_Returns:
  "local_loop env hginfo (i # is) s = (Returns (), s') \<longleftrightarrow>
     (\<exists>s1. local_visit env hginfo i s = (Returns (), s1) \<and>
           local_loop env hginfo is s1 = (Returns (), s'))"
  by (simp add: and_then_Returns)

lemma local_loop_frame:
  "local_loop env hginfo is s = (Returns (), s') \<Longrightarrow>
     lrank s' = lrank s \<and> lsize s' = lsize s \<and> grank s' = grank s \<and> gsize s' = gsize s \<and>
     gaddrs s' = gaddrs s \<and> rankreps s' = rankreps s"
proof (induction "is" arbitrary: s)
  case Nil
  then show ?case by simp
next
  case (Cons i "is")
  from Cons.prems obtain s1 where
    v: "local_visit env hginfo i s = (Returns (), s1)" and
    l: "local_loop env hginfo is s1 = (Returns (), s')"
    unfolding local_loop_Cons_Returns by blast
  from local_visit_frame [OF v] Cons.IH [OF l] show ?case by simp
qed

lemma local_loop_calls:
  "local_loop env hginfo is s = (Returns (), s') \<Longrightarrow>
     \<exists>evs. calls s' = calls s @ evs \<and>
       filter (resolution LOCAL_EP) evs =
         map (\<lambda>i. local_peer_call (grank s) (local_peer s hginfo i)) is"
proof (induction "is" arbitrary: s)
  case Nil
  then show ?case by simp
next
  case (Cons i "is")
  from Cons.prems obtain s1 where
    v: "local_visit env hginfo i s = (Returns (), s1)" and
    l: "local_loop env hginfo is s1 = (Returns (), s')"
    unfolding local_loop_Cons_Returns by blast
  from local_visit_frame [OF v]
  have f: "grank s1 = grank s" "\<And>k. local_peer s1 hginfo k = local_peer s hginfo k"
    by (simp_all add: local_peer_def)
  from local_visit_calls [OF v] obtain evs1 where
    e1: "calls s1 = calls s @ evs1"
        "filter (resolution LOCAL_EP) evs1 = [local_peer_call (grank s) (local_peer s hginfo i)]"
    by blast
  from Cons.IH [OF l] f obtain evs2 where
    e2: "calls s' = calls s1 @ evs2"
        "filter (resolution LOCAL_EP) evs2 =
           map (\<lambda>i. local_peer_call (grank s) (local_peer s hginfo i)) is"
    by auto
  from e1 e2 have "calls s' = calls s @ (evs1 @ evs2) \<and>
       filter (resolution LOCAL_EP) (evs1 @ evs2) =
         map (\<lambda>i. local_peer_call (grank s) (local_peer s hginfo i)) (i # is)"
    by simp
  then show ?case by blast
qed

lemma local_loop_resolved:
  "local_loop env hginfo is s = (Returns (), s') \<Longrightarrow> i \<in> set is \<Longrightarrow>
     (\<exists>a. local_peer_addr env (grank s) (local_peer s hginfo i) = Some a) \<and>
     ld_grank (local_peer s hginfo i) \<in> dom (map_of (laddrs s')) \<and>
     0 \<le> (lrank s + i) smod lsize s \<and> (lrank s + i) smod lsize s < int (length hginfo)"
proof (induction "is" arbitrary: s)
  case Nil
  then show ?case by simp
next
  case (Cons i' "is")
  from Cons.prems(1) obtain s1 where
    v: "local_visit env hginfo i' s = (Returns (), s1)" and
    l: "local_loop env hginfo is s1 = (Returns (), s')"
    unfolding local_loop_Cons_Returns by blast
  from local_visit_frame [OF v]
  have f: "grank s1 = grank s" "lrank s1 = lrank s" "lsize s1 = lsize s"
    "\<And>k. local_peer s1 hginfo k = local_peer s hginfo k"
    by (simp_all add: local_peer_def)
  have keep: "k \<in> dom (map_of (laddrs s1)) \<Longrightarrow> k \<in> dom (map_of (laddrs s'))" for k
    using l
  proof (induction "is" arbitrary: s1)
    case Nil
    then show ?case by simp
  next
    case (Cons j js)
    from Cons.prems(2) obtain s2 where
      v2: "local_visit env hginfo j s1 = (Returns (), s2)" and
      l2: "local_loop env hginfo js s2 = (Returns (), s')"
      unfolding local_loop_Cons_Returns by blast
    from local_visit_laddrs [OF v2] Cons.prems(1) have "k \<in> dom (map_of (laddrs s2))"
      by (auto simp: map_of_map_set)
    with Cons.IH l2 show ?case by blast
  qed
  show ?case
  proof (cases "i \<in> set is")
    case True
    from Cons.IH [OF l True] f show ?thesis by simp
  next
    case False
    with Cons.prems(2) have i: "i = i'" by simp
    from local_visit_laddrs [OF v] obtain a where
      a: "local_peer_addr env (grank s) (local_peer s hginfo i') = Some a"
         "laddrs s1 = map_set (ld_grank (local_peer s hginfo i')) a (laddrs s)"
      by blast
    then have "ld_grank (local_peer s hginfo i') \<in> dom (map_of (laddrs s1))"
      by (simp add: map_of_map_set)
    with keep have "ld_grank (local_peer s hginfo i') \<in> dom (map_of (laddrs s'))" .
    with a i local_visit_index [OF v] show ?thesis by simp
  qed
qed

lemma local_loop_laddrs_other:
  "local_loop env hginfo is s = (Returns (), s') \<Longrightarrow>
     k \<notin> (\<lambda>i. ld_grank (local_peer s hginfo i)) ` set is \<Longrightarrow>
     map_of (laddrs s') k = map_of (laddrs s) k"
proof (induction "is" arbitrary: s)
  case Nil
  then show ?case by simp
next
  case (Cons i "is")
  from Cons.prems(1) obtain s1 where
    v: "local_visit env hginfo i s = (Returns (), s1)" and
    l: "local_loop env hginfo is s1 = (Returns (), s')"
    unfolding local_loop_Cons_Returns by blast
  from local_visit_frame [OF v]
  have f: "\<And>j. local_peer s1 hginfo j = local_peer s hginfo j"
    by (simp add: local_peer_def)
  from Cons.prems(2) f have "k \<notin> (\<lambda>i. ld_grank (local_peer s1 hginfo i)) ` set is"
    by simp
  from Cons.IH [OF l this] have "map_of (laddrs s') k = map_of (laddrs s1) k" .
  moreover from local_visit_laddrs [OF v] Cons.prems(2)
  have "map_of (laddrs s1) k = map_of (laddrs s) k"
    by (auto simp: map_of_map_set)
  ultimately show ?case by simp
qed

lemma local_loop_laddrs_exact:
  "local_loop env hginfo is s = (Returns (), s') \<Longrightarrow> distinct is \<Longrightarrow>
     inj_on (\<lambda>i. ld_grank (local_peer s hginfo i)) (set is) \<Longrightarrow> i \<in> set is \<Longrightarrow>
     map_of (laddrs s') (ld_grank (local_peer s hginfo i)) =
       local_peer_addr env (grank s) (local_peer s hginfo i)"
proof (induction "is" arbitrary: s)
  case Nil
  then show ?case by simp
next
  case (Cons i' "is")
  from Cons.prems(1) obtain s1 where
    v: "local_visit env hginfo i' s = (Returns (), s1)" and
    l: "local_loop env hginfo is s1 = (Returns (), s')"
    unfolding local_loop_Cons_Returns by blast
  from local_visit_frame [OF v]
  have f: "grank s1 = grank s" "\<And>j. local_peer s1 hginfo j = local_peer s hginfo j"
    by (simp_all add: local_peer_def)
  show ?case
  proof (cases "i \<in> set is")
    case True
    from Cons.prems(2,3) f
    have "distinct is" "inj_on (\<lambda>i. ld_grank (local_peer s1 hginfo i)) (set is)"
      by (simp_all add: inj_on_def)
    from Cons.IH [OF l this True] f show ?thesis by simp
  next
    case False
    with Cons.prems(4) have i: "i = i'" by simp
    from Cons.prems(2,3) f
    have "ld_grank (local_peer s hginfo i') \<notin> (\<lambda>i. ld_grank (local_peer s1 hginfo i)) ` set is"
      by (auto simp: inj_on_def)
    from local_loop_laddrs_other [OF l this] local_visit_laddrs [OF v] i show ?thesis
      by (auto simp: map_of_map_set)
  qed
qed

lemma local_loop_lroot:
  "local_loop env hginfo is s = (Returns (), s') \<Longrightarrow>
     \<forall>i\<in>set is. ld_lrank (local_peer s hginfo i) = 0 \<longrightarrow> ld_grank (local_peer s hginfo i) = g0 \<Longrightarrow>
     lroot s = g0 \<or> (\<exists>i\<in>set is. ld_lrank (local_peer s hginfo i) = 0) \<Longrightarrow>
     lroot s' = g0"
proof (induction "is" arbitrary: s)
  case Nil
  then show ?case by simp
next
  case (Cons i "is")
  from Cons.prems(1) obtain s1 where
    v: "local_visit env hginfo i s = (Returns (), s1)" and
    l: "local_loop env hginfo is s1 = (Returns (), s')"
    unfolding local_loop_Cons_Returns by blast
  from local_visit_frame [OF v]
  have f: "\<And>j. local_peer s1 hginfo j = local_peer s hginfo j"
    by (simp add: local_peer_def)
  from Cons.prems(2) f
  have a: "\<forall>i\<in>set is. ld_lrank (local_peer s1 hginfo i) = 0 \<longrightarrow>
             ld_grank (local_peer s1 hginfo i) = g0"
    by simp
  from Cons.prems(2,3) local_visit_lroot [OF v] f
  have b: "lroot s1 = g0 \<or> (\<exists>i\<in>set is. ld_lrank (local_peer s1 hginfo i) = 0)"
    by auto
  from Cons.IH [OF l a b] show ?case .
qed

subsection \<open>The cyclic order\<close>

lemma smod_nonneg: "0 \<le> a \<Longrightarrow> 0 < b \<Longrightarrow> (a::int) smod b = a mod b"
  by (cases "a = 0") (simp_all add: signed_modulo_int_def)

lemma rotate_upt: "rotate r [0..<n] = map (\<lambda>i. (r + i) mod n) [0..<n]"
  by (rule nth_equalityI) (simp_all add: nth_rotate)

lemma cyclic_index:
  "0 \<le> r \<Longrightarrow> 0 < n \<Longrightarrow> nat ((r + int i) smod n) = (nat r + i) mod nat n"
  by (simp add: smod_nonneg nat_mod_distrib nat_add_distrib)

subsection \<open>Local discovery that returns\<close>

lemma local_endpoint_up_Returns:
  "local_endpoint_up env s = (Returns (), s1) \<Longrightarrow>
     s1 = s\<lparr>lrank := mpi_rank env LOCALCOMM, lsize := mpi_size env LOCALCOMM,
            local_hgcl := HG_Init_ret env (na_sm_addr (getpid_ret env) 0),
            local_hgctx := HG_Context_create_ret env (HG_Init_ret env (na_sm_addr (getpid_ret env) 0)),
            calls := calls s @
              [EvMPI_Comm_rank LOCALCOMM, EvMPI_Comm_size LOCALCOMM,
               EvHG_Init LOCAL_EP (na_sm_addr (getpid_ret env) 0),
               EvHG_Context_create LOCAL_EP, Ev_pthread_create LOCAL_EP]\<rparr>"
  by (simp add: local_endpoint_up_def Let_def call_def msg_abort_def split: if_splits)

lemma local_exchange_Returns:
  "local_exchange env s = (Returns hginfo, s2) \<Longrightarrow>
     hginfo = MPI_Allgather (mpi_rank env LOCALCOMM) (mpi_size env LOCALCOMM) (peer_ldat env)
                \<lparr>ld_pid = getpid_ret env, ld_hgid = 0, ld_grank = grank s, ld_lrank = lrank s\<rparr> \<and>
     s2 = s\<lparr>localranks := replicate (nat (lsize s)) 0,
            calls := calls s @ [EvMPI_Allgather LOCALCOMM]\<rparr>"
  by (auto simp: local_exchange_def Let_def call_def msg_abort_def split: if_splits)

lemma local_finish_Returns:
  "local_finish env s = (Returns (), s') \<Longrightarrow>
     barrier_returns env LOCALCOMM \<and>
     s' = s\<lparr>calls := calls s @
            [EvMPI_Barrier LOCALCOMM, Ev_set_bgdone LOCAL_EP, Ev_pthread_join LOCAL_EP]\<rparr>"
  by (auto simp: local_finish_def MPI_Barrier_def and_then_def call_def split: if_splits)

lemma discover_local_info_ReturnsD:
  assumes "discover_local_info env s = (Returns (), s')"
  shows "\<exists>s2 s3.
     lrank s2 = mpi_rank env LOCALCOMM \<and> lsize s2 = mpi_size env LOCALCOMM \<and>
     grank s2 = grank s \<and> gsize s2 = gsize s \<and> lroot s2 = lroot s \<and> laddrs s2 = laddrs s \<and>
     gaddrs s2 = gaddrs s \<and> rankreps s2 = rankreps s \<and>
     calls s2 = calls s @
       [EvMPI_Comm_rank LOCALCOMM, EvMPI_Comm_size LOCALCOMM,
        EvHG_Init LOCAL_EP (na_sm_addr (getpid_ret env) 0),
        EvHG_Context_create LOCAL_EP, Ev_pthread_create LOCAL_EP, EvMPI_Allgather LOCALCOMM] \<and>
     local_loop env (local_hginfo env s) (map int [0..<nat (mpi_size env LOCALCOMM)]) s2
       = (Returns (), s3) \<and>
     barrier_returns env LOCALCOMM \<and>
     s' = s3\<lparr>calls := calls s3 @
            [EvMPI_Barrier LOCALCOMM, Ev_set_bgdone LOCAL_EP, Ev_pthread_join LOCAL_EP]\<rparr>"
proof -
  from assms obtain s1 hginfo s2 s3 where
    up: "local_endpoint_up env s = (Returns (), s1)" and
    ex: "local_exchange env s1 = (Returns hginfo, s2)" and
    lo: "local_loop env hginfo (map int [0..<nat (lsize s2)]) s2 = (Returns (), s3)" and
    fi: "local_finish env s3 = (Returns (), s')"
    by (auto simp: discover_local_info_def and_then_Returns)
  note u = local_endpoint_up_Returns [OF up]
  note e = local_exchange_Returns [OF ex]
  note f = local_finish_Returns [OF fi]
  have h: "hginfo = local_hginfo env s"
    using e u by (simp add: local_hginfo_def)
  have "lrank s2 = mpi_rank env LOCALCOMM" "lsize s2 = mpi_size env LOCALCOMM"
     "grank s2 = grank s" "gsize s2 = gsize s" "lroot s2 = lroot s" "laddrs s2 = laddrs s"
     "gaddrs s2 = gaddrs s" "rankreps s2 = rankreps s"
     "calls s2 = calls s @
       [EvMPI_Comm_rank LOCALCOMM, EvMPI_Comm_size LOCALCOMM,
        EvHG_Init LOCAL_EP (na_sm_addr (getpid_ret env) 0),
        EvHG_Context_create LOCAL_EP, Ev_pthread_create LOCAL_EP, EvMPI_Allgather LOCALCOMM]"
    using e u by simp_all
  with lo h f show ?thesis by auto
qed

lemma length_MPI_Allgather: "length (MPI_Allgather r n peer mine) = nat n"
  by (simp add: MPI_Allgather_def)

lemma nth_MPI_Allgather:
  "j < nat n \<Longrightarrow> MPI_Allgather r n peer mine ! j = (if int j = r then mine else peer (int j))"
  by (simp add: MPI_Allgather_def)

lemma length_local_hginfo: "length (local_hginfo env s) = nat (mpi_size env LOCALCOMM)"
  by (simp add: local_hginfo_def length_MPI_Allgather)

lemma local_hginfo_own:
  "0 \<le> mpi_rank env LOCALCOMM \<Longrightarrow> mpi_rank env LOCALCOMM < mpi_size env LOCALCOMM \<Longrightarrow>
     ld_grank (local_hginfo env s ! nat (mpi_rank env LOCALCOMM)) = grank s"
  by (simp add: local_hginfo_def nth_MPI_Allgather)

lemma local_peer_rotate:
  assumes "lrank s2 = r" "lsize s2 = n" "0 \<le> r" "r < n"
  shows "map (\<lambda>i. f (local_peer s2 hginfo i)) (map int [0..<nat n]) =
         map (\<lambda>j. f (hginfo ! j)) (rotate (nat r) [0..<nat n])"
proof -
  have "local_peer s2 hginfo (int i) = hginfo ! ((nat r + i) mod nat n)" for i
    using assms by (simp add: local_peer_def cyclic_index)
  then show ?thesis
    by (simp add: rotate_upt comp_def)
qed

lemma mod_add_cancel_le:
  assumes "(r + a) mod n = (r + b) mod n" "a \<le> b" "b < n"
  shows "a = (b::nat)"
proof -
  from assms(2) have "r + a \<le> r + b" by simp
  from mod_eq_dvd_iff_nat [OF this, of n] assms(1) have "n dvd (r + b) - (r + a)"
    by simp
  then have "n dvd b - a" by simp
  moreover from assms have "b - a < n" by simp
  ultimately have "b - a = 0"
    using nat_dvd_not_less [of "b - a" n] by auto
  with assms(2) show ?thesis by simp
qed

lemma mod_add_cancel:
  "(r + a) mod n = (r + b) mod n \<Longrightarrow> a < n \<Longrightarrow> b < n \<Longrightarrow> a = (b::nat)"
  using mod_add_cancel_le [of r a n b] mod_add_cancel_le [of r b n a]
  by (cases "a \<le> b") auto

lemma distinct_map_nth:
  "distinct (map f xs) \<Longrightarrow> i < length xs \<Longrightarrow> j < length xs \<Longrightarrow>
     f (xs ! i) = f (xs ! j) \<longleftrightarrow> i = j"
  using nth_eq_iff_index_eq [of "map f xs" i j] by simp

lemma local_peer_call_resolution:
  assumes d: "distinct (map ld_grank hginfo)" and j: "j < length hginfo"
    and r: "0 \<le> r" "nat r < length hginfo" and own: "ld_grank (hginfo ! nat r) = g"
  shows "local_peer_call g (hginfo ! j) = local_resolution r hginfo j"
    and "local_peer_addr env g (hginfo ! j) = local_address env r hginfo j"
proof -
  from d j r(2) have "ld_grank (hginfo ! j) = ld_grank (hginfo ! nat r) \<longleftrightarrow> j = nat r"
    by (rule distinct_map_nth)
  with own r(1) have "ld_grank (hginfo ! j) = g \<longleftrightarrow> int j = r"
    by auto
  then show "local_peer_call g (hginfo ! j) = local_resolution r hginfo j"
    and "local_peer_addr env g (hginfo ! j) = local_address env r hginfo j"
    by (simp_all add: local_peer_call_def local_resolution_def local_peer_addr_def
          local_address_def)
qed

lemma local_discovery_order:
  assumes run: "discover_local_info env s = (Returns (), s')"
    and r: "0 \<le> mpi_rank env LOCALCOMM" "mpi_rank env LOCALCOMM < mpi_size env LOCALCOMM"
    and d: "distinct (map ld_grank (local_hginfo env s))"
  shows "filter (resolution LOCAL_EP) (made s s') =
           map (local_resolution (mpi_rank env LOCALCOMM) (local_hginfo env s))
             (rotate (nat (mpi_rank env LOCALCOMM)) [0..<nat (mpi_size env LOCALCOMM)])"
proof -
  define hginfo where "hginfo = local_hginfo env s"
  define r where "r = mpi_rank env LOCALCOMM"
  define n where "n = mpi_size env LOCALCOMM"
  from discover_local_info_ReturnsD [OF run] obtain s2 s3 where
    f: "lrank s2 = r" "lsize s2 = n" "grank s2 = grank s" and
    c2: "calls s2 = calls s @
       [EvMPI_Comm_rank LOCALCOMM, EvMPI_Comm_size LOCALCOMM,
        EvHG_Init LOCAL_EP (na_sm_addr (getpid_ret env) 0),
        EvHG_Context_create LOCAL_EP, Ev_pthread_create LOCAL_EP, EvMPI_Allgather LOCALCOMM]" and
    lo: "local_loop env hginfo (map int [0..<nat n]) s2 = (Returns (), s3)" and
    s': "s' = s3\<lparr>calls := calls s3 @
            [EvMPI_Barrier LOCALCOMM, Ev_set_bgdone LOCAL_EP, Ev_pthread_join LOCAL_EP]\<rparr>"
    unfolding hginfo_def r_def n_def by blast
  from local_loop_calls [OF lo] f obtain evs where
    evs: "calls s3 = calls s2 @ evs"
      "filter (resolution LOCAL_EP) evs =
         map (\<lambda>i. local_peer_call (grank s) (local_peer s2 hginfo i)) (map int [0..<nat n])"
    by auto
  have len: "length hginfo = nat n"
    by (simp add: hginfo_def n_def length_local_hginfo)
  have own: "ld_grank (hginfo ! nat r) = grank s"
    using r by (simp add: hginfo_def r_def local_hginfo_own)
  have "map (\<lambda>i. local_peer_call (grank s) (local_peer s2 hginfo i)) (map int [0..<nat n]) =
        map (\<lambda>j. local_peer_call (grank s) (hginfo ! j)) (rotate (nat r) [0..<nat n])"
    using f r by (intro local_peer_rotate) (simp_all add: r_def n_def)
  also have "\<dots> = map (local_resolution r hginfo) (rotate (nat r) [0..<nat n])"
  proof (rule map_cong [OF refl])
    fix j assume "j \<in> set (rotate (nat r) [0..<nat n])"
    then have "j < length hginfo" by (simp add: len)
    with d own r len show "local_peer_call (grank s) (hginfo ! j) = local_resolution r hginfo j"
      by (intro local_peer_call_resolution) (simp_all add: hginfo_def r_def n_def)
  qed
  finally have "filter (resolution LOCAL_EP) evs =
      map (local_resolution r hginfo) (rotate (nat r) [0..<nat n])"
    using evs(2) by simp
  moreover have "made s s' =
       [EvMPI_Comm_rank LOCALCOMM, EvMPI_Comm_size LOCALCOMM,
        EvHG_Init LOCAL_EP (na_sm_addr (getpid_ret env) 0),
        EvHG_Context_create LOCAL_EP, Ev_pthread_create LOCAL_EP, EvMPI_Allgather LOCALCOMM] @
       evs @ [EvMPI_Barrier LOCALCOMM, Ev_set_bgdone LOCAL_EP, Ev_pthread_join LOCAL_EP]"
    by (rule made_append) (simp add: s' evs(1) c2)
  ultimately show ?thesis
    by (simp add: hginfo_def r_def n_def)
qed

lemma local_discovery_table:
  assumes run: "discover_local_info env s = (Returns (), s')"
    and r: "0 \<le> mpi_rank env LOCALCOMM" "mpi_rank env LOCALCOMM < mpi_size env LOCALCOMM"
    and d: "distinct (map ld_grank (local_hginfo env s))"
    and j: "j < nat (mpi_size env LOCALCOMM)"
  shows "map_of (laddrs s') (ld_grank (local_hginfo env s ! j)) =
           local_address env (mpi_rank env LOCALCOMM) (local_hginfo env s) j \<and>
         local_address env (mpi_rank env LOCALCOMM) (local_hginfo env s) j \<noteq> None"
proof -
  define hginfo where "hginfo = local_hginfo env s"
  define r where "r = mpi_rank env LOCALCOMM"
  define n where "n = mpi_size env LOCALCOMM"
  from discover_local_info_ReturnsD [OF run] obtain s2 s3 where
    f: "lrank s2 = r" "lsize s2 = n" "grank s2 = grank s" and
    lo: "local_loop env hginfo (map int [0..<nat n]) s2 = (Returns (), s3)" and
    s': "s' = s3\<lparr>calls := calls s3 @
            [EvMPI_Barrier LOCALCOMM, Ev_set_bgdone LOCAL_EP, Ev_pthread_join LOCAL_EP]\<rparr>"
    unfolding hginfo_def r_def n_def by blast
  have len: "length hginfo = nat n"
    by (simp add: hginfo_def n_def length_local_hginfo)
  have own: "ld_grank (hginfo ! nat r) = grank s"
    using r by (simp add: hginfo_def r_def local_hginfo_own)
  have rn: "0 \<le> r" "r < n" "nat r < nat n" using r by (simp_all add: r_def n_def)
  have peer: "local_peer s2 hginfo (int i) = hginfo ! ((nat r + i) mod nat n)" for i
    using f rn by (simp add: local_peer_def cyclic_index)
  define i where "i = (j + nat n - nat r) mod nat n"
  have i: "i < nat n" "(nat r + i) mod nat n = j"
    using j rn unfolding i_def n_def [symmetric]
    by (simp_all add: mod_simps)
  have inj: "inj_on (\<lambda>i. ld_grank (local_peer s2 hginfo i)) (set (map int [0..<nat n]))"
  proof (rule inj_onI)
    fix x y assume x: "x \<in> set (map int [0..<nat n])" and y: "y \<in> set (map int [0..<nat n])"
      and e: "ld_grank (local_peer s2 hginfo x) = ld_grank (local_peer s2 hginfo y)"
    from x y obtain a b where ab: "x = int a" "a < nat n" "y = int b" "b < nat n" by auto
    from e ab peer have "ld_grank (hginfo ! ((nat r + a) mod nat n)) =
                         ld_grank (hginfo ! ((nat r + b) mod nat n))" by simp
    moreover have "(nat r + a) mod nat n < length hginfo" "(nat r + b) mod nat n < length hginfo"
      using rn len by simp_all
    ultimately have "(nat r + a) mod nat n = (nat r + b) mod nat n"
      using d distinct_map_nth [of ld_grank hginfo] by (simp add: hginfo_def)
    with ab have "a = b" by (intro mod_add_cancel [of "nat r" a "nat n" b])
    with ab show "x = y" by simp
  qed
  have dist: "distinct (map int [0..<nat n])"
    by (simp add: distinct_map)
  have mem: "int i \<in> set (map int [0..<nat n])" using i by simp
  from local_loop_laddrs_exact [OF lo dist inj mem] peer i f
  have t: "map_of (laddrs s3) (ld_grank (hginfo ! j)) = local_peer_addr env (grank s) (hginfo ! j)"
    by simp
  from local_loop_resolved [OF lo mem] peer i f
  have ok: "\<exists>a. local_peer_addr env (grank s) (hginfo ! j) = Some a" by simp
  have "local_peer_addr env (grank s) (hginfo ! j) = local_address env r hginfo j"
    using d own rn j len
    by (intro local_peer_call_resolution) (simp_all add: hginfo_def n_def)
  with t ok s' show ?thesis
    by (auto simp: hginfo_def r_def n_def)
qed

subsection \<open>The loop of remote discovery\<close>

lemma remote_visit_Returns:
  assumes run: "remote_visit env hginfo rep_rank rep_size i s = (Returns (), s')"
  shows "in_int (rep_rank + i) \<and> rep_size \<noteq> 0 \<and> 0 \<le> (rep_rank + i) smod rep_size \<and>
         (rep_rank + i) smod rep_size < int (length hginfo) \<and>
         (\<exists>a evs.
            s' = s\<lparr>gaddrs := map_set (rd_grank (remote_peer rep_rank rep_size hginfo i)) a (gaddrs s),
                    calls := calls s @ evs\<rparr> \<and>
            filter (resolution REMOTE_EP) evs =
              [remote_peer_call (grank s) (remote_peer rep_rank rep_size hginfo i)] \<and>
            remote_peer_addr env (grank s) (remote_peer rep_rank rep_size hginfo i) = Some a)"
proof -
  define h where "h = remote_peer rep_rank rep_size hginfo i"
  from run have g1: "in_int (rep_rank + i)" "rep_size \<noteq> 0"
    by (auto simp: remote_visit_def split: if_splits)
  with run have g2: "0 \<le> (rep_rank + i) smod rep_size"
    "(rep_rank + i) smod rep_size < int (length hginfo)"
    by (auto simp: remote_visit_def Let_def split: if_splits)
  with run g1 have
    "and_then (if rd_grank h = grank s then HG_Addr_self env REMOTE_EP s
               else hg_lookup env REMOTE_EP (rd_addr h) s)
       (\<lambda>r s1. if fst r \<noteq> HG_SUCCESS then msg_abort ''hg_lookup failed'' s1
                else (case snd r of None \<Rightarrow> (Undefined, s1)
                      | Some remoteaddr \<Rightarrow>
                         (Returns (), s1\<lparr>gaddrs := map_set (rd_grank h) remoteaddr (gaddrs s1)\<rparr>)))
     = (Returns (), s')"
    unfolding remote_visit_def Let_def h_def remote_peer_def
    by simp
  then obtain r s1 where
    res: "(if rd_grank h = grank s then HG_Addr_self env REMOTE_EP s
           else hg_lookup env REMOTE_EP (rd_addr h) s) = (Returns r, s1)"
    and fin: "(if fst r \<noteq> HG_SUCCESS then msg_abort ''hg_lookup failed'' s1
               else (case snd r of None \<Rightarrow> (Undefined, s1)
                     | Some remoteaddr \<Rightarrow>
                        (Returns (), s1\<lparr>gaddrs := map_set (rd_grank h) remoteaddr (gaddrs s1)\<rparr>)))
              = (Returns (), s')"
    unfolding and_then_Returns by blast
  from fin obtain a where ok: "fst r = HG_SUCCESS" and a: "snd r = Some a"
    and s': "s' = s1\<lparr>gaddrs := map_set (rd_grank h) a (gaddrs s1)\<rparr>"
    by (auto simp: msg_abort_def split: if_splits option.splits)
  have "\<exists>evs. s1 = s\<lparr>calls := calls s @ evs\<rparr> \<and>
          filter (resolution REMOTE_EP) evs = [remote_peer_call (grank s) h] \<and>
          remote_peer_addr env (grank s) h = Some a"
  proof (cases "rd_grank h = grank s")
    case True
    with res have "HG_Addr_self env REMOTE_EP s = (Returns r, s1)" by simp
    from HG_Addr_self_result [OF this] a True show ?thesis
      by (auto simp: remote_peer_call_def remote_peer_addr_def)
  next
    case False
    with res have l: "hg_lookup env REMOTE_EP (rd_addr h) s = (Returns r, s1)" by simp
    from hg_lookup_success [OF l ok] a have "looked_up env REMOTE_EP (rd_addr h) = Some a" by simp
    moreover from hg_lookup_world [OF l]
    have "\<exists>evs. s1 = s\<lparr>calls := calls s @ evs\<rparr> \<and>
            filter (resolution REMOTE_EP) evs = [Ev_hg_lookup REMOTE_EP (rd_addr h)]"
      by blast
    ultimately show ?thesis using False
      by (auto simp: remote_peer_call_def remote_peer_addr_def)
  qed
  then obtain evs where s1: "s1 = s\<lparr>calls := calls s @ evs\<rparr>"
    and evs: "filter (resolution REMOTE_EP) evs = [remote_peer_call (grank s) h]"
       "remote_peer_addr env (grank s) h = Some a"
    by blast
  have "s' = s\<lparr>gaddrs := map_set (rd_grank h) a (gaddrs s), calls := calls s @ evs\<rparr>"
    by (simp add: s' s1)
  with evs g1 g2 show ?thesis
    unfolding h_def by blast
qed

lemma remote_visit_frame:
  "remote_visit env hginfo rep_rank rep_size i s = (Returns (), s') \<Longrightarrow>
     lrank s' = lrank s \<and> lsize s' = lsize s \<and> grank s' = grank s \<and> gsize s' = gsize s \<and>
     laddrs s' = laddrs s \<and> rankreps s' = rankreps s \<and> lroot s' = lroot s"
  by (drule remote_visit_Returns) auto

lemma remote_visit_index:
  "remote_visit env hginfo rep_rank rep_size i s = (Returns (), s') \<Longrightarrow>
     0 \<le> (rep_rank + i) smod rep_size \<and> (rep_rank + i) smod rep_size < int (length hginfo)"
  by (drule remote_visit_Returns) simp

lemma remote_visit_calls:
  "remote_visit env hginfo rep_rank rep_size i s = (Returns (), s') \<Longrightarrow>
     \<exists>evs. calls s' = calls s @ evs \<and>
       filter (resolution REMOTE_EP) evs =
         [remote_peer_call (grank s) (remote_peer rep_rank rep_size hginfo i)]"
  by (drule remote_visit_Returns) auto

lemma remote_visit_gaddrs:
  "remote_visit env hginfo rep_rank rep_size i s = (Returns (), s') \<Longrightarrow>
     \<exists>a. remote_peer_addr env (grank s) (remote_peer rep_rank rep_size hginfo i) = Some a \<and>
       gaddrs s' = map_set (rd_grank (remote_peer rep_rank rep_size hginfo i)) a (gaddrs s)"
  by (drule remote_visit_Returns) auto

lemma remote_loop_Cons_Returns:
  "remote_loop env hginfo rep_rank rep_size (i # is) s = (Returns (), s') \<longleftrightarrow>
     (\<exists>s1. remote_visit env hginfo rep_rank rep_size i s = (Returns (), s1) \<and>
           remote_loop env hginfo rep_rank rep_size is s1 = (Returns (), s'))"
  by (simp add: and_then_Returns)

lemma remote_loop_frame:
  "remote_loop env hginfo rep_rank rep_size is s = (Returns (), s') \<Longrightarrow>
     lrank s' = lrank s \<and> lsize s' = lsize s \<and> grank s' = grank s \<and> gsize s' = gsize s \<and>
     laddrs s' = laddrs s \<and> rankreps s' = rankreps s \<and> lroot s' = lroot s"
proof (induction "is" arbitrary: s)
  case Nil
  then show ?case by simp
next
  case (Cons i "is")
  from Cons.prems obtain s1 where
    v: "remote_visit env hginfo rep_rank rep_size i s = (Returns (), s1)" and
    l: "remote_loop env hginfo rep_rank rep_size is s1 = (Returns (), s')"
    unfolding remote_loop_Cons_Returns by blast
  from remote_visit_frame [OF v] Cons.IH [OF l] show ?case by simp
qed

lemma remote_loop_calls:
  "remote_loop env hginfo rep_rank rep_size is s = (Returns (), s') \<Longrightarrow>
     \<exists>evs. calls s' = calls s @ evs \<and>
       filter (resolution REMOTE_EP) evs =
         map (\<lambda>i. remote_peer_call (grank s) (remote_peer rep_rank rep_size hginfo i)) is"
proof (induction "is" arbitrary: s)
  case Nil
  then show ?case by simp
next
  case (Cons i "is")
  from Cons.prems obtain s1 where
    v: "remote_visit env hginfo rep_rank rep_size i s = (Returns (), s1)" and
    l: "remote_loop env hginfo rep_rank rep_size is s1 = (Returns (), s')"
    unfolding remote_loop_Cons_Returns by blast
  from remote_visit_frame [OF v] have f: "grank s1 = grank s" by simp
  from remote_visit_calls [OF v] obtain evs1 where
    e1: "calls s1 = calls s @ evs1"
        "filter (resolution REMOTE_EP) evs1 =
           [remote_peer_call (grank s) (remote_peer rep_rank rep_size hginfo i)]"
    by blast
  from Cons.IH [OF l] f obtain evs2 where
    e2: "calls s' = calls s1 @ evs2"
        "filter (resolution REMOTE_EP) evs2 =
           map (\<lambda>i. remote_peer_call (grank s) (remote_peer rep_rank rep_size hginfo i)) is"
    by auto
  from e1 e2 have "calls s' = calls s @ (evs1 @ evs2) \<and>
       filter (resolution REMOTE_EP) (evs1 @ evs2) =
         map (\<lambda>i. remote_peer_call (grank s) (remote_peer rep_rank rep_size hginfo i)) (i # is)"
    by simp
  then show ?case by blast
qed

lemma remote_loop_keeps:
  "remote_loop env hginfo rep_rank rep_size is s = (Returns (), s') \<Longrightarrow>
     k \<in> dom (map_of (gaddrs s)) \<Longrightarrow> k \<in> dom (map_of (gaddrs s'))"
proof (induction "is" arbitrary: s)
  case Nil
  then show ?case by simp
next
  case (Cons j js)
  from Cons.prems(1) obtain s2 where
    v2: "remote_visit env hginfo rep_rank rep_size j s = (Returns (), s2)" and
    l2: "remote_loop env hginfo rep_rank rep_size js s2 = (Returns (), s')"
    unfolding remote_loop_Cons_Returns by blast
  from remote_visit_gaddrs [OF v2] Cons.prems(2) have "k \<in> dom (map_of (gaddrs s2))"
    by (auto simp: map_of_map_set)
  with Cons.IH l2 show ?case by blast
qed

lemma remote_loop_resolved:
  "remote_loop env hginfo rep_rank rep_size is s = (Returns (), s') \<Longrightarrow> i \<in> set is \<Longrightarrow>
     (\<exists>a. remote_peer_addr env (grank s) (remote_peer rep_rank rep_size hginfo i) = Some a) \<and>
     rd_grank (remote_peer rep_rank rep_size hginfo i) \<in> dom (map_of (gaddrs s')) \<and>
     0 \<le> (rep_rank + i) smod rep_size \<and> (rep_rank + i) smod rep_size < int (length hginfo)"
proof (induction "is" arbitrary: s)
  case Nil
  then show ?case by simp
next
  case (Cons i' "is")
  from Cons.prems(1) obtain s1 where
    v: "remote_visit env hginfo rep_rank rep_size i' s = (Returns (), s1)" and
    l: "remote_loop env hginfo rep_rank rep_size is s1 = (Returns (), s')"
    unfolding remote_loop_Cons_Returns by blast
  from remote_visit_frame [OF v] have f: "grank s1 = grank s" by simp
  show ?case
  proof (cases "i \<in> set is")
    case True
    from Cons.IH [OF l True] f show ?thesis by simp
  next
    case False
    with Cons.prems(2) have i: "i = i'" by simp
    from remote_visit_gaddrs [OF v] obtain a where
      a: "remote_peer_addr env (grank s) (remote_peer rep_rank rep_size hginfo i') = Some a"
         "gaddrs s1 = map_set (rd_grank (remote_peer rep_rank rep_size hginfo i')) a (gaddrs s)"
      by blast
    then have "rd_grank (remote_peer rep_rank rep_size hginfo i') \<in> dom (map_of (gaddrs s1))"
      by (simp add: map_of_map_set)
    with remote_loop_keeps [OF l]
    have "rd_grank (remote_peer rep_rank rep_size hginfo i') \<in> dom (map_of (gaddrs s'))" .
    with a i remote_visit_index [OF v] show ?thesis by simp
  qed
qed

lemma remote_loop_gaddrs_other:
  "remote_loop env hginfo rep_rank rep_size is s = (Returns (), s') \<Longrightarrow>
     k \<notin> (\<lambda>i. rd_grank (remote_peer rep_rank rep_size hginfo i)) ` set is \<Longrightarrow>
     map_of (gaddrs s') k = map_of (gaddrs s) k"
proof (induction "is" arbitrary: s)
  case Nil
  then show ?case by simp
next
  case (Cons i "is")
  from Cons.prems(1) obtain s1 where
    v: "remote_visit env hginfo rep_rank rep_size i s = (Returns (), s1)" and
    l: "remote_loop env hginfo rep_rank rep_size is s1 = (Returns (), s')"
    unfolding remote_loop_Cons_Returns by blast
  from Cons.prems(2)
  have "k \<notin> (\<lambda>i. rd_grank (remote_peer rep_rank rep_size hginfo i)) ` set is"
    by simp
  from Cons.IH [OF l this] have "map_of (gaddrs s') k = map_of (gaddrs s1) k" .
  moreover from remote_visit_gaddrs [OF v] Cons.prems(2)
  have "map_of (gaddrs s1) k = map_of (gaddrs s) k"
    by (auto simp: map_of_map_set)
  ultimately show ?case by simp
qed

lemma remote_loop_gaddrs_exact:
  "remote_loop env hginfo rep_rank rep_size is s = (Returns (), s') \<Longrightarrow> distinct is \<Longrightarrow>
     inj_on (\<lambda>i. rd_grank (remote_peer rep_rank rep_size hginfo i)) (set is) \<Longrightarrow> i \<in> set is \<Longrightarrow>
     map_of (gaddrs s') (rd_grank (remote_peer rep_rank rep_size hginfo i)) =
       remote_peer_addr env (grank s) (remote_peer rep_rank rep_size hginfo i)"
proof (induction "is" arbitrary: s)
  case Nil
  then show ?case by simp
next
  case (Cons i' "is")
  from Cons.prems(1) obtain s1 where
    v: "remote_visit env hginfo rep_rank rep_size i' s = (Returns (), s1)" and
    l: "remote_loop env hginfo rep_rank rep_size is s1 = (Returns (), s')"
    unfolding remote_loop_Cons_Returns by blast
  from remote_visit_frame [OF v] have f: "grank s1 = grank s" by simp
  show ?case
  proof (cases "i \<in> set is")
    case True
    from Cons.prems(2,3)
    have "distinct is" "inj_on (\<lambda>i. rd_grank (remote_peer rep_rank rep_size hginfo i)) (set is)"
      by (simp_all add: inj_on_def)
    from Cons.IH [OF l this True] f show ?thesis by simp
  next
    case False
    with Cons.prems(4) have i: "i = i'" by simp
    from Cons.prems(2,3)
    have "rd_grank (remote_peer rep_rank rep_size hginfo i') \<notin>
            (\<lambda>i. rd_grank (remote_peer rep_rank rep_size hginfo i)) ` set is"
      by (auto simp: inj_on_def)
    from remote_loop_gaddrs_other [OF l this] remote_visit_gaddrs [OF v] i show ?thesis
      by (auto simp: map_of_map_set)
  qed
qed

subsection \<open>Remote discovery that returns\<close>

lemma remote_rankreps_Returns:
  "remote_rankreps env s = (Returns rep, s1) \<Longrightarrow>
     rep = (mpi_rank env REPCOMM, mpi_size env REPCOMM) \<and>
     nat (mpi_size env MPI_COMM_WORLD) \<le> nat (gsize s) \<and>
     s1 = s\<lparr>rankreps :=
              MPI_Allgather (mpi_rank env MPI_COMM_WORLD) (mpi_size env MPI_COMM_WORLD)
                (peer_lroot env) (lroot s) @
              replicate (nat (gsize s) - nat (mpi_size env MPI_COMM_WORLD)) 0,
            calls := calls s @
              [EvMPI_Comm_rank REPCOMM, EvMPI_Comm_size REPCOMM,
               EvMPI_Allgather MPI_COMM_WORLD]\<rparr>"
  by (auto simp: remote_rankreps_def Let_def call_def msg_abort_def length_MPI_Allgather
      split: if_splits)

lemma remote_endpoint_up_Returns:
  "remote_endpoint_up env hgaddr s = (Returns (), s1) \<Longrightarrow>
     s1 = s\<lparr>remote_hgcl := HG_Init_ret env hgaddr,
            remote_hgctx := HG_Context_create_ret env (HG_Init_ret env hgaddr),
            calls := calls s @
              [EvHG_Init REMOTE_EP hgaddr, EvHG_Context_create REMOTE_EP,
               Ev_pthread_create REMOTE_EP]\<rparr>"
  by (simp add: remote_endpoint_up_def Let_def call_def msg_abort_def split: if_splits)

lemma remote_exchange_Returns:
  "remote_exchange env hgaddr s = (Returns hginfo, s2) \<Longrightarrow>
     hginfo = remote_hginfo env hgaddr s \<and>
     s2 = s\<lparr>calls := calls s @ [EvMPI_Allgather REPCOMM]\<rparr>"
  by (auto simp: remote_exchange_def remote_hginfo_def Let_def call_def msg_abort_def
      split: if_splits)

lemma remote_finish_Returns:
  "remote_finish env s = (Returns (), s') \<Longrightarrow>
     barrier_returns env REPCOMM \<and>
     s' = s\<lparr>calls := calls s @
            [EvMPI_Barrier REPCOMM, Ev_set_bgdone REMOTE_EP, Ev_pthread_join REMOTE_EP]\<rparr>"
  by (auto simp: remote_finish_def MPI_Barrier_def and_then_def call_def split: if_splits)

lemma discover_remote_info_ReturnsD:
  assumes "discover_remote_info env hgaddr s = (Returns (), s')"
  shows "\<exists>s3 s4.
     lrank s3 = lrank s \<and> lsize s3 = lsize s \<and>
     grank s3 = grank s \<and> gsize s3 = gsize s \<and> lroot s3 = lroot s \<and> laddrs s3 = laddrs s \<and>
     gaddrs s3 = gaddrs s \<and>
     nat (mpi_size env MPI_COMM_WORLD) \<le> nat (gsize s) \<and>
     rankreps s3 =
       MPI_Allgather (mpi_rank env MPI_COMM_WORLD) (mpi_size env MPI_COMM_WORLD)
         (peer_lroot env) (lroot s) @
       replicate (nat (gsize s) - nat (mpi_size env MPI_COMM_WORLD)) 0 \<and>
     calls s3 = calls s @
       [EvMPI_Comm_rank REPCOMM, EvMPI_Comm_size REPCOMM, EvMPI_Allgather MPI_COMM_WORLD,
        EvHG_Init REMOTE_EP hgaddr, EvHG_Context_create REMOTE_EP,
        Ev_pthread_create REMOTE_EP, EvMPI_Allgather REPCOMM] \<and>
     remote_loop env (remote_hginfo env hgaddr s) (mpi_rank env REPCOMM) (mpi_size env REPCOMM)
       (map int [0..<nat (mpi_size env REPCOMM)]) s3 = (Returns (), s4) \<and>
     barrier_returns env REPCOMM \<and>
     s' = s4\<lparr>calls := calls s4 @
            [EvMPI_Barrier REPCOMM, Ev_set_bgdone REMOTE_EP, Ev_pthread_join REMOTE_EP]\<rparr>"
proof -
  from assms obtain rep s1 s2 hginfo s3 s4 where
    rr: "remote_rankreps env s = (Returns rep, s1)" and
    up: "remote_endpoint_up env hgaddr s1 = (Returns (), s2)" and
    ex: "remote_exchange env hgaddr s2 = (Returns hginfo, s3)" and
    lo: "remote_loop env hginfo (fst rep) (snd rep) (map int [0..<nat (snd rep)]) s3
           = (Returns (), s4)" and
    fi: "remote_finish env s4 = (Returns (), s')"
    by (auto simp: discover_remote_info_def and_then_Returns)
  note r = remote_rankreps_Returns [OF rr]
  note u = remote_endpoint_up_Returns [OF up]
  note e = remote_exchange_Returns [OF ex]
  note f = remote_finish_Returns [OF fi]
  have h: "hginfo = remote_hginfo env hgaddr s"
    using e u r by (simp add: remote_hginfo_def)
  have "lrank s3 = lrank s" "lsize s3 = lsize s"
     "grank s3 = grank s" "gsize s3 = gsize s" "lroot s3 = lroot s" "laddrs s3 = laddrs s"
     "gaddrs s3 = gaddrs s"
     "rankreps s3 =
       MPI_Allgather (mpi_rank env MPI_COMM_WORLD) (mpi_size env MPI_COMM_WORLD)
         (peer_lroot env) (lroot s) @
       replicate (nat (gsize s) - nat (mpi_size env MPI_COMM_WORLD)) 0"
     "calls s3 = calls s @
       [EvMPI_Comm_rank REPCOMM, EvMPI_Comm_size REPCOMM, EvMPI_Allgather MPI_COMM_WORLD,
        EvHG_Init REMOTE_EP hgaddr, EvHG_Context_create REMOTE_EP,
        Ev_pthread_create REMOTE_EP, EvMPI_Allgather REPCOMM]"
    using e u r by simp_all
  with lo h f r show ?thesis by auto
qed

lemma length_remote_hginfo: "length (remote_hginfo env hgaddr s) = nat (mpi_size env REPCOMM)"
  by (simp add: remote_hginfo_def length_MPI_Allgather)

lemma remote_hginfo_own:
  "0 \<le> mpi_rank env REPCOMM \<Longrightarrow> mpi_rank env REPCOMM < mpi_size env REPCOMM \<Longrightarrow>
     rd_grank (remote_hginfo env hgaddr s ! nat (mpi_rank env REPCOMM)) = grank s"
  by (simp add: remote_hginfo_def nth_MPI_Allgather build_rdat_def)

lemma remote_peer_rotate:
  assumes "0 \<le> r" "r < n"
  shows "map (\<lambda>i. f (remote_peer r n hginfo i)) (map int [0..<nat n]) =
         map (\<lambda>j. f (hginfo ! j)) (rotate (nat r) [0..<nat n])"
proof -
  have "remote_peer r n hginfo (int i) = hginfo ! ((nat r + i) mod nat n)" for i
    using assms by (simp add: remote_peer_def cyclic_index)
  then show ?thesis
    by (simp add: rotate_upt comp_def)
qed

lemma remote_peer_call_resolution:
  assumes d: "distinct (map rd_grank hginfo)" and j: "j < length hginfo"
    and r: "0 \<le> r" "nat r < length hginfo" and own: "rd_grank (hginfo ! nat r) = g"
  shows "remote_peer_call g (hginfo ! j) = remote_resolution r hginfo j"
    and "remote_peer_addr env g (hginfo ! j) = remote_address env r hginfo j"
proof -
  from d j r(2) have "rd_grank (hginfo ! j) = rd_grank (hginfo ! nat r) \<longleftrightarrow> j = nat r"
    by (rule distinct_map_nth)
  with own r(1) have "rd_grank (hginfo ! j) = g \<longleftrightarrow> int j = r"
    by auto
  then show "remote_peer_call g (hginfo ! j) = remote_resolution r hginfo j"
    and "remote_peer_addr env g (hginfo ! j) = remote_address env r hginfo j"
    by (simp_all add: remote_peer_call_def remote_resolution_def remote_peer_addr_def
          remote_address_def)
qed

lemma remote_discovery_order:
  assumes run: "discover_remote_info env hgaddr s = (Returns (), s')"
    and r: "0 \<le> mpi_rank env REPCOMM" "mpi_rank env REPCOMM < mpi_size env REPCOMM"
    and d: "distinct (map rd_grank (remote_hginfo env hgaddr s))"
  shows "filter (resolution REMOTE_EP) (made s s') =
           map (remote_resolution (mpi_rank env REPCOMM) (remote_hginfo env hgaddr s))
             (rotate (nat (mpi_rank env REPCOMM)) [0..<nat (mpi_size env REPCOMM)])"
proof -
  define hginfo where "hginfo = remote_hginfo env hgaddr s"
  define r where "r = mpi_rank env REPCOMM"
  define n where "n = mpi_size env REPCOMM"
  from discover_remote_info_ReturnsD [OF run] obtain s3 s4 where
    f: "grank s3 = grank s" and
    c3: "calls s3 = calls s @
       [EvMPI_Comm_rank REPCOMM, EvMPI_Comm_size REPCOMM, EvMPI_Allgather MPI_COMM_WORLD,
        EvHG_Init REMOTE_EP hgaddr, EvHG_Context_create REMOTE_EP,
        Ev_pthread_create REMOTE_EP, EvMPI_Allgather REPCOMM]" and
    lo: "remote_loop env hginfo r n (map int [0..<nat n]) s3 = (Returns (), s4)" and
    s': "s' = s4\<lparr>calls := calls s4 @
            [EvMPI_Barrier REPCOMM, Ev_set_bgdone REMOTE_EP, Ev_pthread_join REMOTE_EP]\<rparr>"
    unfolding hginfo_def r_def n_def by blast
  from remote_loop_calls [OF lo] f obtain evs where
    evs: "calls s4 = calls s3 @ evs"
      "filter (resolution REMOTE_EP) evs =
         map (\<lambda>i. remote_peer_call (grank s) (remote_peer r n hginfo i)) (map int [0..<nat n])"
    by auto
  have len: "length hginfo = nat n"
    by (simp add: hginfo_def n_def length_remote_hginfo)
  have own: "rd_grank (hginfo ! nat r) = grank s"
    using r by (simp add: hginfo_def r_def remote_hginfo_own)
  have "map (\<lambda>i. remote_peer_call (grank s) (remote_peer r n hginfo i)) (map int [0..<nat n]) =
        map (\<lambda>j. remote_peer_call (grank s) (hginfo ! j)) (rotate (nat r) [0..<nat n])"
    using r by (intro remote_peer_rotate) (simp_all add: r_def n_def)
  also have "\<dots> = map (remote_resolution r hginfo) (rotate (nat r) [0..<nat n])"
  proof (rule map_cong [OF refl])
    fix j assume "j \<in> set (rotate (nat r) [0..<nat n])"
    then have "j < length hginfo" by (simp add: len)
    with d own r len show "remote_peer_call (grank s) (hginfo ! j) = remote_resolution r hginfo j"
      by (intro remote_peer_call_resolution) (simp_all add: hginfo_def r_def n_def)
  qed
  finally have "filter (resolution REMOTE_EP) evs =
      map (remote_resolution r hginfo) (rotate (nat r) [0..<nat n])"
    using evs(2) by simp
  moreover have "made s s' =
       [EvMPI_Comm_rank REPCOMM, EvMPI_Comm_size REPCOMM, EvMPI_Allgather MPI_COMM_WORLD,
        EvHG_Init REMOTE_EP hgaddr, EvHG_Context_create REMOTE_EP,
        Ev_pthread_create REMOTE_EP, EvMPI_Allgather REPCOMM] @
       evs @ [EvMPI_Barrier REPCOMM, Ev_set_bgdone REMOTE_EP, Ev_pthread_join REMOTE_EP]"
    by (rule made_append) (simp add: s' evs(1) c3)
  ultimately show ?thesis
    by (simp add: hginfo_def r_def n_def)
qed

lemma remote_discovery_table:
  assumes run: "discover_remote_info env hgaddr s = (Returns (), s')"
    and r: "0 \<le> mpi_rank env REPCOMM" "mpi_rank env REPCOMM < mpi_size env REPCOMM"
    and d: "distinct (map rd_grank (remote_hginfo env hgaddr s))"
    and j: "j < nat (mpi_size env REPCOMM)"
  shows "map_of (gaddrs s') (rd_grank (remote_hginfo env hgaddr s ! j)) =
           remote_address env (mpi_rank env REPCOMM) (remote_hginfo env hgaddr s) j \<and>
         remote_address env (mpi_rank env REPCOMM) (remote_hginfo env hgaddr s) j \<noteq> None"
proof -
  define hginfo where "hginfo = remote_hginfo env hgaddr s"
  define r where "r = mpi_rank env REPCOMM"
  define n where "n = mpi_size env REPCOMM"
  from discover_remote_info_ReturnsD [OF run] obtain s3 s4 where
    f: "grank s3 = grank s" and
    lo: "remote_loop env hginfo r n (map int [0..<nat n]) s3 = (Returns (), s4)" and
    s': "s' = s4\<lparr>calls := calls s4 @
            [EvMPI_Barrier REPCOMM, Ev_set_bgdone REMOTE_EP, Ev_pthread_join REMOTE_EP]\<rparr>"
    unfolding hginfo_def r_def n_def by blast
  have len: "length hginfo = nat n"
    by (simp add: hginfo_def n_def length_remote_hginfo)
  have own: "rd_grank (hginfo ! nat r) = grank s"
    using r by (simp add: hginfo_def r_def remote_hginfo_own)
  have rn: "0 \<le> r" "r < n" "nat r < nat n" using r by (simp_all add: r_def n_def)
  have peer: "remote_peer r n hginfo (int i) = hginfo ! ((nat r + i) mod nat n)" for i
    using rn by (simp add: remote_peer_def cyclic_index)
  define i where "i = (j + nat n - nat r) mod nat n"
  have i: "i < nat n" "(nat r + i) mod nat n = j"
    using j rn unfolding i_def n_def [symmetric]
    by (simp_all add: mod_simps)
  have inj: "inj_on (\<lambda>i. rd_grank (remote_peer r n hginfo i)) (set (map int [0..<nat n]))"
  proof (rule inj_onI)
    fix x y assume x: "x \<in> set (map int [0..<nat n])" and y: "y \<in> set (map int [0..<nat n])"
      and e: "rd_grank (remote_peer r n hginfo x) = rd_grank (remote_peer r n hginfo y)"
    from x y obtain a b where ab: "x = int a" "a < nat n" "y = int b" "b < nat n" by auto
    from e ab peer have "rd_grank (hginfo ! ((nat r + a) mod nat n)) =
                         rd_grank (hginfo ! ((nat r + b) mod nat n))" by simp
    moreover have "(nat r + a) mod nat n < length hginfo" "(nat r + b) mod nat n < length hginfo"
      using rn len by simp_all
    ultimately have "(nat r + a) mod nat n = (nat r + b) mod nat n"
      using d distinct_map_nth [of rd_grank hginfo] by (simp add: hginfo_def)
    with ab have "a = b" by (intro mod_add_cancel [of "nat r" a "nat n" b])
    with ab show "x = y" by simp
  qed
  have dist: "distinct (map int [0..<nat n])"
    by (simp add: distinct_map)
  have mem: "int i \<in> set (map int [0..<nat n])" using i by simp
  from remote_loop_gaddrs_exact [OF lo dist inj mem] peer i f
  have t: "map_of (gaddrs s4) (rd_grank (hginfo ! j)) = remote_peer_addr env (grank s) (hginfo ! j)"
    by simp
  from remote_loop_resolved [OF lo mem] peer i f
  have ok: "\<exists>a. remote_peer_addr env (grank s) (hginfo ! j) = Some a" by simp
  have "remote_peer_addr env (grank s) (hginfo ! j) = remote_address env r hginfo j"
    using d own rn j len
    by (intro remote_peer_call_resolution) (simp_all add: hginfo_def n_def)
  with t ok s' show ?thesis
    by (auto simp: hginfo_def r_def n_def)
qed

subsection \<open>Running the test topology\<close>

lemma replicate_unroll: "0 < n \<Longrightarrow> replicate n x = x # replicate (n - 1) x"
  by (cases n) simp_all

lemma example_env_sel:
  "getpid_ret (example_env g) = 100 + g"
  "mpi_rank (example_env g) c =
     (case c of MPI_COMM_WORLD \<Rightarrow> g | LOCALCOMM \<Rightarrow> g mod 2 | REPCOMM \<Rightarrow> g div 2)"
  "mpi_size (example_env g) c = (case c of MPI_COMM_WORLD \<Rightarrow> 4 | LOCALCOMM \<Rightarrow> 2 | REPCOMM \<Rightarrow> 2)"
  "peer_ldat (example_env g) r =
     \<lparr>ld_pid = 100 + (2 * (g div 2) + r), ld_hgid = 0, ld_grank = 2 * (g div 2) + r, ld_lrank = r\<rparr>"
  "peer_rdat (example_env g) r =
     \<lparr>rd_addr = ''tcp://10.0.0.'' @ dec_int (r + 1) @ '':5000'', rd_grank = 2 * r + g mod 2\<rparr>"
  "peer_lroot (example_env g) r = 2 * (r div 2)"
  "barrier_returns (example_env g) c = True"
  "comm_split_ok (example_env g) c = True"
  "malloc_ok (example_env g) site = True"
  "HG_Init_ret (example_env g) a = 1"
  "HG_Context_create_ret (example_env g) cl = 2"
  "HG_Addr_self_ret (example_env g) ep = (HG_SUCCESS, 10)"
  "HG_Addr_lookup_ret (example_env g) ep a = HG_SUCCESS"
  "lookup_cb_info (example_env g) ep a = Some (HG_SUCCESS, 20 + length a)"
  "pthread_create_ret (example_env g) ep = 0"
  "getifaddrs_ret (example_env g) =
     Some [None, Some (2, 0, ''127.0.0.1''), Some (2, 0, ''10.0.0.1'')]"
  "socket_ret (example_env g) p = 3"
  "bind_ret (example_env g) p = 0"
  "getsockname_ret (example_env g) = (0, 40000)"
  by (simp_all add: example_env_def)

lemmas run_defs = replicate_unroll
  nexus_bootstrap_def nexus_destroy_def init_local_comm_def init_rep_comm_def
  discover_local_info_def local_endpoint_up_def local_exchange_def local_visit_def
  local_finish_def discover_remote_info_def remote_rankreps_def remote_endpoint_up_def
  remote_exchange_def remote_visit_def remote_finish_def prepare_addr_def port_fallback_def
  hg_lookup_def hg_lookup_cb_def HG_Addr_self_def MPI_Barrier_def MPI_Allgather_def
  and_then_def msg_abort_def call_def na_sm_addr_def dec_int_def dec_nat.simps in_int_def
  INT_MAX_def INT_MIN_def AF_INET_def build_rdat_def HG_ADDR_NULL_def Let_def
  signed_modulo_int_def upt_conv_Cons example_env_sel example_world_def

lemma all_less_two: "(\<forall>j<2. P j) \<longleftrightarrow> P (0::nat) \<and> P 1"
  by (auto simp: less_2_cases_iff)

lemma example_local_1:
  "discover_local_info (example_env 1) (example_world 1) =
     (Returns (),
      \<lparr>grank = 1, gsize = 4, lrank = 1, lsize = 2, lroot = 0, localranks = [0, 1], rankreps = [],
       laddrs = [(0, 33), (1, 10)], gaddrs = [], local_hgcl = 1, local_hgctx = 2, remote_hgcl = 0,
       remote_hgctx = 0,
       calls = [EvMPI_Comm_rank LOCALCOMM, EvMPI_Comm_size LOCALCOMM,
                EvHG_Init LOCAL_EP ''na+sm://101/0'', EvHG_Context_create LOCAL_EP,
                Ev_pthread_create LOCAL_EP, EvMPI_Allgather LOCALCOMM,
                EvHG_Addr_self LOCAL_EP, Ev_hg_lookup LOCAL_EP ''na+sm://100/0'',
                EvHG_Addr_lookup LOCAL_EP ''na+sm://100/0'', EvMPI_Barrier LOCALCOMM,
                Ev_set_bgdone LOCAL_EP, Ev_pthread_join LOCAL_EP]\<rparr>)"
  by (simp add: run_defs)

lemma example_remote_3:
  "discover_remote_info (example_env 3) ''tcp://10.0.0.2:5001'' (example_world 3) =
     (Returns (),
      \<lparr>grank = 3, gsize = 4, lrank = 0, lsize = 0, lroot = 0, localranks = [],
       rankreps = [0, 0, 2, 0], laddrs = [], gaddrs = [(1, 39), (3, 10)],
       local_hgcl = 0, local_hgctx = 0, remote_hgcl = 1, remote_hgctx = 2,
       calls = [EvMPI_Comm_rank REPCOMM, EvMPI_Comm_size REPCOMM,
          EvMPI_Allgather MPI_COMM_WORLD, EvHG_Init REMOTE_EP ''tcp://10.0.0.2:5001'',
          EvHG_Context_create REMOTE_EP, Ev_pthread_create REMOTE_EP,
          EvMPI_Allgather REPCOMM, EvHG_Addr_self REMOTE_EP,
          Ev_hg_lookup REMOTE_EP ''tcp://10.0.0.1:5000'',
          EvHG_Addr_lookup REMOTE_EP ''tcp://10.0.0.1:5000'',
          EvMPI_Barrier REPCOMM, Ev_set_bgdone REMOTE_EP, Ev_pthread_join REMOTE_EP]\<rparr>)"
  by (simp add: run_defs)

lemma example_local_hginfo_1:
  "local_hginfo (example_env 1) (example_world 1) =
     [\<lparr>ld_pid = 100, ld_hgid = 0, ld_grank = 0, ld_lrank = 0\<rparr>,
      \<lparr>ld_pid = 101, ld_hgid = 0, ld_grank = 1, ld_lrank = 1\<rparr>]"
  by (simp add: local_hginfo_def run_defs)

lemma example_remote_hginfo_3:
  "remote_hginfo (example_env 3) ''tcp://10.0.0.2:5001'' (example_world 3) =
     [\<lparr>rd_addr = ''tcp://10.0.0.1:5000'', rd_grank = 1\<rparr>,
      \<lparr>rd_addr = ''tcp://10.0.0.2:5001'', rd_grank = 3\<rparr>]"
  by (simp add: remote_hginfo_def run_defs rdat_addr_stores_def strncpy_stores_def
        store_bytes_def c_string_def)

lemma length_strncpy_stores: "length (strncpy_stores src n) = n"
  by (simp add: strncpy_stores_def)

lemma example_bootstrap_0:
  "nexus_bootstrap (example_env 0) 5000 5001 ''10.'' ''tcp'' (example_world 0) =
     (Returns NX_SUCCESS,
      \<lparr>grank = 0, gsize = 4, lrank = 0, lsize = 2, lroot = 0, localranks = [0, 1],
       rankreps = [0, 0, 2, 2], laddrs = [(0, 10), (1, 33)], gaddrs = [(0, 10), (2, 39)],
       local_hgcl = 1, local_hgctx = 2, remote_hgcl = 1, remote_hgctx = 2,
       calls =
        [EvMPI_Comm_rank MPI_COMM_WORLD, EvMPI_Comm_size MPI_COMM_WORLD, Ev_init_local_comm,
         EvMPI_Comm_rank LOCALCOMM, EvMPI_Comm_size LOCALCOMM,
         EvHG_Init LOCAL_EP ''na+sm://100/0'', EvHG_Context_create LOCAL_EP,
         Ev_pthread_create LOCAL_EP, EvMPI_Allgather LOCALCOMM, EvHG_Addr_self LOCAL_EP,
         Ev_hg_lookup LOCAL_EP ''na+sm://101/0'', EvHG_Addr_lookup LOCAL_EP ''na+sm://101/0'',
         EvMPI_Barrier LOCALCOMM, Ev_set_bgdone LOCAL_EP, Ev_pthread_join LOCAL_EP,
         Ev_getifaddrs, Ev_getnameinfo, Ev_getnameinfo, Ev_freeifaddrs,
         EvMPI_Comm_rank LOCALCOMM, EvMPI_Comm_size LOCALCOMM, Ev_socket, Ev_setsockopt,
         Ev_bind 5000, Ev_close, Ev_init_rep_comm, EvMPI_Comm_rank REPCOMM,
         EvMPI_Comm_size REPCOMM, EvMPI_Allgather MPI_COMM_WORLD,
         EvHG_Init REMOTE_EP ''tcp://10.0.0.1:5000'', EvHG_Context_create REMOTE_EP,
         Ev_pthread_create REMOTE_EP, EvMPI_Allgather REPCOMM, EvHG_Addr_self REMOTE_EP,
         Ev_hg_lookup REMOTE_EP ''tcp://10.0.0.2:5000'',
         EvHG_Addr_lookup REMOTE_EP ''tcp://10.0.0.2:5000'',
         EvMPI_Barrier REPCOMM, Ev_set_bgdone REMOTE_EP, Ev_pthread_join REMOTE_EP]\<rparr>)"
  by (simp add: run_defs)

lemma example_destroy_0:
  "fst (nexus_destroy (example_env 0)
     (snd (nexus_bootstrap (example_env 0) 5000 5001 ''10.'' ''tcp'' (example_world 0))))
   = Returns NX_SUCCESS"
  by (simp add: example_bootstrap_0) (simp add: run_defs)

subsection \<open>Calls added, whatever the outcome\<close>

lemma adds_refl: "adds P s (out, s)"
  by (simp add: adds_def)

lemma adds_call: "P e \<Longrightarrow> adds P s (out, call e s)"
  by (simp add: adds_def call_def)

lemma adds_msg_abort: "P (Ev_msg_abort m) \<Longrightarrow> adds P s (msg_abort m s)"
  by (simp add: adds_def msg_abort_def call_def)

lemma adds_trans:
  "calls s1 = calls s @ evs \<Longrightarrow> list_all P evs \<Longrightarrow> adds P s1 r \<Longrightarrow> adds P s r"
  by (auto simp: adds_def)

lemma adds_step: "adds P s (x, s1) \<Longrightarrow> adds P s1 r \<Longrightarrow> adds P s r"
  by (auto simp: adds_def)

lemma adds_mono: "adds P s r \<Longrightarrow> (\<And>e. P e \<Longrightarrow> Q e) \<Longrightarrow> adds Q s r"
  by (auto simp: adds_def list_all_iff)

lemma adds_outcome: "adds P s (out, s') \<Longrightarrow> adds P s (out', s')"
  by (simp add: adds_def)

lemma adds_and_then:
  assumes r: "adds P s r" and f: "\<And>x s1. adds P s1 (f x s1)"
  shows "adds P s (and_then r f)"
proof (cases r)
  case (Pair out s1)
  show ?thesis
  proof (cases out)
    case (Returns x)
    with Pair r have "adds P s (Returns x, s1)" by simp
    from adds_step [OF this f [of s1 x]] Pair Returns show ?thesis
      by (simp add: and_then_simps)
  next
    case (Aborts m)
    with Pair r show ?thesis by (simp add: and_then_simps adds_def)
  next
    case Blocks
    with Pair r show ?thesis by (simp add: and_then_simps adds_def)
  next
    case Undefined
    with Pair r show ?thesis by (simp add: and_then_simps adds_def)
  qed
qed

lemma staged_and_then:
  assumes r: "adds (\<lambda>e. P e \<and> quiet c ep e) s r" and f: "\<And>x s1. staged c ep P s1 (f x s1)"
  shows "staged c ep P s (and_then r f)"
proof (cases r)
  case (Pair out s1)
  from r Pair obtain e1 where
    e1: "calls s1 = calls s @ e1" "list_all (\<lambda>e. P e \<and> quiet c ep e) e1"
    by (auto simp: adds_def)
  show ?thesis
  proof (cases out)
    case (Returns x)
    from f [of s1 x] obtain e2 fin where
      e2: "calls (snd (f x s1)) = calls s1 @ e2 @ fin"
        "list_all (\<lambda>e. P e \<and> quiet c ep e) e2"
        "fin = [] \<and> (\<forall>y. fst (f x s1) \<noteq> Returns y) \<or>
         fin = [EvMPI_Barrier c, Ev_set_bgdone ep, Ev_pthread_join ep] \<and>
           (\<exists>y. fst (f x s1) = Returns y)"
      unfolding staged_def by blast
    from e1 e2 have "calls (snd (f x s1)) = calls s @ (e1 @ e2) @ fin \<and>
        list_all (\<lambda>e. P e \<and> quiet c ep e) (e1 @ e2)" by simp
    with e2(3) have "staged c ep P s (f x s1)"
      unfolding staged_def by blast
    with Pair Returns show ?thesis by (simp add: and_then_simps)
  next
    case (Aborts m)
    with e1 have "calls s1 = calls s @ e1 @ [] \<and> list_all (\<lambda>e. P e \<and> quiet c ep e) e1" by simp
    with Pair Aborts show ?thesis
      unfolding staged_def by (auto simp: and_then_simps)
  next
    case Blocks
    with e1 have "calls s1 = calls s @ e1 @ [] \<and> list_all (\<lambda>e. P e \<and> quiet c ep e) e1" by simp
    with Pair Blocks show ?thesis
      unfolding staged_def by (auto simp: and_then_simps)
  next
    case Undefined
    with e1 have "calls s1 = calls s @ e1 @ [] \<and> list_all (\<lambda>e. P e \<and> quiet c ep e) e1" by simp
    with Pair Undefined show ?thesis
      unfolding staged_def by (auto simp: and_then_simps)
  qed
qed

lemma adds_hg_lookup:
  "P (Ev_hg_lookup ep a) \<Longrightarrow> P (EvHG_Addr_lookup ep a) \<Longrightarrow> adds P s (hg_lookup env ep a s)"
  by (auto simp: adds_def hg_lookup_def Let_def call_def split: option.splits)

lemma adds_HG_Addr_self:
  "P (EvHG_Addr_self ep) \<Longrightarrow> adds P s (HG_Addr_self env ep s)"
  by (simp add: adds_def HG_Addr_self_def Let_def call_def)

lemma adds_local_endpoint_up:
  "adds (\<lambda>e. local_tier e \<and> quiet LOCALCOMM LOCAL_EP e) s (local_endpoint_up env s)"
  by (simp add: adds_def local_endpoint_up_def Let_def call_def msg_abort_def quiet_def)

lemma adds_local_exchange:
  "adds (\<lambda>e. local_tier e \<and> quiet LOCALCOMM LOCAL_EP e) s (local_exchange env s)"
  by (simp add: adds_def local_exchange_def Let_def call_def msg_abort_def quiet_def)

lemma adds_if: "adds P s a \<Longrightarrow> adds P s b \<Longrightarrow> adds P s (if c then a else b)"
  by simp

lemma adds_same: "calls s1 = calls s \<Longrightarrow> adds P s (out, s1)"
  by (simp add: adds_def)

lemma adds_case_option:
  "adds P s a \<Longrightarrow> (\<And>x. adds P s (b x)) \<Longrightarrow> adds P s (case v of None \<Rightarrow> a | Some x \<Rightarrow> b x)"
  by (cases v) simp_all

lemma adds_resolution:
  assumes "calls s2 = calls s" "P (EvHG_Addr_self ep)" "P (Ev_hg_lookup ep a)"
    "P (EvHG_Addr_lookup ep a)" "\<And>x s1. adds P s1 (f x s1)"
  shows "adds P s (and_then (if c then HG_Addr_self env ep s2 else hg_lookup env ep a s2) f)"
proof -
  have "adds P s2 (if c then HG_Addr_self env ep s2 else hg_lookup env ep a s2)"
    using assms(2-4) by (simp add: adds_hg_lookup adds_HG_Addr_self)
  from adds_and_then [OF this assms(5)] assms(1) show ?thesis
    by (simp add: adds_def)
qed

lemma adds_local_visit:
  "adds (\<lambda>e. local_tier e \<and> quiet LOCALCOMM LOCAL_EP e) s (local_visit env hginfo i s)"
  unfolding local_visit_def Let_def
  by (intro adds_if adds_same adds_resolution adds_msg_abort adds_case_option)
     (simp_all add: quiet_def)

lemma adds_local_loop:
  "adds (\<lambda>e. local_tier e \<and> quiet LOCALCOMM LOCAL_EP e) s (local_loop env hginfo is s)"
proof (induction "is" arbitrary: s)
  case Nil
  show ?case by (simp add: adds_refl)
next
  case (Cons i "is")
  show ?case
    by (simp, rule adds_and_then [OF adds_local_visit]) (rule Cons.IH)
qed

lemma staged_local_finish:
  "staged LOCALCOMM LOCAL_EP P s (local_finish env s)"
proof (cases "barrier_returns env LOCALCOMM")
  case True
  have "calls (snd (local_finish env s)) = calls s @ [] @
      [EvMPI_Barrier LOCALCOMM, Ev_set_bgdone LOCAL_EP, Ev_pthread_join LOCAL_EP] \<and>
     fst (local_finish env s) = Returns ()"
    using True by (simp add: local_finish_def MPI_Barrier_def and_then_simps call_def)
  then show ?thesis
    unfolding staged_def
    by (intro exI [of _ "[]"]
          exI [of _ "[EvMPI_Barrier LOCALCOMM, Ev_set_bgdone LOCAL_EP, Ev_pthread_join LOCAL_EP]"])
       simp
next
  case False
  have "calls (snd (local_finish env s)) = calls s @ [] @ [] \<and>
     fst (local_finish env s) = Blocks"
    using False by (simp add: local_finish_def MPI_Barrier_def and_then_simps)
  then show ?thesis
    unfolding staged_def
    by (intro exI [of _ "[]"]) simp
qed

lemma staged_discover_local_info:
  "staged LOCALCOMM LOCAL_EP local_tier s (discover_local_info env s)"
  unfolding discover_local_info_def
  by (intro staged_and_then adds_local_endpoint_up adds_local_exchange adds_local_loop
        staged_local_finish)

lemma adds_remote_rankreps:
  "adds (\<lambda>e. remote_tier e \<and> quiet REPCOMM REMOTE_EP e) s (remote_rankreps env s)"
  by (simp add: adds_def remote_rankreps_def Let_def call_def msg_abort_def quiet_def)

lemma adds_remote_endpoint_up:
  "adds (\<lambda>e. remote_tier e \<and> quiet REPCOMM REMOTE_EP e) s (remote_endpoint_up env hgaddr s)"
  by (simp add: adds_def remote_endpoint_up_def Let_def call_def msg_abort_def quiet_def)

lemma adds_remote_exchange:
  "adds (\<lambda>e. remote_tier e \<and> quiet REPCOMM REMOTE_EP e) s (remote_exchange env hgaddr s)"
  by (simp add: adds_def remote_exchange_def Let_def call_def msg_abort_def quiet_def)

lemma adds_remote_visit:
  "adds (\<lambda>e. remote_tier e \<and> quiet REPCOMM REMOTE_EP e) s
     (remote_visit env hginfo rep_rank rep_size i s)"
  unfolding remote_visit_def Let_def
  by (intro adds_if adds_same adds_resolution adds_msg_abort adds_case_option)
     (simp_all add: quiet_def)

lemma adds_remote_loop:
  "adds (\<lambda>e. remote_tier e \<and> quiet REPCOMM REMOTE_EP e) s
     (remote_loop env hginfo rep_rank rep_size is s)"
proof (induction "is" arbitrary: s)
  case Nil
  show ?case by (simp add: adds_refl)
next
  case (Cons i "is")
  show ?case
    by (simp, rule adds_and_then [OF adds_remote_visit]) (rule Cons.IH)
qed

lemma staged_remote_finish:
  "staged REPCOMM REMOTE_EP P s (remote_finish env s)"
proof (cases "barrier_returns env REPCOMM")
  case True
  have "calls (snd (remote_finish env s)) = calls s @ [] @
      [EvMPI_Barrier REPCOMM, Ev_set_bgdone REMOTE_EP, Ev_pthread_join REMOTE_EP] \<and>
     fst (remote_finish env s) = Returns ()"
    using True by (simp add: remote_finish_def MPI_Barrier_def and_then_simps call_def)
  then show ?thesis
    unfolding staged_def
    by (intro exI [of _ "[]"]
          exI [of _ "[EvMPI_Barrier REPCOMM, Ev_set_bgdone REMOTE_EP, Ev_pthread_join REMOTE_EP]"])
       simp
next
  case False
  have "calls (snd (remote_finish env s)) = calls s @ [] @ [] \<and>
     fst (remote_finish env s) = Blocks"
    using False by (simp add: remote_finish_def MPI_Barrier_def and_then_simps)
  then show ?thesis
    unfolding staged_def
    by (intro exI [of _ "[]"]) simp
qed

lemma staged_discover_remote_info:
  "staged REPCOMM REMOTE_EP remote_tier s (discover_remote_info env hgaddr s)"
  unfolding discover_remote_info_def
  by (intro staged_and_then adds_remote_rankreps adds_remote_endpoint_up adds_remote_exchange
        adds_remote_loop staged_remote_finish)

subsection \<open>Barrier before teardown\<close>

lemma barrier_then_stop_quiet:
  "list_all (\<lambda>e. quiet c ep e \<and> (seen \<longrightarrow> \<not> resolving ep e)) evs \<Longrightarrow>
     barrier_then_stop c ep seen (evs @ rest) = barrier_then_stop c ep seen rest"
  by (induction evs) (auto simp: quiet_def)

lemma staged_barrier_then_stop:
  assumes "staged c ep P s r"
  shows "barrier_then_stop c ep False (made s (snd r))"
proof -
  from assms obtain evs fin where
    c: "calls (snd r) = calls s @ evs @ fin" and
    q: "list_all (\<lambda>e. P e \<and> quiet c ep e) evs" and
    f: "fin = [] \<or> fin = [EvMPI_Barrier c, Ev_set_bgdone ep, Ev_pthread_join ep]"
    unfolding staged_def by blast
  from c have m: "made s (snd r) = evs @ fin" by (rule made_append)
  from q have "list_all (\<lambda>e. quiet c ep e \<and> (False \<longrightarrow> \<not> resolving ep e)) evs"
    by (simp add: list_all_iff)
  from barrier_then_stop_quiet [OF this]
  have "barrier_then_stop c ep False (evs @ fin) = barrier_then_stop c ep False fin" .
  with f m show ?thesis by auto
qed

subsection \<open>Barrier before teardown, across a group\<close>

lemma member_calls_Cons:
  "member_calls m' ((m, e) # sched) =
     (if m' = m then e # member_calls m' sched else member_calls m' sched)"
  by (simp add: member_calls_def)

lemma barrier_then_stop_prefix:
  "barrier_then_stop c ep seen (evs @ rest) \<Longrightarrow> barrier_then_stop c ep seen evs"
  by (induction evs arbitrary: seen) (auto split: if_splits)

lemma group_never_stopped_early:
  assumes "\<And>m. barrier_then_stop c ep (m \<in> set released) (member_calls m sched)"
    and "barrier_synchronised c released sched"
    and "stopped \<longrightarrow> released \<noteq> []"
  shows "no_resolution_after_stop ep stopped sched"
  using assms
proof (induction sched arbitrary: released stopped)
  case Nil
  show ?case by simp
next
  case (Cons x sched)
  obtain m e where x: "x = (m, e)" by (cases x)
  note mon = Cons.prems(1) [unfolded x member_calls_Cons]
  show ?case
  proof (cases "e = EvMPI_Barrier c")
    case True
    have "barrier_then_stop c ep (m' \<in> set (m # released)) (member_calls m' sched)" for m'
      using mon [of m'] True by (cases "m' = m") simp_all
    moreover from Cons.prems(2) x True have "barrier_synchronised c (m # released) sched"
      by simp
    ultimately have "no_resolution_after_stop ep stopped sched"
      by (intro Cons.IH [of "m # released"]) simp_all
    with x True show ?thesis by simp
  next
    case nb: False
    with Cons.prems(2) x have rel: "released = [] \<or> m \<in> set released"
      and sync: "barrier_synchronised c released sched"
      by simp_all
    show ?thesis
    proof (cases "e = Ev_set_bgdone ep \<or> e = Ev_pthread_join ep")
      case True
      with mon [of m] nb have "m \<in> set released" by auto
      then have ne: "released \<noteq> []" by auto
      have "barrier_then_stop c ep (m' \<in> set released) (member_calls m' sched)" for m'
        using mon [of m'] True nb by (cases "m' = m") auto
      with sync ne have "no_resolution_after_stop ep True sched"
        by (intro Cons.IH [of released]) simp_all
      with x True show ?thesis by simp
    next
      case ns: False
      have rest: "barrier_then_stop c ep (m' \<in> set released) (member_calls m' sched)" for m'
        using mon [of m'] ns nb by (cases "m' = m") (auto split: if_splits)
      from sync rest Cons.prems(3) have ih: "no_resolution_after_stop ep stopped sched"
        by (intro Cons.IH [of released]) simp_all
      have "stopped \<longrightarrow> \<not> resolving ep e"
      proof (intro impI notI)
        assume st: stopped and r: "resolving ep e"
        from mon [of m] ns nb r have "m \<notin> set released" by auto
        with rel have "released = []" by simp
        with st Cons.prems(3) show False by simp
      qed
      with ih x ns show ?thesis by simp
    qed
  qed
qed

lemma example_local_made:
  "made (example_world 0) (snd (discover_local_info (example_env 0) (example_world 0))) =
     [EvMPI_Comm_rank LOCALCOMM, EvMPI_Comm_size LOCALCOMM,
      EvHG_Init LOCAL_EP ''na+sm://100/0'', EvHG_Context_create LOCAL_EP,
      Ev_pthread_create LOCAL_EP, EvMPI_Allgather LOCALCOMM, EvHG_Addr_self LOCAL_EP,
      Ev_hg_lookup LOCAL_EP ''na+sm://101/0'', EvHG_Addr_lookup LOCAL_EP ''na+sm://101/0'',
      EvMPI_Barrier LOCALCOMM, Ev_set_bgdone LOCAL_EP, Ev_pthread_join LOCAL_EP]"
  "made (example_world 1) (snd (discover_local_info (example_env 1) (example_world 1))) =
     [EvMPI_Comm_rank LOCALCOMM, EvMPI_Comm_size LOCALCOMM,
      EvHG_Init LOCAL_EP ''na+sm://101/0'', EvHG_Context_create LOCAL_EP,
      Ev_pthread_create LOCAL_EP, EvMPI_Allgather LOCALCOMM, EvHG_Addr_self LOCAL_EP,
      Ev_hg_lookup LOCAL_EP ''na+sm://100/0'', EvHG_Addr_lookup LOCAL_EP ''na+sm://100/0'',
      EvMPI_Barrier LOCALCOMM, Ev_set_bgdone LOCAL_EP, Ev_pthread_join LOCAL_EP]"
  by (simp_all add: made_def run_defs)

lemma example_remote_made:
  "made (example_world 0)
     (snd (discover_remote_info (example_env 0) ''tcp://10.0.0.1:5000'' (example_world 0))) =
     [EvMPI_Comm_rank REPCOMM, EvMPI_Comm_size REPCOMM, EvMPI_Allgather MPI_COMM_WORLD,
      EvHG_Init REMOTE_EP ''tcp://10.0.0.1:5000'', EvHG_Context_create REMOTE_EP,
      Ev_pthread_create REMOTE_EP, EvMPI_Allgather REPCOMM, EvHG_Addr_self REMOTE_EP,
      Ev_hg_lookup REMOTE_EP ''tcp://10.0.0.2:5000'',
      EvHG_Addr_lookup REMOTE_EP ''tcp://10.0.0.2:5000'',
      EvMPI_Barrier REPCOMM, Ev_set_bgdone REMOTE_EP, Ev_pthread_join REMOTE_EP]"
  "made (example_world 2)
     (snd (discover_remote_info (example_env 2) ''tcp://10.0.0.2:5000'' (example_world 2))) =
     [EvMPI_Comm_rank REPCOMM, EvMPI_Comm_size REPCOMM, EvMPI_Allgather MPI_COMM_WORLD,
      EvHG_Init REMOTE_EP ''tcp://10.0.0.2:5000'', EvHG_Context_create REMOTE_EP,
      Ev_pthread_create REMOTE_EP, EvMPI_Allgather REPCOMM, EvHG_Addr_self REMOTE_EP,
      Ev_hg_lookup REMOTE_EP ''tcp://10.0.0.1:5000'',
      EvHG_Addr_lookup REMOTE_EP ''tcp://10.0.0.1:5000'',
      EvMPI_Barrier REPCOMM, Ev_set_bgdone REMOTE_EP, Ev_pthread_join REMOTE_EP]"
  by (simp_all add: made_def run_defs)

subsection \<open>How the loops end\<close>

lemma hg_lookup_ends:
  "fst (hg_lookup env ep a s) =
     (case lookup_code env ep a of
        None \<Rightarrow> Blocks
      | Some c \<Rightarrow> Returns (c, if c = HG_SUCCESS then looked_up env ep a else None))"
  by (auto simp: hg_lookup_def lookup_code_def looked_up_def hg_lookup_cb_def Let_def
      split: option.splits)

lemma hg_lookup_success_Some:
  "lookup_code env ep a = Some HG_SUCCESS \<Longrightarrow> looked_up env ep a \<noteq> None"
  by (auto simp: lookup_code_def looked_up_def split: if_splits option.splits)

lemma HG_Addr_self_ends:
  "fst (HG_Addr_self env ep s) =
     Returns (fst (HG_Addr_self_ret env ep),
              if fst (HG_Addr_self_ret env ep) = HG_SUCCESS
              then Some (snd (HG_Addr_self_ret env ep)) else None)"
  by (simp add: HG_Addr_self_def Let_def)

lemma fst_and_then:
  "fst (and_then r f) =
     (case fst r of Returns x \<Rightarrow> fst (f x (snd r)) | Aborts m \<Rightarrow> Aborts m
      | Blocks \<Rightarrow> Blocks | Undefined \<Rightarrow> Undefined)"
  by (cases r; cases "fst r") (auto simp: and_then_def)

lemma local_visit_ends:
  "fst (local_visit env hginfo i s) = Undefined \<or>
   fst (local_visit env hginfo i s) =
     resolve_all [local_peer_code env (grank s) (local_peer s hginfo i)]"
proof (cases "fst (local_visit env hginfo i s) = Undefined")
  case True
  then show ?thesis by simp
next
  case False
  define h where "h = local_peer s hginfo i"
  define s1 where "s1 = (if ld_lrank h = 0 then s\<lparr>lroot := ld_grank h\<rparr> else s)"
  define s2 where "s2 = s1\<lparr>localranks := (localranks s1)[nat (ld_lrank h) := ld_grank h]\<rparr>"
  define hgaddr where "hgaddr = na_sm_addr (ld_pid h) (ld_hgid h)"
  from False have v: "local_visit env hginfo i s =
      and_then (if ld_grank h = grank s2 then HG_Addr_self env LOCAL_EP s2
                else hg_lookup env LOCAL_EP hgaddr s2)
       (\<lambda>r s3. if fst r \<noteq> HG_SUCCESS then msg_abort ''hg_lookup failed'' s3
                else (case snd r of None \<Rightarrow> (Undefined, s3)
                      | Some localaddr \<Rightarrow>
                         (Returns (), s3\<lparr>laddrs := map_set (ld_grank h) localaddr (laddrs s3)\<rparr>)))"
    unfolding local_visit_def Let_def h_def local_peer_def s1_def s2_def hgaddr_def
    by (auto split: if_splits)
  have g: "grank s2 = grank s" by (simp add: s2_def s1_def)
  show ?thesis
  proof (cases "ld_grank h = grank s")
    case True
    then show ?thesis
      unfolding v h_def [symmetric]
      by (simp add: g fst_and_then HG_Addr_self_ends local_peer_code_def msg_abort_def)
  next
    case False
    then show ?thesis
      unfolding v h_def [symmetric]
      by (auto simp: g fst_and_then hg_lookup_ends local_peer_code_def msg_abort_def
            hgaddr_def dest: hg_lookup_success_Some split: option.splits)
  qed
qed

lemma resolve_all_Cons:
  "resolve_all (c # cs) =
     (case resolve_all [c] of Returns x \<Rightarrow> resolve_all cs | Aborts m \<Rightarrow> Aborts m
      | Blocks \<Rightarrow> Blocks | Undefined \<Rightarrow> Undefined)"
  by (cases c) simp_all

lemma local_loop_ends:
  "fst (local_loop env hginfo is s) = Undefined \<or>
   fst (local_loop env hginfo is s) =
     resolve_all (map (\<lambda>i. local_peer_code env (grank s) (local_peer s hginfo i)) is)"
proof (induction "is" arbitrary: s)
  case Nil
  show ?case by simp
next
  case (Cons i "is")
  obtain out s1 where v: "local_visit env hginfo i s = (out, s1)"
    by (cases "local_visit env hginfo i s")
  from local_visit_ends [of env hginfo i s] v
  have o: "out = Undefined \<or>
           out = resolve_all [local_peer_code env (grank s) (local_peer s hginfo i)]"
    by simp
  show ?case
  proof (cases out)
    case (Returns x)
    with v have vr: "local_visit env hginfo i s = (Returns (), s1)" by simp
    from local_visit_frame [OF vr]
    have f: "grank s1 = grank s" "\<And>k. local_peer s1 hginfo k = local_peer s hginfo k"
      by (simp_all add: local_peer_def)
    from o Returns
    have "resolve_all [local_peer_code env (grank s) (local_peer s hginfo i)] = Returns ()"
      by simp
    then have "resolve_all (map (\<lambda>i. local_peer_code env (grank s) (local_peer s hginfo i)) (i # is))
        = resolve_all (map (\<lambda>i. local_peer_code env (grank s) (local_peer s hginfo i)) is)"
      by (simp add: resolve_all_Cons [of _ "map _ is"])
    with Cons.IH [of s1] f vr show ?thesis
      by (simp add: and_then_simps)
  next
    case (Aborts m)
    with o have r: "resolve_all [local_peer_code env (grank s) (local_peer s hginfo i)] = Aborts m"
      by simp
    have "fst (local_loop env hginfo (i # is) s) = Aborts m"
      using v Aborts by (simp add: and_then_simps)
    moreover have
      "resolve_all (map (\<lambda>i. local_peer_code env (grank s) (local_peer s hginfo i)) (i # is))
         = Aborts m"
      using r by (simp add: resolve_all_Cons [of _ "map _ is"])
    ultimately show ?thesis by simp
  next
    case Blocks
    with o have r: "resolve_all [local_peer_code env (grank s) (local_peer s hginfo i)] = Blocks"
      by simp
    have "fst (local_loop env hginfo (i # is) s) = Blocks"
      using v Blocks by (simp add: and_then_simps)
    moreover have
      "resolve_all (map (\<lambda>i. local_peer_code env (grank s) (local_peer s hginfo i)) (i # is))
         = Blocks"
      using r by (simp add: resolve_all_Cons [of _ "map _ is"])
    ultimately show ?thesis by simp
  next
    case Undefined
    with v show ?thesis by (simp add: and_then_simps)
  qed
qed

lemma resolve_all_Returns:
  "resolve_all cs = Returns () \<longleftrightarrow> (\<forall>c\<in>set cs. c = Some HG_SUCCESS)"
proof (induction cs)
  case Nil
  show ?case by simp
next
  case (Cons c cs)
  then show ?case by (cases c) auto
qed

lemma local_endpoint_up_ends:
  "(\<exists>s1. local_endpoint_up env s = (Returns (), s1)) \<or>
   (\<exists>m. fst (local_endpoint_up env s) = Aborts m)"
  by (simp add: local_endpoint_up_def Let_def msg_abort_def)

lemma local_exchange_ends:
  "(\<exists>h s1. local_exchange env s = (Returns h, s1)) \<or>
   (\<exists>m. fst (local_exchange env s) = Aborts m)"
  by (simp add: local_exchange_def Let_def msg_abort_def)

lemma local_peer_visited:
  "lrank s2 = mpi_rank env LOCALCOMM \<Longrightarrow> lsize s2 = mpi_size env LOCALCOMM \<Longrightarrow>
     local_peer s2 (local_hginfo env s) i = local_visited env s i"
  by (simp add: local_peer_def local_visited_def)

lemma local_discovery_complete:
  assumes run: "discover_local_info env s = (Returns (), s')"
    and i: "0 \<le> i" "i < mpi_size env LOCALCOMM"
  shows "local_peer_code env (grank s) (local_visited env s i) = Some HG_SUCCESS \<and>
         ld_grank (local_visited env s i) \<in> dom (map_of (laddrs s'))"
proof -
  from discover_local_info_ReturnsD [OF run] obtain s2 s3 where
    f: "lrank s2 = mpi_rank env LOCALCOMM" "lsize s2 = mpi_size env LOCALCOMM"
       "grank s2 = grank s" and
    lo: "local_loop env (local_hginfo env s) (map int [0..<nat (mpi_size env LOCALCOMM)]) s2
           = (Returns (), s3)" and
    s': "s' = s3\<lparr>calls := calls s3 @
            [EvMPI_Barrier LOCALCOMM, Ev_set_bgdone LOCAL_EP, Ev_pthread_join LOCAL_EP]\<rparr>"
    by blast
  from i have mem: "i \<in> set (map int [0..<nat (mpi_size env LOCALCOMM)])"
    by (auto simp: image_iff intro: bexI [of _ "nat i"])
  from local_loop_ends [of env "local_hginfo env s"
      "map int [0..<nat (mpi_size env LOCALCOMM)]" s2] lo
  have "resolve_all (map (\<lambda>i. local_peer_code env (grank s2)
           (local_peer s2 (local_hginfo env s) i)) (map int [0..<nat (mpi_size env LOCALCOMM)]))
        = Returns ()"
    by (simp del: map_map)
  with mem have "local_peer_code env (grank s2) (local_peer s2 (local_hginfo env s) i)
      = Some HG_SUCCESS"
    unfolding resolve_all_Returns by auto
  moreover from local_loop_resolved [OF lo mem]
  have "ld_grank (local_peer s2 (local_hginfo env s) i) \<in> dom (map_of (laddrs s3))"
    by simp
  ultimately show ?thesis
    using f s' by (simp add: local_peer_visited)
qed

lemma remote_visit_ends:
  "fst (remote_visit env hginfo rep_rank rep_size i s) = Undefined \<or>
   fst (remote_visit env hginfo rep_rank rep_size i s) =
     resolve_all [remote_peer_code env (grank s) (remote_peer rep_rank rep_size hginfo i)]"
proof (cases "fst (remote_visit env hginfo rep_rank rep_size i s) = Undefined")
  case True
  then show ?thesis by simp
next
  case False
  define h where "h = remote_peer rep_rank rep_size hginfo i"
  from False have v: "remote_visit env hginfo rep_rank rep_size i s =
      and_then (if rd_grank h = grank s then HG_Addr_self env REMOTE_EP s
                else hg_lookup env REMOTE_EP (rd_addr h) s)
       (\<lambda>r s1. if fst r \<noteq> HG_SUCCESS then msg_abort ''hg_lookup failed'' s1
                else (case snd r of None \<Rightarrow> (Undefined, s1)
                      | Some remoteaddr \<Rightarrow>
                         (Returns (), s1\<lparr>gaddrs := map_set (rd_grank h) remoteaddr (gaddrs s1)\<rparr>)))"
    unfolding remote_visit_def Let_def h_def remote_peer_def
    by (auto split: if_splits)
  show ?thesis
  proof (cases "rd_grank h = grank s")
    case True
    then show ?thesis
      unfolding v h_def [symmetric]
      by (simp add: fst_and_then HG_Addr_self_ends remote_peer_code_def msg_abort_def)
  next
    case False
    then show ?thesis
      unfolding v h_def [symmetric]
      by (auto simp: fst_and_then hg_lookup_ends remote_peer_code_def msg_abort_def
            dest: hg_lookup_success_Some split: option.splits)
  qed
qed

lemma remote_loop_ends:
  "fst (remote_loop env hginfo rep_rank rep_size is s) = Undefined \<or>
   fst (remote_loop env hginfo rep_rank rep_size is s) =
     resolve_all (map (\<lambda>i. remote_peer_code env (grank s)
                           (remote_peer rep_rank rep_size hginfo i)) is)"
proof (induction "is" arbitrary: s)
  case Nil
  show ?case by simp
next
  case (Cons i "is")
  obtain out s1 where v: "remote_visit env hginfo rep_rank rep_size i s = (out, s1)"
    by (cases "remote_visit env hginfo rep_rank rep_size i s")
  from remote_visit_ends [of env hginfo rep_rank rep_size i s] v
  have o: "out = Undefined \<or>
           out = resolve_all [remote_peer_code env (grank s)
                                (remote_peer rep_rank rep_size hginfo i)]"
    by simp
  show ?case
  proof (cases out)
    case (Returns x)
    with v have vr: "remote_visit env hginfo rep_rank rep_size i s = (Returns (), s1)" by simp
    from remote_visit_frame [OF vr] have f: "grank s1 = grank s" by simp
    from o Returns
    have "resolve_all [remote_peer_code env (grank s) (remote_peer rep_rank rep_size hginfo i)]
            = Returns ()"
      by simp
    then have "resolve_all (map (\<lambda>i. remote_peer_code env (grank s)
                  (remote_peer rep_rank rep_size hginfo i)) (i # is))
        = resolve_all (map (\<lambda>i. remote_peer_code env (grank s)
                  (remote_peer rep_rank rep_size hginfo i)) is)"
      by (simp add: resolve_all_Cons [of _ "map _ is"])
    with Cons.IH [of s1] f vr show ?thesis
      by (simp add: and_then_simps)
  next
    case (Aborts m)
    with o have r: "resolve_all [remote_peer_code env (grank s)
        (remote_peer rep_rank rep_size hginfo i)] = Aborts m"
      by simp
    have "fst (remote_loop env hginfo rep_rank rep_size (i # is) s) = Aborts m"
      using v Aborts by (simp add: and_then_simps)
    moreover have
      "resolve_all (map (\<lambda>i. remote_peer_code env (grank s)
          (remote_peer rep_rank rep_size hginfo i)) (i # is)) = Aborts m"
      using r by (simp add: resolve_all_Cons [of _ "map _ is"])
    ultimately show ?thesis by simp
  next
    case Blocks
    with o have r: "resolve_all [remote_peer_code env (grank s)
        (remote_peer rep_rank rep_size hginfo i)] = Blocks"
      by simp
    have "fst (remote_loop env hginfo rep_rank rep_size (i # is) s) = Blocks"
      using v Blocks by (simp add: and_then_simps)
    moreover have
      "resolve_all (map (\<lambda>i. remote_peer_code env (grank s)
          (remote_peer rep_rank rep_size hginfo i)) (i # is)) = Blocks"
      using r by (simp add: resolve_all_Cons [of _ "map _ is"])
    ultimately show ?thesis by simp
  next
    case Undefined
    with v show ?thesis by (simp add: and_then_simps)
  qed
qed

lemma remote_rankreps_ends:
  "(\<exists>s1. remote_rankreps env s = (Returns (mpi_rank env REPCOMM, mpi_size env REPCOMM), s1)) \<or>
   (\<exists>m. fst (remote_rankreps env s) = Aborts m) \<or> fst (remote_rankreps env s) = Undefined"
  by (simp add: remote_rankreps_def Let_def msg_abort_def)

lemma remote_endpoint_up_ends:
  "(\<exists>s1. remote_endpoint_up env hgaddr s = (Returns (), s1)) \<or>
   (\<exists>m. fst (remote_endpoint_up env hgaddr s) = Aborts m)"
  by (simp add: remote_endpoint_up_def Let_def msg_abort_def)

lemma remote_exchange_ends:
  "(\<exists>h s1. remote_exchange env hgaddr s = (Returns h, s1)) \<or>
   (\<exists>m. fst (remote_exchange env hgaddr s) = Aborts m)"
  by (simp add: remote_exchange_def Let_def msg_abort_def)

lemma remote_peer_visited:
  "remote_peer (mpi_rank env REPCOMM) (mpi_size env REPCOMM) (remote_hginfo env hgaddr s) i =
     remote_visited env hgaddr s i"
  by (simp add: remote_peer_def remote_visited_def)

lemma remote_discovery_complete:
  assumes run: "discover_remote_info env hgaddr s = (Returns (), s')"
    and i: "0 \<le> i" "i < mpi_size env REPCOMM"
  shows "remote_peer_code env (grank s) (remote_visited env hgaddr s i) = Some HG_SUCCESS \<and>
         rd_grank (remote_visited env hgaddr s i) \<in> dom (map_of (gaddrs s'))"
proof -
  from discover_remote_info_ReturnsD [OF run] obtain s3 s4 where
    f: "grank s3 = grank s" and
    lo: "remote_loop env (remote_hginfo env hgaddr s) (mpi_rank env REPCOMM)
           (mpi_size env REPCOMM) (map int [0..<nat (mpi_size env REPCOMM)]) s3
           = (Returns (), s4)" and
    s': "s' = s4\<lparr>calls := calls s4 @
            [EvMPI_Barrier REPCOMM, Ev_set_bgdone REMOTE_EP, Ev_pthread_join REMOTE_EP]\<rparr>"
    by blast
  from i have mem: "i \<in> set (map int [0..<nat (mpi_size env REPCOMM)])"
    by (auto simp: image_iff intro: bexI [of _ "nat i"])
  from remote_loop_ends [of env "remote_hginfo env hgaddr s" "mpi_rank env REPCOMM"
      "mpi_size env REPCOMM" "map int [0..<nat (mpi_size env REPCOMM)]" s3] lo
  have "resolve_all (map (\<lambda>i. remote_peer_code env (grank s3)
           (remote_peer (mpi_rank env REPCOMM) (mpi_size env REPCOMM)
              (remote_hginfo env hgaddr s) i)) (map int [0..<nat (mpi_size env REPCOMM)]))
        = Returns ()"
    by (simp del: map_map)
  with mem have "remote_peer_code env (grank s3)
      (remote_peer (mpi_rank env REPCOMM) (mpi_size env REPCOMM)
         (remote_hginfo env hgaddr s) i) = Some HG_SUCCESS"
    unfolding resolve_all_Returns by auto
  moreover from remote_loop_resolved [OF lo mem]
  have "rd_grank (remote_peer (mpi_rank env REPCOMM) (mpi_size env REPCOMM)
          (remote_hginfo env hgaddr s) i) \<in> dom (map_of (gaddrs s4))"
    by simp
  ultimately show ?thesis
    using f s' by (simp add: remote_peer_visited)
qed

lemma unreachable_env_sel:
  "getpid_ret (unreachable_env g) = 100 + g"
  "mpi_rank (unreachable_env g) c =
     (case c of MPI_COMM_WORLD \<Rightarrow> g | LOCALCOMM \<Rightarrow> g mod 2 | REPCOMM \<Rightarrow> g div 2)"
  "mpi_size (unreachable_env g) c = (case c of MPI_COMM_WORLD \<Rightarrow> 4 | LOCALCOMM \<Rightarrow> 2 | REPCOMM \<Rightarrow> 2)"
  "peer_ldat (unreachable_env g) r =
     \<lparr>ld_pid = 100 + (2 * (g div 2) + r), ld_hgid = 0, ld_grank = 2 * (g div 2) + r, ld_lrank = r\<rparr>"
  "peer_rdat (unreachable_env g) r =
     \<lparr>rd_addr = ''tcp://10.0.0.'' @ dec_int (r + 1) @ '':5000'', rd_grank = 2 * r + g mod 2\<rparr>"
  "peer_lroot (unreachable_env g) r = 2 * (r div 2)"
  "malloc_ok (unreachable_env g) site = True"
  "HG_Init_ret (unreachable_env g) a = 1"
  "HG_Context_create_ret (unreachable_env g) cl = 2"
  "HG_Addr_self_ret (unreachable_env g) ep = (HG_SUCCESS, 10)"
  "HG_Addr_lookup_ret (unreachable_env g) ep a = HG_SUCCESS"
  "lookup_cb_info (unreachable_env g) ep a = Some (HG_OTHER_ERROR 11, HG_ADDR_NULL)"
  "pthread_create_ret (unreachable_env g) ep = 0"
  by (simp_all add: unreachable_env_def example_env_sel)

lemma unreachable_local_codes:
  "map (\<lambda>i. local_peer_code (unreachable_env 1) (grank (example_world 1))
              (local_visited (unreachable_env 1) (example_world 1) i))
     (map int [0..<nat (mpi_size (unreachable_env 1) LOCALCOMM)]) =
   [Some HG_SUCCESS, Some (HG_OTHER_ERROR 11)]"
  by (simp add: unreachable_env_sel upt_conv_Cons local_peer_code_def local_visited_def
        local_hginfo_def MPI_Allgather_def lookup_code_def example_world_def
        signed_modulo_int_def)

lemma unreachable_remote_codes:
  "map (\<lambda>i. remote_peer_code (unreachable_env 3) (grank (example_world 3))
              (remote_visited (unreachable_env 3) ''tcp://10.0.0.2:5001'' (example_world 3) i))
     (map int [0..<nat (mpi_size (unreachable_env 3) REPCOMM)]) =
   [Some HG_SUCCESS, Some (HG_OTHER_ERROR 11)]"
  by (simp add: unreachable_env_sel upt_conv_Cons remote_peer_code_def remote_visited_def
        remote_hginfo_def MPI_Allgather_def lookup_code_def example_world_def
        signed_modulo_int_def build_rdat_def)

lemma example_local_codes:
  "local_peer_code (example_env 1) (grank (example_world 1))
      (local_visited (example_env 1) (example_world 1) 1) = Some HG_SUCCESS"
  by (simp add: example_env_sel local_peer_code_def local_visited_def
        local_hginfo_def MPI_Allgather_def lookup_code_def example_world_def
        signed_modulo_int_def upt_conv_Cons)

subsection \<open>The port check\<close>

lemma adds_made: "adds P s r \<Longrightarrow> list_all P (made s (snd r))"
  by (auto simp: adds_def made_def)

lemma staged_adds:
  assumes "staged c ep P s r" "\<And>e. P e \<Longrightarrow> Q e"
    "Q (EvMPI_Barrier c)" "Q (Ev_set_bgdone ep)" "Q (Ev_pthread_join ep)"
  shows "adds Q s r"
proof -
  from assms(1) obtain evs fin where
    c: "calls (snd r) = calls s @ evs @ fin" and
    q: "list_all (\<lambda>e. P e \<and> quiet c ep e) evs" and
    f: "fin = [] \<or> fin = [EvMPI_Barrier c, Ev_set_bgdone ep, Ev_pthread_join ep]"
    unfolding staged_def by blast
  from q assms(2) have "list_all Q evs" by (auto simp: list_all_iff)
  moreover from f assms(3-5) have "list_all Q fin" by auto
  ultimately have "list_all Q (evs @ fin)" by simp
  with c show ?thesis unfolding adds_def by (intro exI [of _ "evs @ fin"]) simp
qed

lemma adds_and_then_stop:
  assumes "adds P s r" "\<And>x. fst r \<noteq> Returns x"
  shows "adds P s (and_then r f)"
proof -
  have "snd (and_then r f) = snd r"
    using assms(2) by (cases r; cases "fst r") (auto simp: and_then_def)
  with assms(1) show ?thesis by (simp add: adds_def)
qed

lemma adds_find_ifaddr: "adds ifaddr_query s (find_ifaddr subnet ifs s)"
proof (induction subnet ifs s rule: find_ifaddr.induct)
  case (1 subnet s)
  show ?case by (simp add: adds_refl)
next
  case (2 subnet ifs s)
  then show ?case by simp
next
  case (3 subnet family ret ip ifs s)
  have c: "adds ifaddr_query s (x, call Ev_getnameinfo s)" for x :: "string option outcome"
    by (rule adds_call) simp
  show ?case
  proof (cases "family = AF_INET")
    case False
    with 3 show ?thesis by simp
  next
    case True
    note fam = True
    show ?thesis
    proof (cases "ret = - 1")
      case True
      have "adds ifaddr_query (call Ev_getnameinfo s)
              (msg_abort ''getnameinfo failed'' (call Ev_getnameinfo s))"
        by (rule adds_msg_abort) simp
      from adds_step [OF c this] fam True show ?thesis by (simp add: Let_def)
    next
      case False
      note r = False
      show ?thesis
      proof (cases "take (length subnet) ip = subnet")
        case True
        with fam r c show ?thesis by (simp add: Let_def)
      next
        case False
        from 3(1) [OF fam refl r False]
        have "adds ifaddr_query (call Ev_getnameinfo s)
                (find_ifaddr subnet ifs (call Ev_getnameinfo s))" .
        from adds_step [OF c this] fam r False show ?thesis by (simp add: Let_def)
      qed
    qed
  qed
qed

lemma find_ifaddr_ends:
  "(\<exists>cur. fst (find_ifaddr subnet ifs s) = Returns cur) \<or>
   fst (find_ifaddr subnet ifs s) = Aborts ''getnameinfo failed''"
  by (induction subnet ifs s rule: find_ifaddr.induct)
     (auto simp: Let_def msg_abort_def)

lemma prepare_addr_bad_ports_outcome:
  assumes "bad_ports minport maxport"
  shows "fst (prepare_addr env minport maxport subnet proto s) = Undefined \<and>
           \<not> in_int (maxport - minport) \<or>
         (\<exists>m \<in> set port_check_aborts.
            fst (prepare_addr env minport maxport subnet proto s) = Aborts m)"
proof (cases "getifaddrs_ret env")
  case None
  then show ?thesis
    by (simp add: prepare_addr_def Let_def msg_abort_def port_check_aborts_def)
next
  case (Some ifaddr)
  from find_ifaddr_ends [of subnet ifaddr "call Ev_getifaddrs s"] show ?thesis
  proof
    assume "fst (find_ifaddr subnet ifaddr (call Ev_getifaddrs s)) = Aborts ''getnameinfo failed''"
    with Some show ?thesis
      by (simp add: prepare_addr_def Let_def fst_and_then port_check_aborts_def)
  next
    assume "\<exists>cur. fst (find_ifaddr subnet ifaddr (call Ev_getifaddrs s)) = Returns cur"
    then obtain cur where
      "fst (find_ifaddr subnet ifaddr (call Ev_getifaddrs s)) = Returns cur" by blast
    note r = this
    have bad: "maxport - minport < 0 \<or> minport < 1 \<or> maxport > 65535"
      using assms by (auto simp: bad_ports_def)
    show ?thesis
    proof (cases cur)
      case None
      with Some r show ?thesis
        by (simp add: prepare_addr_def Let_def fst_and_then port_check_aborts_def msg_abort_def
              del: probe_ports.simps)
    next
      case ip: (Some ip)
      have "fst (prepare_addr env minport maxport subnet proto s) =
         (if \<not> in_int (maxport - minport) then Undefined
          else if maxport - minport < 0 then Aborts ''bad min-max port''
          else if minport < 1 then Aborts ''bad min port''
          else Aborts ''bad max port'')"
        using Some r ip bad
        by (auto simp: prepare_addr_def Let_def fst_and_then msg_abort_def
              simp del: probe_ports.simps)
      then show ?thesis
        by (simp add: port_check_aborts_def)
    qed
  qed
qed

lemma prepare_addr_bad_ports_never_returns:
  "bad_ports minport maxport \<Longrightarrow>
     fst (prepare_addr env minport maxport subnet proto s) \<noteq> Returns x"
  using prepare_addr_bad_ports_outcome [of minport maxport env subnet proto s]
  by auto

lemma adds_prepare_addr_bad_ports:
  assumes "bad_ports minport maxport"
  shows "adds ifaddr_query s (prepare_addr env minport maxport subnet proto s)"
proof -
  have c: "adds ifaddr_query s (x, call Ev_getifaddrs s)" for x :: "string outcome"
    by (rule adds_call) simp
  show ?thesis
  proof (cases "getifaddrs_ret env")
    case None
    have "adds ifaddr_query (call Ev_getifaddrs s)
            (msg_abort ''getifaddrs failed'' (call Ev_getifaddrs s))"
      by (rule adds_msg_abort) simp
    from adds_step [OF c this] None show ?thesis
      by (simp add: prepare_addr_def Let_def)
  next
    case (Some ifaddr)
    have k: "adds ifaddr_query s1
       (case cur of
          None \<Rightarrow> msg_abort ''no ip addr'' s1
        | Some ip \<Rightarrow>
            let s3 = call Ev_freeifaddrs s1 in
            if \<not> in_int (maxport - minport) then (Undefined, s3)
            else if maxport - minport < 0 then msg_abort ''bad min-max port'' s3
            else if minport < 1 then msg_abort ''bad min port'' s3
            else if maxport > 65535 then msg_abort ''bad max port'' s3
            else f ip s3)" for cur s1 and f :: "string \<Rightarrow> world \<Rightarrow> string outcome \<times> world"
    proof (cases cur)
      case None
      then show ?thesis by (simp add: adds_msg_abort)
    next
      case (Some ip)
      have f: "adds ifaddr_query s1 (x, call Ev_freeifaddrs s1)" for x :: "string outcome"
        by (rule adds_call) simp
      have a: "adds ifaddr_query (call Ev_freeifaddrs s1) (msg_abort m (call Ev_freeifaddrs s1))"
        for m
        by (rule adds_msg_abort) simp
      have bad: "maxport - minport < 0 \<or> minport < 1 \<or> maxport > 65535"
        using assms by (auto simp: bad_ports_def)
      have u: "adds ifaddr_query s1 (Undefined, call Ev_freeifaddrs s1)" for x :: "string outcome"
        by (rule adds_call) simp
      have b: "adds ifaddr_query s1 (msg_abort m (call Ev_freeifaddrs s1))" for m
        using adds_step [OF f a] .
      from bad show ?thesis
        unfolding Some option.case Let_def
        by (auto simp: u b)
    qed
    have "adds ifaddr_query (call Ev_getifaddrs s)
            (and_then (find_ifaddr subnet ifaddr (call Ev_getifaddrs s)) (\<lambda>cur s2.
               case cur of
                 None \<Rightarrow> msg_abort ''no ip addr'' s2
               | Some ip \<Rightarrow>
                   let s3 = call Ev_freeifaddrs s2 in
                   if \<not> in_int (maxport - minport) then (Undefined, s3)
                   else if maxport - minport < 0 then msg_abort ''bad min-max port'' s3
                   else if minport < 1 then msg_abort ''bad min port'' s3
                   else if maxport > 65535 then msg_abort ''bad max port'' s3
                   else g ip s3))"
      for g :: "string \<Rightarrow> world \<Rightarrow> string outcome \<times> world"
      by (rule adds_and_then [OF adds_find_ifaddr]) (rule k)
    from adds_step [OF c this] Some show ?thesis
      by (simp add: prepare_addr_def Let_def del: probe_ports.simps)
  qed
qed


lemma adds_init_local_comm:
  "adds (\<lambda>e. \<not> past_port_check e) s (init_local_comm env s)"
  by (simp add: adds_def init_local_comm_def Let_def call_def msg_abort_def)

lemma adds_discover_local_info:
  "adds (\<lambda>e. \<not> past_port_check e) s (discover_local_info env s)"
proof (rule staged_adds [OF staged_discover_local_info])
  fix e
  assume "local_tier e"
  then show "\<not> past_port_check e" by (cases e) auto
qed simp_all

lemma ifaddr_query_before_check: "ifaddr_query e \<Longrightarrow> \<not> past_port_check e"
  by (cases e) auto

lemma adds_bootstrap_bad_ports:
  assumes "bad_ports minport maxport"
  shows "adds (\<lambda>e. \<not> past_port_check e) s (nexus_bootstrap env minport maxport subnet proto s)"
proof -
  let ?P = "\<lambda>e. \<not> past_port_check e"
  let ?s2 = "call (EvMPI_Comm_size MPI_COMM_WORLD)
     (call (EvMPI_Comm_rank MPI_COMM_WORLD) (s\<lparr>grank := mpi_rank env MPI_COMM_WORLD\<rparr>)
        \<lparr>gsize := mpi_size env MPI_COMM_WORLD\<rparr>)"
  have p: "adds ?P s4
      (and_then (prepare_addr env minport maxport subnet proto s4) f)" for s4 f
  proof (rule adds_and_then_stop)
    show "adds ?P s4 (prepare_addr env minport maxport subnet proto s4)"
      by (rule adds_mono [OF adds_prepare_addr_bad_ports [OF assms]])
         (rule ifaddr_query_before_check)
    show "fst (prepare_addr env minport maxport subnet proto s4) \<noteq> Returns x" for x
      by (rule prepare_addr_bad_ports_never_returns [OF assms])
  qed
  have d: "adds ?P s3
      (and_then (discover_local_info env s3) (\<lambda>_ s4.
       and_then (prepare_addr env minport maxport subnet proto s4) (f s4)))" for s3 f
    by (rule adds_and_then [OF adds_discover_local_info]) (rule p)
  have a: "adds ?P ?s2
     (and_then (init_local_comm env ?s2) (\<lambda>_ s3.
      and_then (discover_local_info env s3) (\<lambda>_ s4.
      and_then (prepare_addr env minport maxport subnet proto s4) (\<lambda>hgaddr s5.
      and_then (init_rep_comm env s5) (\<lambda>_ s6.
      and_then (discover_remote_info env hgaddr s6) (\<lambda>_ s7.
      (Returns NX_SUCCESS, s7)))))))"
    by (rule adds_and_then [OF adds_init_local_comm]) (rule d)
  have c: "calls ?s2 = calls s @ [EvMPI_Comm_rank MPI_COMM_WORLD,
      EvMPI_Comm_size MPI_COMM_WORLD]"
    by (simp add: call_def)
  have l: "list_all ?P [EvMPI_Comm_rank MPI_COMM_WORLD, EvMPI_Comm_size MPI_COMM_WORLD]"
    by simp
  from adds_trans [OF c l a] show ?thesis
    unfolding nexus_bootstrap_def Let_def .
qed

lemma bootstrap_bad_ports_never_returns:
  assumes "bad_ports minport maxport"
  shows "fst (nexus_bootstrap env minport maxport subnet proto s) \<noteq> Returns x"
proof
  assume "fst (nexus_bootstrap env minport maxport subnet proto s) = Returns x"
  then have "nexus_bootstrap env minport maxport subnet proto s =
      (Returns x, snd (nexus_bootstrap env minport maxport subnet proto s))"
    by (metis prod.collapse)
  then obtain hgaddr s4 s5 where
    "prepare_addr env minport maxport subnet proto s4 = (Returns hgaddr, s5)"
    unfolding nexus_bootstrap_def Let_def and_then_Returns by blast
  with prepare_addr_bad_ports_never_returns [OF assms, of env subnet proto s4 hgaddr]
  show False by simp
qed

lemma example_bootstrap_inverted_ports:
  "nexus_bootstrap (example_env 0) 5001 5000 ''10.'' ''tcp'' (example_world 0) =
     (Aborts ''bad min-max port'',
      \<lparr>grank = 0, gsize = 4, lrank = 0, lsize = 2, lroot = 0, localranks = [0, 1],
       rankreps = [], laddrs = [(0, 10), (1, 33)], gaddrs = [],
       local_hgcl = 1, local_hgctx = 2, remote_hgcl = 0, remote_hgctx = 0,
       calls =
        [EvMPI_Comm_rank MPI_COMM_WORLD, EvMPI_Comm_size MPI_COMM_WORLD, Ev_init_local_comm,
         EvMPI_Comm_rank LOCALCOMM, EvMPI_Comm_size LOCALCOMM,
         EvHG_Init LOCAL_EP ''na+sm://100/0'', EvHG_Context_create LOCAL_EP,
         Ev_pthread_create LOCAL_EP, EvMPI_Allgather LOCALCOMM, EvHG_Addr_self LOCAL_EP,
         Ev_hg_lookup LOCAL_EP ''na+sm://101/0'', EvHG_Addr_lookup LOCAL_EP ''na+sm://101/0'',
         EvMPI_Barrier LOCALCOMM, Ev_set_bgdone LOCAL_EP, Ev_pthread_join LOCAL_EP,
         Ev_getifaddrs, Ev_getnameinfo, Ev_getnameinfo, Ev_freeifaddrs,
         Ev_msg_abort ''bad min-max port'']\<rparr>)"
  by (simp add: run_defs)

lemma example_prepare_addr_low_port:
  "prepare_addr (example_env 0) 0 5000 ''10.'' ''tcp'' (example_world 0) =
     (Aborts ''bad min port'',
      (example_world 0)\<lparr>calls := [Ev_getifaddrs, Ev_getnameinfo, Ev_getnameinfo, Ev_freeifaddrs,
         Ev_msg_abort ''bad min port'']\<rparr>)"
  by (simp add: run_defs)

subsection \<open>The Representative Map\<close>

lemma find_ifaddr_state:
  "find_ifaddr subnet ifs s = (out, s') \<Longrightarrow> s' = s\<lparr>calls := calls s'\<rparr>"
proof (induction subnet ifs s rule: find_ifaddr.induct)
  case (1 subnet s)
  then show ?case by auto
next
  case (2 subnet ifs s)
  then show ?case by simp
next
  case (3 subnet family ret ip ifs s)
  show ?case
  proof (cases "family = AF_INET \<and> ret \<noteq> - 1 \<and> take (length subnet) ip \<noteq> subnet")
    case True
    with 3 have "s' = (call Ev_getnameinfo s)\<lparr>calls := calls s'\<rparr>"
      by (simp add: Let_def)
    then show ?thesis by (simp add: call_def)
  next
    case False
    with 3 show ?thesis
      by (auto simp: Let_def call_def msg_abort_def split: if_splits)
  qed
qed

lemma probe_ports_state:
  "probe_ports env port maxport sz s = (out, s') \<Longrightarrow> s' = s\<lparr>calls := calls s'\<rparr>"
proof (induction env port maxport sz s rule: probe_ports.induct)
  case (1 env port maxport sz s)
  let ?s4 = "call Ev_close (call (Ev_bind port) (call Ev_setsockopt (call Ev_socket s)))"
  show ?case
  proof (cases "port \<le> maxport \<and> socket_ret env port \<noteq> - 1 \<and> bind_ret env port \<noteq> 0 \<and>
                sz \<noteq> 0 \<and> in_int (port + sz)")
    case True
    with "1.prems" have "probe_ports env (port + sz) maxport sz ?s4 = (out, s')"
      by (subst (asm) probe_ports.simps) (simp add: Let_def)
    from "1.IH" [OF _ refl refl refl _ refl refl refl _ _ _ this] True
    have "s' = ?s4\<lparr>calls := calls s'\<rparr>" by simp
    then show ?thesis by (simp add: call_def)
  next
    case False
    with "1.prems" show ?thesis
      by (subst (asm) probe_ports.simps)
         (auto simp: Let_def call_def msg_abort_def split: if_splits simp del: probe_ports.simps)
  qed
qed


lemma port_fallback_state:
  "port_fallback env s = (out, s') \<Longrightarrow> s' = s\<lparr>calls := calls s'\<rparr>"
  by (auto simp: port_fallback_def Let_def call_def msg_abort_def split: if_splits)

lemma and_then_state:
  assumes "and_then r f = (out, s')"
    and r: "\<And>o1 s1. r = (o1, s1) \<Longrightarrow> s1 = s\<lparr>calls := calls s1\<rparr>"
    and f: "\<And>x s1 o2 s2. f x s1 = (o2, s2) \<Longrightarrow> s2 = s1\<lparr>calls := calls s2\<rparr>"
  shows "s' = s\<lparr>calls := calls s'\<rparr>"
proof (cases r)
  case (Pair o1 s1)
  note s1 = r [OF Pair]
  show ?thesis
  proof (cases o1)
    case (Returns x)
    with assms(1) Pair have "f x s1 = (out, s')" by (simp add: and_then_simps)
    from f [OF this] have "s' = s1\<lparr>calls := calls s'\<rparr>" .
    with s1 show ?thesis by (metis world.update_convs(1) nexus_ctx.surjective world.surjective)
  qed (use assms(1) Pair s1 in \<open>auto simp: and_then_simps\<close>)
qed


lemma prepare_addr_state:
  assumes "prepare_addr env minport maxport subnet proto s = (out, s')"
  shows "s' = s\<lparr>calls := calls s'\<rparr>"
proof (cases "getifaddrs_ret env")
  case None
  with assms show ?thesis
    by (auto simp: prepare_addr_def Let_def call_def msg_abort_def)
next
  case (Some ifaddr)
  let ?s1 = "call Ev_getifaddrs s"
  have tail: "s2 = s1\<lparr>calls := calls s2\<rparr>"
    if "(if port = 0 then msg_abort ''no free ports'' s1
         else let uri = proto @ ''://'' @ ip @ '':'' @ dec_int port in
              if 128 \<le> length uri then (Undefined, s1) else (Returns uri, s1)) = (o2, s2)"
    for port ip s1 o2 s2
    using that by (auto simp: Let_def msg_abort_def call_def split: if_splits)
  have pick: "s2 = s1\<lparr>calls := calls s2\<rparr>"
    if "(if port > maxport then port_fallback env s1 else (Returns port, s1)) = (o2, s2)"
    for port s1 and o2 :: "int outcome" and s2
    using that by (auto dest: port_fallback_state split: if_splits)
  have body: "s2 = s1\<lparr>calls := calls s2\<rparr>"
    if "(case cur of
           None \<Rightarrow> msg_abort ''no ip addr'' s1
         | Some ip \<Rightarrow>
             let s3 = call Ev_freeifaddrs s1 in
             if \<not> in_int (maxport - minport) then (Undefined, s3)
             else if maxport - minport < 0 then msg_abort ''bad min-max port'' s3
             else if minport < 1 then msg_abort ''bad min port'' s3
             else if maxport > 65535 then msg_abort ''bad max port'' s3
             else
               let s4 = call (EvMPI_Comm_rank LOCALCOMM) s3;
                   rank = mpi_rank env LOCALCOMM;
                   s5 = call (EvMPI_Comm_size LOCALCOMM) s4;
                   sz = mpi_size env LOCALCOMM;
                   port = minport + (rank smod (1 + maxport - minport))
               in and_then (probe_ports env port maxport sz s5) (\<lambda>port s6.
                  and_then (if port > maxport then port_fallback env s6
                            else (Returns port, s6)) (\<lambda>port s7.
                    if port = 0 then msg_abort ''no free ports'' s7
                    else
                      let uri = proto @ ''://'' @ ip @ '':'' @ dec_int port in
                      if 128 \<le> length uri then (Undefined, s7)
                      else (Returns uri, s7)))) = (o2, s2)"
    for cur s1 o2 s2
  proof (cases cur)
    case None
    with that show ?thesis by (auto simp: msg_abort_def call_def)
  next
    case (Some ip)
    let ?s3 = "call Ev_freeifaddrs s1"
    let ?s5 = "call (EvMPI_Comm_size LOCALCOMM) (call (EvMPI_Comm_rank LOCALCOMM) ?s3)"
    show ?thesis
    proof (cases "in_int (maxport - minport) \<and> \<not> maxport - minport < 0 \<and> \<not> minport < 1 \<and>
                  \<not> maxport > 65535")
      case False
      with that Some show ?thesis
        by (auto simp: Let_def msg_abort_def call_def split: if_splits
              simp del: probe_ports.simps)
    next
      case True
      with that Some have
        "and_then (probe_ports env (minport + (mpi_rank env LOCALCOMM smod (1 + maxport - minport)))
                     maxport (mpi_size env LOCALCOMM) ?s5) (\<lambda>port s6.
           and_then (if port > maxport then port_fallback env s6
                     else (Returns port, s6)) (\<lambda>port s7.
             if port = 0 then msg_abort ''no free ports'' s7
             else
               let uri = proto @ ''://'' @ ip @ '':'' @ dec_int port in
               if 128 \<le> length uri then (Undefined, s7)
               else (Returns uri, s7))) = (o2, s2)"
        by (simp add: Let_def del: probe_ports.simps)
      then have "s2 = ?s5\<lparr>calls := calls s2\<rparr>"
      proof (rule and_then_state)
        show "s1' = ?s5\<lparr>calls := calls s1'\<rparr>"
          if "probe_ports env (minport + (mpi_rank env LOCALCOMM smod (1 + maxport - minport)))
                maxport (mpi_size env LOCALCOMM) ?s5 = (o1, s1')" for o1 s1'
          using that by (rule probe_ports_state)
        show "s2' = s1'\<lparr>calls := calls s2'\<rparr>"
          if "and_then (if x > maxport then port_fallback env s1' else (Returns x, s1'))
                (\<lambda>port s7.
                   if port = 0 then msg_abort ''no free ports'' s7
                   else
                     let uri = proto @ ''://'' @ ip @ '':'' @ dec_int port in
                     if 128 \<le> length uri then (Undefined, s7)
                     else (Returns uri, s7)) = (o2', s2')" for x s1' o2' s2'
          using that by (rule and_then_state) (erule pick, erule tail)
      qed
      then show ?thesis by (simp add: call_def)
    qed
  qed
  from assms Some have
    "and_then (find_ifaddr subnet ifaddr ?s1) (\<lambda>cur s2.
       case cur of
         None \<Rightarrow> msg_abort ''no ip addr'' s2
       | Some ip \<Rightarrow>
           let s3 = call Ev_freeifaddrs s2 in
           if \<not> in_int (maxport - minport) then (Undefined, s3)
           else if maxport - minport < 0 then msg_abort ''bad min-max port'' s3
           else if minport < 1 then msg_abort ''bad min port'' s3
           else if maxport > 65535 then msg_abort ''bad max port'' s3
           else
             let s4 = call (EvMPI_Comm_rank LOCALCOMM) s3;
                 rank = mpi_rank env LOCALCOMM;
                 s5 = call (EvMPI_Comm_size LOCALCOMM) s4;
                 sz = mpi_size env LOCALCOMM;
                 port = minport + (rank smod (1 + maxport - minport))
             in and_then (probe_ports env port maxport sz s5) (\<lambda>port s6.
                and_then (if port > maxport then port_fallback env s6
                          else (Returns port, s6)) (\<lambda>port s7.
                  if port = 0 then msg_abort ''no free ports'' s7
                  else
                    let uri = proto @ ''://'' @ ip @ '':'' @ dec_int port in
                    if 128 \<le> length uri then (Undefined, s7)
                    else (Returns uri, s7)))) = (out, s')"
    by (simp add: prepare_addr_def Let_def del: probe_ports.simps)
  then have "s' = ?s1\<lparr>calls := calls s'\<rparr>"
    by (rule and_then_state) (erule find_ifaddr_state, erule body)
  then show ?thesis by (simp add: call_def)
qed

lemma init_local_comm_Returns:
  "init_local_comm env s = (Returns (), s1) \<Longrightarrow> s1 = s\<lparr>calls := calls s1\<rparr>"
  by (auto simp: init_local_comm_def Let_def call_def msg_abort_def split: if_splits)

lemma init_rep_comm_Returns:
  "init_rep_comm env s = (Returns (), s1) \<Longrightarrow> s1 = s\<lparr>calls := calls s1\<rparr>"
  by (auto simp: init_rep_comm_def Let_def call_def msg_abort_def split: if_splits)

lemma nexus_bootstrap_local_stage:
  "nexus_bootstrap env minport maxport subnet proto s0 =
     and_then (local_stage env s0) (\<lambda>_ s4.
     and_then (prepare_addr env minport maxport subnet proto s4) (\<lambda>hgaddr s5.
     and_then (init_rep_comm env s5) (\<lambda>_ s6.
     and_then (discover_remote_info env hgaddr s6) (\<lambda>_ s7.
     (Returns NX_SUCCESS, s7)))))"
proof -
  have assoc: "and_then (and_then r f) g = and_then r (\<lambda>x s. and_then (f x s) g)"
    for r :: "unit outcome \<times> world" and f :: "unit \<Rightarrow> world \<Rightarrow> unit outcome \<times> world"
      and g :: "unit \<Rightarrow> world \<Rightarrow> nexus_ret_t outcome \<times> world"
    by (cases r; cases "fst r") (auto simp: and_then_def)
  show ?thesis
    unfolding nexus_bootstrap_def local_stage_def Let_def assoc ..
qed

lemma nexus_bootstrap_ReturnsD:
  assumes "nexus_bootstrap env minport maxport subnet proto s0 = (Returns r, s')"
  shows "\<exists>s4 hgaddr s6.
     local_stage env s0 = (Returns (), s4) \<and> s6 = s4\<lparr>calls := calls s6\<rparr> \<and>
     discover_remote_info env hgaddr s6 = (Returns (), s')"
proof -
  from assms obtain s4 hgaddr s5 s6 where
    l: "local_stage env s0 = (Returns (), s4)" and
    p: "prepare_addr env minport maxport subnet proto s4 = (Returns hgaddr, s5)" and
    i: "init_rep_comm env s5 = (Returns (), s6)" and
    d: "discover_remote_info env hgaddr s6 = (Returns (), s')"
    unfolding nexus_bootstrap_local_stage and_then_Returns by auto
  from prepare_addr_state [OF p] init_rep_comm_Returns [OF i]
  have "s6 = s4\<lparr>calls := calls s6\<rparr>"
    by (metis world.update_convs(1) nexus_ctx.surjective world.surjective)
  with l d show ?thesis by blast
qed

lemma local_stage_ReturnsD:
  assumes "local_stage env s0 = (Returns (), s4)"
  shows "\<exists>s3. grank s3 = mpi_rank env MPI_COMM_WORLD \<and> gsize s3 = mpi_size env MPI_COMM_WORLD \<and>
           discover_local_info env s3 = (Returns (), s4)"
proof -
  let ?s2 = "call (EvMPI_Comm_size MPI_COMM_WORLD)
     (call (EvMPI_Comm_rank MPI_COMM_WORLD) (s0\<lparr>grank := mpi_rank env MPI_COMM_WORLD\<rparr>)
        \<lparr>gsize := mpi_size env MPI_COMM_WORLD\<rparr>)"
  from assms obtain s3 where
    i: "init_local_comm env ?s2 = (Returns (), s3)" and
    d: "discover_local_info env s3 = (Returns (), s4)"
    unfolding local_stage_def Let_def and_then_Returns by auto
  from init_local_comm_Returns [OF i]
  have "grank s3 = grank ?s2" "gsize s3 = gsize ?s2"
    by (metis world.select_convs nexus_ctx.select_convs world.update_convs(1)
          nexus_ctx.surjective world.surjective)+
  then have "grank s3 = mpi_rank env MPI_COMM_WORLD \<and> gsize s3 = mpi_size env MPI_COMM_WORLD"
    by (simp add: call_def)
  with d show ?thesis by blast
qed

lemma local_discovery_lroot:
  assumes run: "discover_local_info env s = (Returns (), s')"
    and r: "0 \<le> mpi_rank env LOCALCOMM" "mpi_rank env LOCALCOMM < mpi_size env LOCALCOMM"
    and idx: "\<forall>j<nat (mpi_size env LOCALCOMM). ld_lrank (local_hginfo env s ! j) = int j"
  shows "lroot s' = ld_grank (local_hginfo env s ! 0) \<and>
         lrank s' = mpi_rank env LOCALCOMM \<and> lsize s' = mpi_size env LOCALCOMM \<and>
         grank s' = grank s \<and> gsize s' = gsize s"
proof -
  let ?n = "mpi_size env LOCALCOMM" and ?r = "mpi_rank env LOCALCOMM"
  let ?h = "local_hginfo env s"
  from discover_local_info_ReturnsD [OF run] obtain s2 s3 where
    f: "lrank s2 = ?r" "lsize s2 = ?n" "grank s2 = grank s" "gsize s2 = gsize s" and
    lo: "local_loop env ?h (map int [0..<nat ?n]) s2 = (Returns (), s3)" and
    s': "s' = s3\<lparr>calls := calls s3 @
            [EvMPI_Barrier LOCALCOMM, Ev_set_bgdone LOCAL_EP, Ev_pthread_join LOCAL_EP]\<rparr>"
    by blast
  have n: "0 < ?n" using r by simp
  have peer: "local_peer s2 ?h (int i) = ?h ! ((nat ?r + i) mod nat ?n)" for i
    using f r n by (simp add: local_peer_def cyclic_index)
  have lt: "(nat ?r + i) mod nat ?n < nat ?n" for i
    using n by simp
  have a: "\<forall>i\<in>set (map int [0..<nat ?n]).
      ld_lrank (local_peer s2 ?h i) = 0 \<longrightarrow> ld_grank (local_peer s2 ?h i) = ld_grank (?h ! 0)"
  proof
    fix i
    assume "i \<in> set (map int [0..<nat ?n])"
    then obtain k where k: "i = int k" by auto
    show "ld_lrank (local_peer s2 ?h i) = 0 \<longrightarrow>
          ld_grank (local_peer s2 ?h i) = ld_grank (?h ! 0)"
    proof
      assume "ld_lrank (local_peer s2 ?h i) = 0"
      with idx lt [of k] have "(nat ?r + k) mod nat ?n = 0"
        by (simp add: k peer)
      then show "ld_grank (local_peer s2 ?h i) = ld_grank (?h ! 0)"
        by (simp add: k peer)
    qed
  qed
  have b: "\<exists>i\<in>set (map int [0..<nat ?n]). ld_lrank (local_peer s2 ?h i) = 0"
  proof -
    have "0 \<in> set (rotate (nat ?r) [0..<nat ?n])" using n by simp
    then have "ld_lrank (?h ! 0) \<in>
        set (map (\<lambda>j. ld_lrank (?h ! j)) (rotate (nat ?r) [0..<nat ?n]))"
      by (simp del: set_rotate add: image_iff) (metis set_rotate atLeastLessThan_iff 
            set_upt zero_le n zero_less_nat_eq)
    also have "map (\<lambda>j. ld_lrank (?h ! j)) (rotate (nat ?r) [0..<nat ?n]) =
        map (\<lambda>i. ld_lrank (local_peer s2 ?h i)) (map int [0..<nat ?n])"
      using local_peer_rotate [OF f(1,2) r, of ld_lrank ?h] by simp
    finally have "ld_lrank (?h ! 0) \<in>
        set (map (\<lambda>i. ld_lrank (local_peer s2 ?h i)) (map int [0..<nat ?n]))" .
    moreover from idx n have "ld_lrank (?h ! 0) = 0" by simp
    ultimately show ?thesis by (auto simp: image_iff)
  qed
  from local_loop_lroot [OF lo a] b have "lroot s3 = ld_grank (?h ! 0)" by blast
  with local_loop_frame [OF lo] f s' show ?thesis by simp
qed

lemma remote_discovery_rankreps:
  assumes run: "discover_remote_info env hgaddr s = (Returns (), s')"
    and g: "gsize s = mpi_size env MPI_COMM_WORLD"
  shows "rankreps s' =
           MPI_Allgather (mpi_rank env MPI_COMM_WORLD) (mpi_size env MPI_COMM_WORLD)
             (peer_lroot env) (lroot s) \<and>
         lroot s' = lroot s \<and> gsize s' = gsize s \<and> grank s' = grank s \<and>
         lrank s' = lrank s \<and> lsize s' = lsize s"
proof -
  from discover_remote_info_ReturnsD [OF run] obtain s3 s4 where
    f: "lrank s3 = lrank s" "lsize s3 = lsize s" "grank s3 = grank s" "gsize s3 = gsize s"
      "lroot s3 = lroot s" and
    rr: "rankreps s3 =
       MPI_Allgather (mpi_rank env MPI_COMM_WORLD) (mpi_size env MPI_COMM_WORLD)
         (peer_lroot env) (lroot s) @
       replicate (nat (gsize s) - nat (mpi_size env MPI_COMM_WORLD)) 0" and
    lo: "remote_loop env (remote_hginfo env hgaddr s) (mpi_rank env REPCOMM)
           (mpi_size env REPCOMM) (map int [0..<nat (mpi_size env REPCOMM)]) s3
           = (Returns (), s4)" and
    s': "s' = s4\<lparr>calls := calls s4 @
            [EvMPI_Barrier REPCOMM, Ev_set_bgdone REMOTE_EP, Ev_pthread_join REMOTE_EP]\<rparr>"
    by blast
  from remote_loop_frame [OF lo] f rr g s' show ?thesis by simp
qed

lemma list_all_ranks: "list_all P (ranks n) \<longleftrightarrow> (\<forall>i. 0 \<le> i \<longrightarrow> i < n \<longrightarrow> P i)"
proof
  assume a: "list_all P (ranks n)"
  show "\<forall>i. 0 \<le> i \<longrightarrow> i < n \<longrightarrow> P i"
  proof (intro allI impI)
    fix i :: int
    assume "0 \<le> i" "i < n"
    then have "i \<in> set (ranks n)"
      by (auto simp: ranks_def image_iff intro: bexI [of _ "nat i"])
    with a show "P i" by (simp add: list_all_iff)
  qed
next
  assume "\<forall>i. 0 \<le> i \<longrightarrow> i < n \<longrightarrow> P i"
  then show "list_all P (ranks n)"
    by (auto simp: ranks_def list_all_iff)
qed

lemma mpi_consistentD:
  assumes "mpi_consistent N envs ws mem" "0 \<le> g" "g < N"
  shows "mpi_rank (envs g) MPI_COMM_WORLD = g" "mpi_size (envs g) MPI_COMM_WORLD = N"
    "0 \<le> mpi_rank (envs g) LOCALCOMM"
    "mpi_rank (envs g) LOCALCOMM < mpi_size (envs g) LOCALCOMM"
    "mem g (mpi_rank (envs g) LOCALCOMM) = g"
    "\<And>r. 0 \<le> r \<Longrightarrow> r < mpi_size (envs g) LOCALCOMM \<Longrightarrow>
       0 \<le> mem g r \<and> mem g r < N \<and> mpi_rank (envs (mem g r)) LOCALCOMM = r \<and>
       mpi_size (envs (mem g r)) LOCALCOMM = mpi_size (envs g) LOCALCOMM \<and>
       (\<forall>r'. 0 \<le> r' \<longrightarrow> r' < mpi_size (envs g) LOCALCOMM \<longrightarrow> mem (mem g r) r' = mem g r') \<and>
       (r \<noteq> mpi_rank (envs g) LOCALCOMM \<longrightarrow> peer_ldat (envs g) r = ldat_sent (envs (mem g r)))"
    "\<And>h. 0 \<le> h \<Longrightarrow> h < N \<Longrightarrow> h \<noteq> g \<Longrightarrow>
       peer_lroot (envs g) h = lroot_sent (envs h) (ws h)"
  using assms unfolding mpi_consistent_def list_all_ranks by blast+

lemma bootstrapped_process:
  assumes c: "mpi_consistent N envs ws mem" and g: "0 \<le> g" "g < N"
    and run: "fst (nexus_bootstrap (envs g) minport maxport subnet proto (ws g)) = Returns x"
  shows "lroot (bootstrapped envs ws minport maxport subnet proto g) = mem g 0"
    "lroot_sent (envs g) (ws g) = mem g 0"
    "rankreps (bootstrapped envs ws minport maxport subnet proto g) =
       MPI_Allgather g N (peer_lroot (envs g)) (mem g 0)"
    "gsize (bootstrapped envs ws minport maxport subnet proto g) = N"
    "grank (bootstrapped envs ws minport maxport subnet proto g) = g"
    "lsize (bootstrapped envs ws minport maxport subnet proto g) = mpi_size (envs g) LOCALCOMM"
    "lrank (bootstrapped envs ws minport maxport subnet proto g) = mpi_rank (envs g) LOCALCOMM"
proof -
  let ?env = "envs g"
  let ?ls = "mpi_size ?env LOCALCOMM" and ?lr = "mpi_rank ?env LOCALCOMM"
  let ?s' = "bootstrapped envs ws minport maxport subnet proto g"
  note d = mpi_consistentD [OF c g]
  from run have "nexus_bootstrap ?env minport maxport subnet proto (ws g) = (Returns x, ?s')"
    unfolding bootstrapped_def by (metis prod.collapse)
  from nexus_bootstrap_ReturnsD [OF this] obtain s4 hgaddr s6 where
    l: "local_stage ?env (ws g) = (Returns (), s4)" and
    s6: "s6 = s4\<lparr>calls := calls s6\<rparr>" and
    dr: "discover_remote_info ?env hgaddr s6 = (Returns (), ?s')"
    by blast
  from local_stage_ReturnsD [OF l] obtain s3 where
    s3: "grank s3 = g" "gsize s3 = N" and
    dl: "discover_local_info ?env s3 = (Returns (), s4)"
    using d(1,2) by auto
  have h: "local_hginfo ?env s3 ! j =
      (if int j = ?lr then \<lparr>ld_pid = getpid_ret ?env, ld_hgid = 0, ld_grank = g, ld_lrank = ?lr\<rparr>
       else ldat_sent (envs (mem g (int j))))" if "j < nat ?ls" for j
    using that d(6) [of "int j"] s3
    by (simp add: local_hginfo_def nth_MPI_Allgather)
  have idx: "\<forall>j<nat ?ls. ld_lrank (local_hginfo ?env s3 ! j) = int j"
  proof (intro allI impI)
    fix j
    assume j: "j < nat ?ls"
    with d(6) [of "int j"] show "ld_lrank (local_hginfo ?env s3 ! j) = int j"
      by (simp add: h ldat_sent_def)
  qed
  have z: "0 < nat ?ls" using d(3,4) by simp
  have m0: "0 \<le> mem g 0 \<and> mem g 0 < N"
    using d(6) [of 0] d(3,4) by simp
  have g0: "ld_grank (local_hginfo ?env s3 ! 0) = mem g 0"
  proof (cases "?lr = 0")
    case True
    with d(5) show ?thesis by (simp add: h [OF z])
  next
    case False
    with mpi_consistentD(1) [OF c, of "mem g 0"] m0 show ?thesis
      by (simp add: h [OF z] ldat_sent_def)
  qed
  from local_discovery_lroot [OF dl d(3,4) idx] g0 s3
  have s4: "lroot s4 = mem g 0" "lrank s4 = ?lr" "lsize s4 = ?ls" "grank s4 = g" "gsize s4 = N"
    by simp_all
  from s6 have "lroot s6 = lroot s4 \<and> lrank s6 = lrank s4 \<and> lsize s6 = lsize s4 \<and>
      grank s6 = grank s4 \<and> gsize s6 = gsize s4"
    by (metis world.select_convs nexus_ctx.select_convs world.update_convs(1)
          nexus_ctx.surjective world.surjective)
  with s4 have s6': "lroot s6 = mem g 0" "lrank s6 = ?lr" "lsize s6 = ?ls" "grank s6 = g"
    "gsize s6 = N"
    by simp_all
  from remote_discovery_rankreps [OF dr] s6' d(1,2)
  show "lroot ?s' = mem g 0" "rankreps ?s' = MPI_Allgather g N (peer_lroot (envs g)) (mem g 0)"
    "gsize ?s' = N" "grank ?s' = g" "lsize ?s' = ?ls" "lrank ?s' = ?lr"
    by simp_all
  from l s4 show "lroot_sent (envs g) (ws g) = mem g 0"
    by (simp add: lroot_sent_def)
qed

lemma example_bootstrap_returns:
  "fst (nexus_bootstrap (example_env 0) 5000 5001 ''10.'' ''tcp'' (example_world 0))
     = Returns NX_SUCCESS"
  "fst (nexus_bootstrap (example_env 1) 5000 5001 ''10.'' ''tcp'' (example_world 1))
     = Returns NX_SUCCESS"
  "fst (nexus_bootstrap (example_env 2) 5000 5001 ''10.'' ''tcp'' (example_world 2))
     = Returns NX_SUCCESS"
  "fst (nexus_bootstrap (example_env 3) 5000 5001 ''10.'' ''tcp'' (example_world 3))
     = Returns NX_SUCCESS"
  by (simp_all add: run_defs)

lemma example_lroot_sent:
  "lroot_sent (example_env 0) (example_world 0) = 0"
  "lroot_sent (example_env 1) (example_world 1) = 0"
  "lroot_sent (example_env 2) (example_world 2) = 2"
  "lroot_sent (example_env 3) (example_world 3) = 2"
  by (simp_all add: lroot_sent_def local_stage_def run_defs)

lemma example_consistent:
  "mpi_consistent 4 example_env example_world (\<lambda>g r. 2 * (g div 2) + r)"
  by (simp add: mpi_consistent_def ranks_def upt_conv_Cons example_env_sel example_lroot_sent
        ldat_sent_def)

lemma ranks_below_four: "0 \<le> g \<Longrightarrow> g < 4 \<Longrightarrow> g = 0 \<or> g = 1 \<or> g = 2 \<or> g = (3::int)"
  by arith

subsection \<open>A failed resolution is fatal\<close>

lemma local_visit_exact:
  assumes d: "local_visit_defined s hginfo i"
  shows "fst (local_visit env hginfo i s) =
           resolve_all [local_peer_code env (grank s) (local_peer s hginfo i)]"
proof -
  define h where "h = local_peer s hginfo i"
  define s1 where "s1 = (if ld_lrank h = 0 then s\<lparr>lroot := ld_grank h\<rparr> else s)"
  define s2 where "s2 = s1\<lparr>localranks := (localranks s1)[nat (ld_lrank h) := ld_grank h]\<rparr>"
  define hgaddr where "hgaddr = na_sm_addr (ld_pid h) (ld_hgid h)"
  have l: "length (localranks s1) = length (localranks s)" by (simp add: s1_def)
  from d l have v: "local_visit env hginfo i s =
      and_then (if ld_grank h = grank s2 then HG_Addr_self env LOCAL_EP s2
                else hg_lookup env LOCAL_EP hgaddr s2)
       (\<lambda>r s3. if fst r \<noteq> HG_SUCCESS then msg_abort ''hg_lookup failed'' s3
                else (case snd r of None \<Rightarrow> (Undefined, s3)
                      | Some localaddr \<Rightarrow>
                         (Returns (), s3\<lparr>laddrs := map_set (ld_grank h) localaddr (laddrs s3)\<rparr>)))"
    unfolding local_visit_def local_visit_defined_def Let_def h_def local_peer_def s1_def
      s2_def hgaddr_def
    by (auto split: if_splits)
  have g: "grank s2 = grank s" by (simp add: s2_def s1_def)
  show ?thesis
  proof (cases "ld_grank h = grank s")
    case True
    then show ?thesis
      unfolding v h_def [symmetric]
      by (simp add: g fst_and_then HG_Addr_self_ends local_peer_code_def msg_abort_def)
  next
    case False
    then show ?thesis
      unfolding v h_def [symmetric]
      by (auto simp: g fst_and_then hg_lookup_ends local_peer_code_def msg_abort_def
            hgaddr_def dest: hg_lookup_success_Some split: option.splits)
  qed
qed

lemma local_visit_defined_frame:
  assumes "local_visit env hginfo i s = (Returns (), s1)"
  shows "local_visit_defined s1 hginfo j = local_visit_defined s hginfo j"
proof -
  from local_visit_Returns [OF assms]
  have "length (localranks s1) = length (localranks s)"
    by auto
  with local_visit_frame [OF assms] show ?thesis
    by (simp add: local_visit_defined_def local_peer_def)
qed

lemma local_loop_exact:
  "\<forall>i\<in>set is. local_visit_defined s hginfo i \<Longrightarrow>
   fst (local_loop env hginfo is s) =
     resolve_all (map (\<lambda>i. local_peer_code env (grank s) (local_peer s hginfo i)) is)"
proof (induction "is" arbitrary: s)
  case Nil
  show ?case by simp
next
  case (Cons i "is")
  obtain out s1 where v: "local_visit env hginfo i s = (out, s1)"
    by (cases "local_visit env hginfo i s")
  from local_visit_exact [of s hginfo i env] Cons.prems v
  have o: "out = resolve_all [local_peer_code env (grank s) (local_peer s hginfo i)]"
    by simp
  show ?case
  proof (cases out)
    case (Returns x)
    with v have vr: "local_visit env hginfo i s = (Returns (), s1)" by simp
    from local_visit_frame [OF vr]
    have f: "grank s1 = grank s" "\<And>j. local_peer s1 hginfo j = local_peer s hginfo j"
      by (simp_all add: local_peer_def)
    from Cons.prems local_visit_defined_frame [OF vr]
    have "\<forall>j\<in>set is. local_visit_defined s1 hginfo j" by simp
    from Cons.IH [OF this]
    have "fst (local_loop env hginfo is s1) =
        resolve_all (map (\<lambda>i. local_peer_code env (grank s) (local_peer s hginfo i)) is)"
      by (simp add: f)
    moreover from o Returns
    have r0: "resolve_all [local_peer_code env (grank s) (local_peer s hginfo i)] = Returns ()"
      by simp
    have "resolve_all (map (\<lambda>i. local_peer_code env (grank s) (local_peer s hginfo i)) (i # is))
        = resolve_all (map (\<lambda>i. local_peer_code env (grank s) (local_peer s hginfo i)) is)"
      using r0 by (simp add: resolve_all_Cons [of _ "map _ is"])
    ultimately show ?thesis
      using vr by (simp add: and_then_simps)
  next
    case (Aborts m)
    with o have r: "resolve_all [local_peer_code env (grank s) (local_peer s hginfo i)]
        = Aborts m" by simp
    have "fst (local_loop env hginfo (i # is) s) = Aborts m"
      using v Aborts by (simp add: and_then_simps)
    moreover have
      "resolve_all (map (\<lambda>i. local_peer_code env (grank s) (local_peer s hginfo i)) (i # is))
         = Aborts m"
      using r by (simp add: resolve_all_Cons [of _ "map _ is"])
    ultimately show ?thesis by simp
  next
    case Blocks
    with o have r: "resolve_all [local_peer_code env (grank s) (local_peer s hginfo i)]
        = Blocks" by simp
    have "fst (local_loop env hginfo (i # is) s) = Blocks"
      using v Blocks by (simp add: and_then_simps)
    moreover have
      "resolve_all (map (\<lambda>i. local_peer_code env (grank s) (local_peer s hginfo i)) (i # is))
         = Blocks"
      using r by (simp add: resolve_all_Cons [of _ "map _ is"])
    ultimately show ?thesis by simp
  next
    case Undefined
    with o have "resolve_all [local_peer_code env (grank s) (local_peer s hginfo i)]
        = Undefined" by simp
    then show ?thesis
      by (cases "local_peer_code env (grank s) (local_peer s hginfo i)")
         (auto split: if_splits)
  qed
qed

lemma resolve_all_Aborts: "resolve_all cs = Aborts m \<Longrightarrow> m = ''hg_lookup failed''"
proof (induction cs)
  case Nil
  then show ?case by simp
next
  case (Cons c cs)
  then show ?case by (cases c) (auto split: if_splits)
qed

lemma local_discovery_aborts:
  assumes d: "local_discovery_defined env s"
    and c: "resolve_all (map (\<lambda>i. local_peer_code env (grank s) (local_visited env s i))
             (map int [0..<nat (mpi_size env LOCALCOMM)])) = Aborts m"
  shows "(\<exists>m'. fst (discover_local_info env s) = Aborts m') \<and>
         ((\<exists>s1 h s2. local_endpoint_up env s = (Returns (), s1) \<and>
                     local_exchange env s1 = (Returns h, s2)) \<longrightarrow>
          fst (discover_local_info env s) = Aborts ''hg_lookup failed'')"
proof -
  let ?r = "mpi_rank env LOCALCOMM" and ?n = "mpi_size env LOCALCOMM"
  from d have r: "0 \<le> ?r" "?r < ?n" "in_int (?r + ?n)"
    and lr: "\<forall>h\<in>set (local_hginfo env s). 0 \<le> ld_lrank h \<and> ld_lrank h < ?n"
    by (simp_all add: local_discovery_defined_def list_all_iff)
  have loop: "fst (discover_local_info env s) = Aborts ''hg_lookup failed''"
    if up: "local_endpoint_up env s = (Returns (), s1)"
      and ex: "local_exchange env s1 = (Returns h, s2)" for s1 h s2
  proof -
    note u = local_endpoint_up_Returns [OF up]
    note e = local_exchange_Returns [OF ex]
    have h: "h = local_hginfo env s"
      using e u by (simp add: local_hginfo_def)
    have f: "lrank s2 = ?r" "lsize s2 = ?n" "grank s2 = grank s"
      "length (localranks s2) = nat ?n"
      using e u by simp_all
    have "\<forall>i\<in>set (map int [0..<nat ?n]). local_visit_defined s2 h i"
    proof
      fix i
      assume "i \<in> set (map int [0..<nat ?n])"
      then obtain k where k: "i = int k" "k < nat ?n" by auto
      have n: "0 < ?n" using r by simp
      have e1: "(?r + int k) smod ?n = (?r + int k) mod ?n"
        using r k by (intro smod_nonneg) simp_all
      have e2: "0 \<le> (?r + int k) mod ?n" "(?r + int k) mod ?n < ?n"
        using n by simp_all
      have "nat ((?r + int k) mod ?n) < length (local_hginfo env s)"
        using e2 n by (simp add: length_local_hginfo)
      then have "local_hginfo env s ! nat ((?r + int k) mod ?n) \<in> set (local_hginfo env s)"
        by (rule nth_mem)
      with lr have "0 \<le> ld_lrank (local_hginfo env s ! nat ((?r + int k) mod ?n)) \<and>
          ld_lrank (local_hginfo env s ! nat ((?r + int k) mod ?n)) < ?n"
        by blast
      moreover have "in_int (?r + int k)"
        using r k by (simp add: in_int_def INT_MIN_def)
      ultimately show "local_visit_defined s2 h i"
        using e1 e2 n f k
        by (simp add: local_visit_defined_def local_peer_def h length_local_hginfo)
    qed
    from local_loop_exact [OF this, of env] c
    have "fst (local_loop env h (map int [0..<nat (lsize s2)]) s2) = Aborts m"
      by (simp add: h f local_peer_visited del: map_map)
    with up ex resolve_all_Aborts [OF c] show ?thesis
      by (auto simp: discover_local_info_def fst_and_then)
  qed
  have "\<exists>m'. fst (discover_local_info env s) = Aborts m'"
  proof -
    from local_endpoint_up_ends [of env s] show ?thesis
    proof
      assume "\<exists>m. fst (local_endpoint_up env s) = Aborts m"
      then show ?thesis
        by (auto simp: discover_local_info_def fst_and_then)
    next
      assume "\<exists>s1. local_endpoint_up env s = (Returns (), s1)"
      then obtain s1 where up: "local_endpoint_up env s = (Returns (), s1)" by blast
      from local_exchange_ends [of env s1] show ?thesis
      proof
        assume "\<exists>m. fst (local_exchange env s1) = Aborts m"
        with up show ?thesis
          by (auto simp: discover_local_info_def fst_and_then)
      next
        assume "\<exists>h s2. local_exchange env s1 = (Returns h, s2)"
        then obtain h s2 where "local_exchange env s1 = (Returns h, s2)" by blast
        from loop [OF up this] show ?thesis by blast
      qed
    qed
  qed
  with loop show ?thesis by blast
qed

lemma remote_visit_exact:
  assumes d: "remote_visit_defined rep_rank rep_size hginfo i"
  shows "fst (remote_visit env hginfo rep_rank rep_size i s) =
           resolve_all [remote_peer_code env (grank s) (remote_peer rep_rank rep_size hginfo i)]"
proof -
  define h where "h = remote_peer rep_rank rep_size hginfo i"
  from d have v: "remote_visit env hginfo rep_rank rep_size i s =
      and_then (if rd_grank h = grank s then HG_Addr_self env REMOTE_EP s
                else hg_lookup env REMOTE_EP (rd_addr h) s)
       (\<lambda>r s1. if fst r \<noteq> HG_SUCCESS then msg_abort ''hg_lookup failed'' s1
                else (case snd r of None \<Rightarrow> (Undefined, s1)
                      | Some remoteaddr \<Rightarrow>
                         (Returns (), s1\<lparr>gaddrs := map_set (rd_grank h) remoteaddr (gaddrs s1)\<rparr>)))"
    unfolding remote_visit_def remote_visit_defined_def Let_def h_def remote_peer_def
    by (auto split: if_splits)
  show ?thesis
  proof (cases "rd_grank h = grank s")
    case True
    then show ?thesis
      unfolding v h_def [symmetric]
      by (simp add: fst_and_then HG_Addr_self_ends remote_peer_code_def msg_abort_def)
  next
    case False
    then show ?thesis
      unfolding v h_def [symmetric]
      by (auto simp: fst_and_then hg_lookup_ends remote_peer_code_def msg_abort_def
            dest: hg_lookup_success_Some split: option.splits)
  qed
qed

lemma remote_loop_exact:
  "\<forall>i\<in>set is. remote_visit_defined rep_rank rep_size hginfo i \<Longrightarrow>
   fst (remote_loop env hginfo rep_rank rep_size is s) =
     resolve_all (map (\<lambda>i. remote_peer_code env (grank s)
                           (remote_peer rep_rank rep_size hginfo i)) is)"
proof (induction "is" arbitrary: s)
  case Nil
  show ?case by simp
next
  case (Cons i "is")
  obtain out s1 where v: "remote_visit env hginfo rep_rank rep_size i s = (out, s1)"
    by (cases "remote_visit env hginfo rep_rank rep_size i s")
  from remote_visit_exact [of rep_rank rep_size hginfo i env s] Cons.prems v
  have o: "out = resolve_all [remote_peer_code env (grank s)
                                (remote_peer rep_rank rep_size hginfo i)]"
    by simp
  show ?case
  proof (cases out)
    case (Returns x)
    with v have vr: "remote_visit env hginfo rep_rank rep_size i s = (Returns (), s1)" by simp
    from remote_visit_frame [OF vr] have f: "grank s1 = grank s" by simp
    from Cons.prems have "\<forall>j\<in>set is. remote_visit_defined rep_rank rep_size hginfo j"
      by simp
    from Cons.IH [OF this, of s1]
    have "fst (remote_loop env hginfo rep_rank rep_size is s1) =
        resolve_all (map (\<lambda>i. remote_peer_code env (grank s)
                              (remote_peer rep_rank rep_size hginfo i)) is)"
      by (simp add: f)
    moreover from o Returns
    have r0: "resolve_all [remote_peer_code env (grank s)
                             (remote_peer rep_rank rep_size hginfo i)] = Returns ()"
      by simp
    have "resolve_all (map (\<lambda>i. remote_peer_code env (grank s)
                  (remote_peer rep_rank rep_size hginfo i)) (i # is))
        = resolve_all (map (\<lambda>i. remote_peer_code env (grank s)
                  (remote_peer rep_rank rep_size hginfo i)) is)"
      using r0 by (simp add: resolve_all_Cons [of _ "map _ is"])
    ultimately show ?thesis
      using vr by (simp add: and_then_simps)
  next
    case (Aborts m)
    with o have r: "resolve_all [remote_peer_code env (grank s)
        (remote_peer rep_rank rep_size hginfo i)] = Aborts m"
      by simp
    have "fst (remote_loop env hginfo rep_rank rep_size (i # is) s) = Aborts m"
      using v Aborts by (simp add: and_then_simps)
    moreover have
      "resolve_all (map (\<lambda>i. remote_peer_code env (grank s)
          (remote_peer rep_rank rep_size hginfo i)) (i # is)) = Aborts m"
      using r by (simp add: resolve_all_Cons [of _ "map _ is"])
    ultimately show ?thesis by simp
  next
    case Blocks
    with o have r: "resolve_all [remote_peer_code env (grank s)
        (remote_peer rep_rank rep_size hginfo i)] = Blocks"
      by simp
    have "fst (remote_loop env hginfo rep_rank rep_size (i # is) s) = Blocks"
      using v Blocks by (simp add: and_then_simps)
    moreover have
      "resolve_all (map (\<lambda>i. remote_peer_code env (grank s)
          (remote_peer rep_rank rep_size hginfo i)) (i # is)) = Blocks"
      using r by (simp add: resolve_all_Cons [of _ "map _ is"])
    ultimately show ?thesis by simp
  next
    case Undefined
    with o have "resolve_all [remote_peer_code env (grank s)
        (remote_peer rep_rank rep_size hginfo i)] = Undefined" by simp
    then show ?thesis
      by (cases "remote_peer_code env (grank s) (remote_peer rep_rank rep_size hginfo i)")
         (auto split: if_splits)
  qed
qed

lemma remote_rankreps_defined:
  "nat (mpi_size env MPI_COMM_WORLD) \<le> nat (gsize s) \<Longrightarrow>
     (\<exists>s1. remote_rankreps env s = (Returns (mpi_rank env REPCOMM, mpi_size env REPCOMM), s1)) \<or>
     (\<exists>m. fst (remote_rankreps env s) = Aborts m)"
  by (auto simp: remote_rankreps_def Let_def msg_abort_def call_def length_MPI_Allgather)

lemma remote_discovery_aborts:
  assumes d: "remote_discovery_defined env s"
    and c: "resolve_all (map (\<lambda>i. remote_peer_code env (grank s) (remote_visited env hgaddr s i))
             (map int [0..<nat (mpi_size env REPCOMM)])) = Aborts m"
  shows "(\<exists>m'. fst (discover_remote_info env hgaddr s) = Aborts m') \<and>
         ((\<exists>rep s1 s2 h s3. remote_rankreps env s = (Returns rep, s1) \<and>
                     remote_endpoint_up env hgaddr s1 = (Returns (), s2) \<and>
                     remote_exchange env hgaddr s2 = (Returns h, s3)) \<longrightarrow>
          fst (discover_remote_info env hgaddr s) = Aborts ''hg_lookup failed'')"
proof -
  let ?r = "mpi_rank env REPCOMM" and ?n = "mpi_size env REPCOMM"
  from d have r: "0 \<le> ?r" "?r < ?n" "in_int (?r + ?n)"
    and w: "nat (mpi_size env MPI_COMM_WORLD) \<le> nat (gsize s)"
    by (simp_all add: remote_discovery_defined_def)
  have loop: "fst (discover_remote_info env hgaddr s) = Aborts ''hg_lookup failed''"
    if rr: "remote_rankreps env s = (Returns rep, s1)"
      and up: "remote_endpoint_up env hgaddr s1 = (Returns (), s2)"
      and ex: "remote_exchange env hgaddr s2 = (Returns h, s3)" for rep s1 s2 h s3
  proof -
    note a = remote_rankreps_Returns [OF rr]
    note u = remote_endpoint_up_Returns [OF up]
    note e = remote_exchange_Returns [OF ex]
    have rep: "rep = (?r, ?n)" using a by simp
    have h: "h = remote_hginfo env hgaddr s"
      using e u a by (simp add: remote_hginfo_def)
    have f: "grank s3 = grank s"
      using e u a by simp
    have "\<forall>i\<in>set (map int [0..<nat ?n]). remote_visit_defined ?r ?n h i"
    proof
      fix i
      assume "i \<in> set (map int [0..<nat ?n])"
      then obtain k where k: "i = int k" "k < nat ?n" by auto
      have n: "0 < ?n" using r by simp
      have e1: "(?r + int k) smod ?n = (?r + int k) mod ?n"
        using r k by (intro smod_nonneg) simp_all
      have e2: "0 \<le> (?r + int k) mod ?n" "(?r + int k) mod ?n < ?n"
        using n by simp_all
      have "in_int (?r + int k)"
        using r k by (simp add: in_int_def INT_MIN_def)
      then show "remote_visit_defined ?r ?n h i"
        using e1 e2 n k
        by (simp add: remote_visit_defined_def h length_remote_hginfo)
    qed
    from remote_loop_exact [OF this, of env s3] c
    have "fst (remote_loop env h ?r ?n (map int [0..<nat ?n]) s3) = Aborts m"
      by (simp add: h f remote_peer_visited del: map_map)
    with rr up ex rep resolve_all_Aborts [OF c] show ?thesis
      by (auto simp: discover_remote_info_def fst_and_then)
  qed
  have "\<exists>m'. fst (discover_remote_info env hgaddr s) = Aborts m'"
  proof -
    from remote_rankreps_defined [OF w] show ?thesis
    proof
      assume "\<exists>m. fst (remote_rankreps env s) = Aborts m"
      then show ?thesis
        by (auto simp: discover_remote_info_def fst_and_then)
    next
      assume "\<exists>s1. remote_rankreps env s = (Returns (?r, ?n), s1)"
      then obtain s1 where rr: "remote_rankreps env s = (Returns (?r, ?n), s1)" by blast
      from remote_endpoint_up_ends [of env hgaddr s1] show ?thesis
      proof
        assume "\<exists>m. fst (remote_endpoint_up env hgaddr s1) = Aborts m"
        with rr show ?thesis
          by (auto simp: discover_remote_info_def fst_and_then)
      next
        assume "\<exists>s2. remote_endpoint_up env hgaddr s1 = (Returns (), s2)"
        then obtain s2 where up: "remote_endpoint_up env hgaddr s1 = (Returns (), s2)" by blast
        from remote_exchange_ends [of env hgaddr s2] show ?thesis
        proof
          assume "\<exists>m. fst (remote_exchange env hgaddr s2) = Aborts m"
          with rr up show ?thesis
            by (auto simp: discover_remote_info_def fst_and_then)
        next
          assume "\<exists>h s3. remote_exchange env hgaddr s2 = (Returns h, s3)"
          then obtain h s3 where "remote_exchange env hgaddr s2 = (Returns h, s3)" by blast
          from loop [OF rr up this] show ?thesis by blast
        qed
      qed
    qed
  qed
  with loop show ?thesis by blast
qed

lemma resolve_all_first_failure:
  assumes "k < length cs" "cs ! k = Some c" "c \<noteq> HG_SUCCESS"
    "\<forall>j<k. cs ! j = Some HG_SUCCESS"
  shows "resolve_all cs = Aborts ''hg_lookup failed''"
  using assms
proof (induction cs arbitrary: k)
  case Nil
  then show ?case by simp
next
  case (Cons a cs)
  show ?case
  proof (cases k)
    case 0
    with Cons.prems show ?thesis by simp
  next
    case (Suc k')
    with Cons.prems(4) have a: "a = Some HG_SUCCESS" by auto
    from Cons.prems Suc have "k' < length cs" "cs ! k' = Some c"
      "\<forall>j<k'. cs ! j = Some HG_SUCCESS"
      by auto
    from Cons.IH [OF this(1,2) Cons.prems(3) this(3)] a show ?thesis by simp
  qed
qed

lemma codes_first_failure:
  assumes k: "0 \<le> k" "k < n"
    and ok: "\<forall>j. 0 \<le> j \<longrightarrow> j < k \<longrightarrow> code j = Some HG_SUCCESS"
    and bad: "code k = Some c" "c \<noteq> HG_SUCCESS"
  shows "resolve_all (map code (map int [0..<nat n])) = Aborts ''hg_lookup failed''"
proof (rule resolve_all_first_failure [where k = "nat k" and c = c])
  show "nat k < length (map code (map int [0..<nat n]))" using k by simp
  show "map code (map int [0..<nat n]) ! nat k = Some c" using k bad by simp
  show "c \<noteq> HG_SUCCESS" by fact
  show "\<forall>j<nat k. map code (map int [0..<nat n]) ! j = Some HG_SUCCESS"
    using k ok by auto
qed

lemma local_setup_returnsD:
  "local_setup_returns env s \<Longrightarrow>
     \<exists>s1 h s2. local_endpoint_up env s = (Returns (), s1) \<and>
               local_exchange env s1 = (Returns h, s2)"
  unfolding local_setup_returns_def
  by (cases "local_endpoint_up env s"; cases "fst (local_endpoint_up env s)";
      cases "fst (local_exchange env (snd (local_endpoint_up env s)))")
     (auto intro: prod.collapse [symmetric] simp: prod_eq_iff)

lemma remote_setup_returnsD:
  "remote_setup_returns env hgaddr s \<Longrightarrow>
     \<exists>rep s1 s2 h s3. remote_rankreps env s = (Returns rep, s1) \<and>
        remote_endpoint_up env hgaddr s1 = (Returns (), s2) \<and>
        remote_exchange env hgaddr s2 = (Returns h, s3)"
  unfolding remote_setup_returns_def
  by (cases "remote_rankreps env s"; cases "fst (remote_rankreps env s)";
      cases "remote_endpoint_up env hgaddr (snd (remote_rankreps env s))";
      cases "fst (remote_endpoint_up env hgaddr (snd (remote_rankreps env s)))";
      cases "fst (remote_exchange env hgaddr
                    (snd (remote_endpoint_up env hgaddr (snd (remote_rankreps env s)))))")
     (auto simp: prod_eq_iff)

lemma local_visit_decided:
  "local_visit_defined s hginfo i \<Longrightarrow>
     fst (local_visit env hginfo i s) =
       (case local_peer_code env (grank s) (local_peer s hginfo i) of
          None \<Rightarrow> Blocks
        | Some c \<Rightarrow> if c = HG_SUCCESS then Returns () else Aborts ''hg_lookup failed'')"
  by (simp add: local_visit_exact split: option.splits)

lemma remote_visit_decided:
  "remote_visit_defined rep_rank rep_size hginfo i \<Longrightarrow>
     fst (remote_visit env hginfo rep_rank rep_size i s) =
       (case remote_peer_code env (grank s) (remote_peer rep_rank rep_size hginfo i) of
          None \<Rightarrow> Blocks
        | Some c \<Rightarrow> if c = HG_SUCCESS then Returns () else Aborts ''hg_lookup failed'')"
  by (simp add: remote_visit_exact split: option.splits)

lemma local_discovery_first_failure:
  assumes d: "local_discovery_defined env s"
    and k: "0 \<le> k" "k < mpi_size env LOCALCOMM"
    and ok: "\<forall>j. 0 \<le> j \<longrightarrow> j < k \<longrightarrow>
               local_peer_code env (grank s) (local_visited env s j) = Some HG_SUCCESS"
    and bad: "local_peer_code env (grank s) (local_visited env s k) = Some c" "c \<noteq> HG_SUCCESS"
  shows "(\<exists>m'. fst (discover_local_info env s) = Aborts m') \<and>
         (local_setup_returns env s \<longrightarrow>
            fst (discover_local_info env s) = Aborts ''hg_lookup failed'')"
  using local_discovery_aborts [OF d codes_first_failure [OF k ok bad]]
    local_setup_returnsD [of env s]
  by blast

lemma remote_discovery_first_failure:
  assumes d: "remote_discovery_defined env s"
    and k: "0 \<le> k" "k < mpi_size env REPCOMM"
    and ok: "\<forall>j. 0 \<le> j \<longrightarrow> j < k \<longrightarrow>
               remote_peer_code env (grank s) (remote_visited env hgaddr s j) = Some HG_SUCCESS"
    and bad: "remote_peer_code env (grank s) (remote_visited env hgaddr s k) = Some c"
      "c \<noteq> HG_SUCCESS"
  shows "(\<exists>m'. fst (discover_remote_info env hgaddr s) = Aborts m') \<and>
         (remote_setup_returns env hgaddr s \<longrightarrow>
            fst (discover_remote_info env hgaddr s) = Aborts ''hg_lookup failed'')"
  using remote_discovery_aborts [OF d codes_first_failure [OF k ok bad]]
    remote_setup_returnsD [of env hgaddr s]
  by blast

lemma unreachable_local_run:
  "local_discovery_defined (unreachable_env 1) (example_world 1)"
  "local_setup_returns (unreachable_env 1) (example_world 1)"
  "local_peer_code (unreachable_env 1) (grank (example_world 1))
     (local_visited (unreachable_env 1) (example_world 1) 0) = Some HG_SUCCESS"
  "local_peer_code (unreachable_env 1) (grank (example_world 1))
     (local_visited (unreachable_env 1) (example_world 1) 1) = Some (HG_OTHER_ERROR 11)"
  by (simp_all add: local_discovery_defined_def local_setup_returns_def local_endpoint_up_def
        local_exchange_def local_peer_code_def local_visited_def local_hginfo_def lookup_code_def
        MPI_Allgather_def unreachable_env_sel example_world_def upt_conv_Cons Let_def call_def
        in_int_def INT_MAX_def INT_MIN_def signed_modulo_int_def na_sm_addr_def)

lemma unreachable_remote_run:
  "remote_discovery_defined (unreachable_env 3) (example_world 3)"
  "remote_setup_returns (unreachable_env 3) ''tcp://10.0.0.2:5001'' (example_world 3)"
  "remote_peer_code (unreachable_env 3) (grank (example_world 3))
     (remote_visited (unreachable_env 3) ''tcp://10.0.0.2:5001'' (example_world 3) 0)
     = Some HG_SUCCESS"
  "remote_peer_code (unreachable_env 3) (grank (example_world 3))
     (remote_visited (unreachable_env 3) ''tcp://10.0.0.2:5001'' (example_world 3) 1)
     = Some (HG_OTHER_ERROR 11)"
  by (simp_all add: remote_discovery_defined_def remote_setup_returns_def remote_rankreps_def
        remote_endpoint_up_def remote_exchange_def remote_peer_code_def remote_visited_def
        remote_hginfo_def lookup_code_def MPI_Allgather_def unreachable_env_sel example_world_def
        upt_conv_Cons Let_def call_def in_int_def INT_MAX_def INT_MIN_def signed_modulo_int_def
        build_rdat_def)

lemma unreachable_local_visit:
  "local_visit_defined ((example_world 1)\<lparr>lrank := 1, lsize := 2, localranks := [0, 0]\<rparr>)
     (local_hginfo (unreachable_env 1) (example_world 1)) 1"
  "local_peer_code (unreachable_env 1)
     (grank ((example_world 1)\<lparr>lrank := 1, lsize := 2, localranks := [0, 0]\<rparr>))
     (local_peer ((example_world 1)\<lparr>lrank := 1, lsize := 2, localranks := [0, 0]\<rparr>)
        (local_hginfo (unreachable_env 1) (example_world 1)) 1) = Some (HG_OTHER_ERROR 11)"
  by (simp_all add: local_visit_defined_def local_peer_def local_peer_code_def local_hginfo_def
        lookup_code_def MPI_Allgather_def unreachable_env_sel example_world_def upt_conv_Cons
        in_int_def INT_MAX_def INT_MIN_def signed_modulo_int_def)

section \<open>The claims\<close>

text \<open>
  Claim C1. In local and in remote discovery, a run that returns has resolved the peers
  of its group in the cyclic order that starts at the caller's own rank (the indices
  \<open>rotate rank [0..<size]\<close> of the gathered records, each index once): the caller itself
  by the self-address query, every other peer by the synchronous lookup of that peer's
  address string; and the table holds, under each peer's global rank, the address that
  resolution returned. The ranks of MPI are taken as MPI gives them: the caller's rank
  lies within the group and the global ranks of the members are pairwise distinct.
\<close>

theorem discovery_visits_peers_cyclically:
  "(discover_local_info env s = (Returns (), s') \<longrightarrow>
    0 \<le> mpi_rank env LOCALCOMM \<longrightarrow> mpi_rank env LOCALCOMM < mpi_size env LOCALCOMM \<longrightarrow>
    distinct (map ld_grank (local_hginfo env s)) \<longrightarrow>
      filter (resolution LOCAL_EP) (made s s') =
        map (local_resolution (mpi_rank env LOCALCOMM) (local_hginfo env s))
          (rotate (nat (mpi_rank env LOCALCOMM)) [0..<nat (mpi_size env LOCALCOMM)]) \<and>
      (\<forall>j<nat (mpi_size env LOCALCOMM).
         map_of (laddrs s') (ld_grank (local_hginfo env s ! j)) =
           local_address env (mpi_rank env LOCALCOMM) (local_hginfo env s) j \<and>
         local_address env (mpi_rank env LOCALCOMM) (local_hginfo env s) j \<noteq> None)) \<and>
   (discover_remote_info env hgaddr t = (Returns (), t') \<longrightarrow>
    0 \<le> mpi_rank env REPCOMM \<longrightarrow> mpi_rank env REPCOMM < mpi_size env REPCOMM \<longrightarrow>
    distinct (map rd_grank (remote_hginfo env hgaddr t)) \<longrightarrow>
      filter (resolution REMOTE_EP) (made t t') =
        map (remote_resolution (mpi_rank env REPCOMM) (remote_hginfo env hgaddr t))
          (rotate (nat (mpi_rank env REPCOMM)) [0..<nat (mpi_size env REPCOMM)]) \<and>
      (\<forall>j<nat (mpi_size env REPCOMM).
         map_of (gaddrs t') (rd_grank (remote_hginfo env hgaddr t ! j)) =
           remote_address env (mpi_rank env REPCOMM) (remote_hginfo env hgaddr t) j \<and>
         remote_address env (mpi_rank env REPCOMM) (remote_hginfo env hgaddr t) j \<noteq> None))"
  using local_discovery_order [of env s s'] local_discovery_table [of env s s']
    remote_discovery_order [of env hgaddr t t'] remote_discovery_table [of env hgaddr t t']
  by blast

theorem discovery_visits_peers_cyclically_witness:
  "filter (resolution LOCAL_EP)
     (made (example_world 1) (snd (discover_local_info (example_env 1) (example_world 1)))) =
     [EvHG_Addr_self LOCAL_EP, Ev_hg_lookup LOCAL_EP ''na+sm://100/0''] \<and>
   map_of (laddrs (snd (discover_local_info (example_env 1) (example_world 1)))) 1 = Some 10 \<and>
   map_of (laddrs (snd (discover_local_info (example_env 1) (example_world 1)))) 0 = Some 33 \<and>
   filter (resolution REMOTE_EP)
     (made (example_world 3)
        (snd (discover_remote_info (example_env 3) ''tcp://10.0.0.2:5001'' (example_world 3)))) =
     [EvHG_Addr_self REMOTE_EP, Ev_hg_lookup REMOTE_EP ''tcp://10.0.0.1:5000''] \<and>
   map_of (gaddrs (snd (discover_remote_info (example_env 3) ''tcp://10.0.0.2:5001''
      (example_world 3)))) 3 = Some 10 \<and>
   map_of (gaddrs (snd (discover_remote_info (example_env 3) ''tcp://10.0.0.2:5001''
      (example_world 3)))) 1 = Some 39"
proof -
  have l: "discover_local_info (example_env 1) (example_world 1) =
     (Returns (), snd (discover_local_info (example_env 1) (example_world 1)))"
    by (simp add: example_local_1)
  have r: "discover_remote_info (example_env 3) ''tcp://10.0.0.2:5001'' (example_world 3) =
     (Returns (), snd (discover_remote_info (example_env 3) ''tcp://10.0.0.2:5001''
        (example_world 3)))"
    by (simp add: example_remote_3)
  have m: "mpi_rank (example_env 1) LOCALCOMM = 1" "mpi_size (example_env 1) LOCALCOMM = 2"
    "mpi_rank (example_env 3) REPCOMM = 1" "mpi_size (example_env 3) REPCOMM = 2"
    by (simp_all add: example_env_sel)
  have pl: "0 \<le> mpi_rank (example_env 1) LOCALCOMM"
    "mpi_rank (example_env 1) LOCALCOMM < mpi_size (example_env 1) LOCALCOMM"
    "distinct (map ld_grank (local_hginfo (example_env 1) (example_world 1)))"
    by (simp_all add: m example_local_hginfo_1)
  have pr: "0 \<le> mpi_rank (example_env 3) REPCOMM"
    "mpi_rank (example_env 3) REPCOMM < mpi_size (example_env 3) REPCOMM"
    "distinct (map rd_grank (remote_hginfo (example_env 3) ''tcp://10.0.0.2:5001''
       (example_world 3)))"
    by (simp_all add: m example_remote_hginfo_3)
  note a = discovery_visits_peers_cyclically
    [of "example_env 1" "example_world 1"
        "snd (discover_local_info (example_env 1) (example_world 1))"
        "''tcp://10.0.0.2:5001''" "example_world 3"
        "snd (discover_remote_info (example_env 3) ''tcp://10.0.0.2:5001'' (example_world 3))",
     THEN conjunct1, rule_format, OF l pl]
  note b = discovery_visits_peers_cyclically
    [of "example_env 3" "example_world 1"
        "snd (discover_local_info (example_env 1) (example_world 1))"
        "''tcp://10.0.0.2:5001''" "example_world 3"
        "snd (discover_remote_info (example_env 3) ''tcp://10.0.0.2:5001'' (example_world 3))",
     THEN conjunct2, rule_format, OF r pr]
  have a1: "filter (resolution LOCAL_EP)
       (made (example_world 1) (snd (discover_local_info (example_env 1) (example_world 1)))) =
     [EvHG_Addr_self LOCAL_EP, Ev_hg_lookup LOCAL_EP ''na+sm://100/0'']"
    using a [THEN conjunct1]
    by (simp add: m upt_conv_Cons example_local_hginfo_1 local_resolution_def
          na_sm_addr_def dec_int_def dec_nat.simps)
  have b1: "filter (resolution REMOTE_EP)
       (made (example_world 3)
          (snd (discover_remote_info (example_env 3) ''tcp://10.0.0.2:5001'' (example_world 3)))) =
     [EvHG_Addr_self REMOTE_EP, Ev_hg_lookup REMOTE_EP ''tcp://10.0.0.1:5000'']"
    using b [THEN conjunct1]
    by (simp add: m upt_conv_Cons example_remote_hginfo_3 remote_resolution_def)
  have la: "local_address (example_env 1) 1 (local_hginfo (example_env 1) (example_world 1)) 0
              = Some 33"
    "local_address (example_env 1) 1 (local_hginfo (example_env 1) (example_world 1)) 1
              = Some 10"
    by (simp_all add: example_local_hginfo_1 local_address_def self_address_def looked_up_def
          example_env_sel na_sm_addr_def dec_int_def dec_nat.simps)
  have ra: "remote_address (example_env 3) 1
              (remote_hginfo (example_env 3) ''tcp://10.0.0.2:5001'' (example_world 3)) 0
              = Some 39"
    "remote_address (example_env 3) 1
              (remote_hginfo (example_env 3) ''tcp://10.0.0.2:5001'' (example_world 3)) 1
              = Some 10"
    by (simp_all add: example_remote_hginfo_3 remote_address_def self_address_def looked_up_def
          example_env_sel)
  from a [THEN conjunct2] la
  have a2: "map_of (laddrs (snd (discover_local_info (example_env 1) (example_world 1)))) 0
              = Some 33"
    "map_of (laddrs (snd (discover_local_info (example_env 1) (example_world 1)))) 1
              = Some 10"
    by (simp_all add: m all_less_two example_local_hginfo_1)
  from b [THEN conjunct2] ra
  have b2: "map_of (gaddrs (snd (discover_remote_info (example_env 3) ''tcp://10.0.0.2:5001''
      (example_world 3)))) 1 = Some 39"
    "map_of (gaddrs (snd (discover_remote_info (example_env 3) ''tcp://10.0.0.2:5001''
      (example_world 3)))) 3 = Some 10"
    by (simp_all add: m all_less_two example_remote_hginfo_3)
  from a1 a2 b1 b2 show ?thesis by simp
qed

text \<open>
  Claim C5 (against the resolver as the specification describes it). For a process of
  the group, that is one whose own global rank is a valid rank, \<open>next_hop\<close> of its own
  rank is the terminal decision \<open>NX_DONE\<close>, with no next hop and no address.
\<close>

theorem next_hop_self_is_done:
  "0 \<le> grank nctx \<Longrightarrow> grank nctx < gsize nctx \<Longrightarrow>
     nexus_next_hop nctx (grank nctx) = ((NX_DONE, None, None), nctx)"
  by (simp add: nexus_next_hop_def)

theorem next_hop_self_is_done_witness:
  "nexus_next_hop (example_world 1) 1 = ((NX_DONE, None, None), example_world 1)"
  using next_hop_self_is_done [of "example_world 1"]
  by (simp add: example_world_def)

text \<open>
  Claim C6 (against the resolver as the specification describes it). A destination
  rank that is negative or not below the global group size is answered with
  \<open>NX_INVAL\<close>, by a call that returns, and the context it leaves is the context it was
  given: routing tables and Representative Map are unmodified.
\<close>

theorem next_hop_invalid_rank:
  "dest < 0 \<or> gsize nctx \<le> dest \<Longrightarrow>
     fst (nexus_next_hop nctx dest) = (NX_INVAL, None, None) \<and>
     snd (nexus_next_hop nctx dest) = nctx \<and>
     laddrs (snd (nexus_next_hop nctx dest)) = laddrs nctx \<and>
     gaddrs (snd (nexus_next_hop nctx dest)) = gaddrs nctx \<and>
     rankreps (snd (nexus_next_hop nctx dest)) = rankreps nctx"
  by (auto simp: nexus_next_hop_def)

theorem next_hop_invalid_rank_witness:
  "fst (nexus_next_hop (example_world 1) 4) = (NX_INVAL, None, None) \<and>
   snd (nexus_next_hop (example_world 1) 4) = example_world 1 \<and>
   fst (nexus_next_hop (example_world 1) (- 1)) = (NX_INVAL, None, None) \<and>
   snd (nexus_next_hop (example_world 1) (- 1)) = example_world 1"
  using next_hop_invalid_rank [of 4 "example_world 1"]
    next_hop_invalid_rank [of "- 1" "example_world 1"]
  by (simp add: example_world_def)

text \<open>
  Claim C8. The network thread does exactly what the loop of section 4.3 says, on
  whatever answers it is given: \<open>nexus_bgthread\<close> makes the calls \<open>evs\<close> and ends as \<open>out\<close>
  if and only if \<open>bg_loop\<close> relates them to the answers. So each iteration reads the flag
  clear, repeats \<^verbatim>\<open>HG_Trigger(hgctx, 0, 1, &count)\<close> while it succeeds with completed work,
  and after the one trigger that does not, calls \<^verbatim>\<open>HG_Progress\<close> bounded by 100 ms; the
  thread returns when, and only when, it reads the flag set; the first trigger or
  progress code other than success and timeout is followed by the abort and by no
  further call; and the thread is still running only where its next answer is missing.
\<close>

theorem bgthread_follows_loop_contract:
  "bg_loop fs ts ps evs out \<longleftrightarrow> nexus_bgthread fs ts ps = (out, evs)"
proof
  assume "bg_loop fs ts ps evs out"
  then show "nexus_bgthread fs ts ps = (out, evs)" by (rule bg_loop_sound)
next
  assume "nexus_bgthread fs ts ps = (out, evs)"
  with bg_loop_complete [of fs ts ps] show "bg_loop fs ts ps evs out" by simp
qed

theorem bgthread_follows_loop_contract_witness:
  "nexus_bgthread [0, 0, 1] [(HG_SUCCESS, 1), (HG_TIMEOUT, 0), (HG_SUCCESS, 0)]
     [HG_SUCCESS, HG_OTHER_ERROR 7, HG_SUCCESS] =
     (BgAborted ''nexus_bgthread: HG_Progress failed'',
      [BgReadDone 0, BgTrigger 0 1 HG_SUCCESS 1, BgTrigger 0 1 HG_TIMEOUT 0,
       BgProgress 100 HG_SUCCESS,
       BgReadDone 0, BgTrigger 0 1 HG_SUCCESS 0,
       BgProgress 100 (HG_OTHER_ERROR 7), BgAbort ''nexus_bgthread: HG_Progress failed'']) \<and>
   nexus_bgthread [0, 1] [(HG_SUCCESS, 2), (HG_OTHER_ERROR 3, 0)] [HG_SUCCESS] =
     (BgAborted ''nexus_bgthread: HG_Trigger failed'',
      [BgReadDone 0, BgTrigger 0 1 HG_SUCCESS 2, BgTrigger 0 1 (HG_OTHER_ERROR 3) 0,
       BgAbort ''nexus_bgthread: HG_Trigger failed'']) \<and>
   bg_loop [0, 5] [(HG_TIMEOUT, 0)] [HG_TIMEOUT]
     [BgReadDone 0, BgTrigger 0 1 HG_TIMEOUT 0, BgProgress 100 HG_TIMEOUT, BgReadDone 5]
     BgReturned"
proof -
  have c: "list_all completed_work [(HG_SUCCESS, 1)]" "list_all completed_work []"
    "list_all completed_work [(HG_SUCCESS, 2)]"
    "\<not> completed_work (HG_TIMEOUT, 0)" "\<not> completed_work (HG_SUCCESS, 0)"
    "hg_benign (fst (HG_TIMEOUT, 0::nat))" "hg_benign (fst (HG_SUCCESS, 0::nat))"
    "hg_benign HG_SUCCESS" "\<not> hg_benign (HG_OTHER_ERROR 7)"
    "\<not> hg_benign (fst (HG_OTHER_ERROR 3, 0::nat))"
    by (simp_all add: completed_work_def hg_benign_def)
  have "bg_loop (0 # [1]) ([] @ (HG_SUCCESS, 0) # []) (HG_OTHER_ERROR 7 # [HG_SUCCESS])
      (BgReadDone 0 # trigger_events [] @ trigger_events [(HG_SUCCESS, 0)] @
         [BgProgress 100 (HG_OTHER_ERROR 7), BgAbort ''nexus_bgthread: HG_Progress failed''])
      (BgAborted ''nexus_bgthread: HG_Progress failed'')"
    by (rule bg_progress_failed) (rule c)+
  then have "bg_loop (0 # [0, 1]) ([(HG_SUCCESS, 1)] @ (HG_TIMEOUT, 0) # [(HG_SUCCESS, 0)])
      (HG_SUCCESS # [HG_OTHER_ERROR 7, HG_SUCCESS])
      (BgReadDone 0 # trigger_events [(HG_SUCCESS, 1)] @ trigger_events [(HG_TIMEOUT, 0)] @
         [BgProgress 100 HG_SUCCESS] @
         BgReadDone 0 # trigger_events [] @ trigger_events [(HG_SUCCESS, 0)] @
         [BgProgress 100 (HG_OTHER_ERROR 7), BgAbort ''nexus_bgthread: HG_Progress failed''])
      (BgAborted ''nexus_bgthread: HG_Progress failed'')"
    by (simp only: append_Nil) (rule bg_iteration, (rule c)+)
  from bgthread_follows_loop_contract [THEN iffD1, OF this]
  have 1: "nexus_bgthread [0, 0, 1] [(HG_SUCCESS, 1), (HG_TIMEOUT, 0), (HG_SUCCESS, 0)]
     [HG_SUCCESS, HG_OTHER_ERROR 7, HG_SUCCESS] =
     (BgAborted ''nexus_bgthread: HG_Progress failed'',
      [BgReadDone 0, BgTrigger 0 1 HG_SUCCESS 1, BgTrigger 0 1 HG_TIMEOUT 0,
       BgProgress 100 HG_SUCCESS,
       BgReadDone 0, BgTrigger 0 1 HG_SUCCESS 0,
       BgProgress 100 (HG_OTHER_ERROR 7), BgAbort ''nexus_bgthread: HG_Progress failed''])"
    by (simp only: trigger_events_def list.map append_Cons append_Nil fst_conv snd_conv)
  have "bg_loop (0 # [1]) ([(HG_SUCCESS, 2)] @ (HG_OTHER_ERROR 3, 0) # []) [HG_SUCCESS]
      (BgReadDone 0 # trigger_events [(HG_SUCCESS, 2)] @ trigger_events [(HG_OTHER_ERROR 3, 0)] @
         [BgAbort ''nexus_bgthread: HG_Trigger failed''])
      (BgAborted ''nexus_bgthread: HG_Trigger failed'')"
    by (rule bg_trigger_failed) (rule c)+
  from bgthread_follows_loop_contract [THEN iffD1, OF this]
  have 2: "nexus_bgthread [0, 1] [(HG_SUCCESS, 2), (HG_OTHER_ERROR 3, 0)] [HG_SUCCESS] =
     (BgAborted ''nexus_bgthread: HG_Trigger failed'',
      [BgReadDone 0, BgTrigger 0 1 HG_SUCCESS 2, BgTrigger 0 1 (HG_OTHER_ERROR 3) 0,
       BgAbort ''nexus_bgthread: HG_Trigger failed''])"
    by (simp only: trigger_events_def list.map append_Cons append_Nil fst_conv snd_conv)
  have "nexus_bgthread [0, 5] [(HG_TIMEOUT, 0)] [HG_TIMEOUT] =
      (BgReturned,
       [BgReadDone 0, BgTrigger 0 1 HG_TIMEOUT 0, BgProgress 100 HG_TIMEOUT, BgReadDone 5])"
    by simp
  from bgthread_follows_loop_contract [THEN iffD2, OF this]
  have 3: "bg_loop [0, 5] [(HG_TIMEOUT, 0)] [HG_TIMEOUT]
     [BgReadDone 0, BgTrigger 0 1 HG_TIMEOUT 0, BgProgress 100 HG_TIMEOUT, BgReadDone 5]
     BgReturned" .
  from 1 2 3 show ?thesis by (intro conjI)
qed

text \<open>
  Claim C9 fails on the code. Whatever the URI, building the representative record makes
  61 stores through \<^verbatim>\<open>rdat.addr\<close>, and the last of them, the terminating null byte of
  line 400, goes to index 60, which is not an index of \<^verbatim>\<open>char addr[60]\<close>.
\<close>

theorem rdat_terminator_store_past_field:
  "length (rdat_addr_stores hgaddr) = 61 \<and>
   rdat_addr_stores hgaddr ! 60 = (60, CHR 0x00) \<and>
   \<not> fst (rdat_addr_stores hgaddr ! 60) < (60::nat)"
  by (simp add: rdat_addr_stores_def nth_append length_strncpy_stores)

text \<open>
  Claim C10. A call of \<^verbatim>\<open>nexus_bootstrap\<close> or of \<^verbatim>\<open>nexus_destroy\<close> that returns to its
  caller returns \<open>NX_SUCCESS\<close>.
\<close>

theorem bootstrap_and_destroy_return_success:
  "(nexus_bootstrap env minport maxport subnet proto s = (Returns r, s') \<longrightarrow> r = NX_SUCCESS) \<and>
   (nexus_destroy env t = (Returns r', t') \<longrightarrow> r' = NX_SUCCESS)"
proof (intro conjI impI)
  assume "nexus_bootstrap env minport maxport subnet proto s = (Returns r, s')"
  then show "r = NX_SUCCESS"
    by (auto simp: nexus_bootstrap_def Let_def and_then_Returns)
next
  assume "nexus_destroy env t = (Returns r', t')"
  then show "r' = NX_SUCCESS"
    by (auto simp: nexus_destroy_def Let_def and_then_Returns)
qed

theorem bootstrap_and_destroy_return_success_witness:
  "fst (nexus_bootstrap (example_env 0) 5000 5001 ''10.'' ''tcp'' (example_world 0))
     = Returns NX_SUCCESS \<and>
   fst (nexus_destroy (example_env 0)
          (snd (nexus_bootstrap (example_env 0) 5000 5001 ''10.'' ''tcp'' (example_world 0))))
     = Returns NX_SUCCESS"
proof -
  obtain r s' where b: "nexus_bootstrap (example_env 0) 5000 5001 ''10.'' ''tcp''
      (example_world 0) = (Returns r, s')"
    using example_bootstrap_0 by simp
  obtain r' t' where d: "nexus_destroy (example_env 0) s' = (Returns r', t')"
    using b example_bootstrap_0 example_destroy_0 by (cases "nexus_destroy (example_env 0) s'") simp
  from bootstrap_and_destroy_return_success
    [of "example_env 0" 5000 5001 "''10.''" "''tcp''" "example_world 0" r s' s' r' t'] b d
  show ?thesis by simp
qed

text \<open>
  Claim C7. In every run of local discovery and of remote discovery, whatever the
  environment answers and however the run ends, the stop flag of the network thread is
  stored and the thread joined only after the barrier of the group (local group for the
  local endpoint, representative group for the remote endpoint) has returned, and the
  process resolves nothing on that endpoint after the barrier. Hence in every schedule
  of the runs of a group that respects the barrier of MPI, once a member has stopped its
  network thread no member issues a resolution any more.
\<close>

theorem barrier_before_teardown:
  "barrier_then_stop LOCALCOMM LOCAL_EP False (made s (snd (discover_local_info env s))) \<and>
   barrier_then_stop REPCOMM REMOTE_EP False (made t (snd (discover_remote_info env hgaddr t))) \<and>
   ((\<forall>m. \<exists>rest. made (ls m) (snd (discover_local_info (envs m) (ls m))) =
               member_calls m sched @ rest) \<longrightarrow>
    barrier_synchronised LOCALCOMM [] sched \<longrightarrow>
    no_resolution_after_stop LOCAL_EP False sched) \<and>
   ((\<forall>m. \<exists>rest. made (rs m) (snd (discover_remote_info (envs' m) (uris m) (rs m))) =
               member_calls m sched' @ rest) \<longrightarrow>
    barrier_synchronised REPCOMM [] sched' \<longrightarrow>
    no_resolution_after_stop REMOTE_EP False sched')"
proof (intro conjI impI)
  show "barrier_then_stop LOCALCOMM LOCAL_EP False (made s (snd (discover_local_info env s)))"
    by (rule staged_barrier_then_stop [OF staged_discover_local_info])
  show "barrier_then_stop REPCOMM REMOTE_EP False
          (made t (snd (discover_remote_info env hgaddr t)))"
    by (rule staged_barrier_then_stop [OF staged_discover_remote_info])
next
  assume tr: "\<forall>m. \<exists>rest. made (ls m) (snd (discover_local_info (envs m) (ls m))) =
               member_calls m sched @ rest"
    and sync: "barrier_synchronised LOCALCOMM [] sched"
  have "barrier_then_stop LOCALCOMM LOCAL_EP (m \<in> set []) (member_calls m sched)" for m
  proof -
    from tr obtain rest where
      "made (ls m) (snd (discover_local_info (envs m) (ls m))) = member_calls m sched @ rest"
      by blast
    with staged_barrier_then_stop [OF staged_discover_local_info, of "ls m" "envs m"]
    show ?thesis by (auto dest: barrier_then_stop_prefix)
  qed
  from group_never_stopped_early [OF this sync, of False]
  show "no_resolution_after_stop LOCAL_EP False sched" by simp
next
  assume tr: "\<forall>m. \<exists>rest. made (rs m) (snd (discover_remote_info (envs' m) (uris m) (rs m))) =
               member_calls m sched' @ rest"
    and sync: "barrier_synchronised REPCOMM [] sched'"
  have "barrier_then_stop REPCOMM REMOTE_EP (m \<in> set []) (member_calls m sched')" for m
  proof -
    from tr obtain rest where
      "made (rs m) (snd (discover_remote_info (envs' m) (uris m) (rs m))) =
         member_calls m sched' @ rest"
      by blast
    with staged_barrier_then_stop [OF staged_discover_remote_info, of "rs m" "envs' m" "uris m"]
    show ?thesis by (auto dest: barrier_then_stop_prefix)
  qed
  from group_never_stopped_early [OF this sync, of False]
  show "no_resolution_after_stop REMOTE_EP False sched'" by simp
qed

theorem barrier_before_teardown_witness:
  "barrier_then_stop LOCALCOMM LOCAL_EP False
     [EvMPI_Comm_rank LOCALCOMM, EvMPI_Comm_size LOCALCOMM,
      EvHG_Init LOCAL_EP ''na+sm://101/0'', EvHG_Context_create LOCAL_EP,
      Ev_pthread_create LOCAL_EP, EvMPI_Allgather LOCALCOMM, EvHG_Addr_self LOCAL_EP,
      Ev_hg_lookup LOCAL_EP ''na+sm://100/0'', EvHG_Addr_lookup LOCAL_EP ''na+sm://100/0'',
      EvMPI_Barrier LOCALCOMM, Ev_set_bgdone LOCAL_EP, Ev_pthread_join LOCAL_EP] \<and>
   barrier_then_stop REPCOMM REMOTE_EP False
     [EvMPI_Comm_rank REPCOMM, EvMPI_Comm_size REPCOMM, EvMPI_Allgather MPI_COMM_WORLD,
      EvHG_Init REMOTE_EP ''tcp://10.0.0.2:5000'', EvHG_Context_create REMOTE_EP,
      Ev_pthread_create REMOTE_EP, EvMPI_Allgather REPCOMM, EvHG_Addr_self REMOTE_EP,
      Ev_hg_lookup REMOTE_EP ''tcp://10.0.0.1:5000'',
      EvHG_Addr_lookup REMOTE_EP ''tcp://10.0.0.1:5000'',
      EvMPI_Barrier REPCOMM, Ev_set_bgdone REMOTE_EP, Ev_pthread_join REMOTE_EP] \<and>
   barrier_synchronised LOCALCOMM [] example_local_schedule \<and>
   no_resolution_after_stop LOCAL_EP False example_local_schedule \<and>
   barrier_synchronised REPCOMM [] example_remote_schedule \<and>
   no_resolution_after_stop REMOTE_EP False example_remote_schedule"
proof -
  have l: "\<forall>m. \<exists>rest.
      made (example_world (int m))
        (snd (discover_local_info (example_env (int m)) (example_world (int m)))) =
      member_calls m example_local_schedule @ rest"
  proof
    fix m :: nat
    consider "m = 0" | "m = 1" | "m \<noteq> 0" "m \<noteq> 1" by blast
    then show "\<exists>rest.
      made (example_world (int m))
        (snd (discover_local_info (example_env (int m)) (example_world (int m)))) =
      member_calls m example_local_schedule @ rest"
    proof cases
      case 1
      then show ?thesis
        by (simp add: example_local_made member_calls_def example_local_schedule_def)
    next
      case 2
      then show ?thesis
        by (simp add: example_local_made member_calls_def example_local_schedule_def)
    next
      case 3
      then have "member_calls m example_local_schedule = []"
        by (simp add: member_calls_def example_local_schedule_def)
      then show ?thesis by simp
    qed
  qed
  have r: "\<forall>m. \<exists>rest.
      made (example_world (2 * int m))
        (snd (discover_remote_info (example_env (2 * int m))
               (''tcp://10.0.0.'' @ dec_int (int m + 1) @ '':5000'') (example_world (2 * int m)))) =
      member_calls m example_remote_schedule @ rest"
  proof
    fix m :: nat
    consider "m = 0" | "m = 1" | "m \<noteq> 0" "m \<noteq> 1" by blast
    then show "\<exists>rest.
      made (example_world (2 * int m))
        (snd (discover_remote_info (example_env (2 * int m))
               (''tcp://10.0.0.'' @ dec_int (int m + 1) @ '':5000'') (example_world (2 * int m)))) =
      member_calls m example_remote_schedule @ rest"
    proof cases
      case 1
      then show ?thesis
        by (simp add: example_remote_made member_calls_def example_remote_schedule_def
              dec_int_def dec_nat.simps)
    next
      case 2
      then show ?thesis
        by (simp add: example_remote_made member_calls_def example_remote_schedule_def
              dec_int_def dec_nat.simps)
    next
      case 3
      then have "member_calls m example_remote_schedule = []"
        by (simp add: member_calls_def example_remote_schedule_def)
      then show ?thesis by simp
    qed
  qed
  have sl: "barrier_synchronised LOCALCOMM [] example_local_schedule"
    by (simp add: example_local_schedule_def)
  have sr: "barrier_synchronised REPCOMM [] example_remote_schedule"
    by (simp add: example_remote_schedule_def)
  from barrier_before_teardown
    [of "example_world 1" "example_env 1" "example_world 2" "''tcp://10.0.0.2:5000''"
        "\<lambda>m. example_world (int m)" "\<lambda>m. example_env (int m)" example_local_schedule
        "\<lambda>m. example_world (2 * int m)" "\<lambda>m. example_env (2 * int m)"
        "\<lambda>m. ''tcp://10.0.0.'' @ dec_int (int m + 1) @ '':5000''" example_remote_schedule]
    l r sl sr
  show ?thesis
    by (simp add: example_local_made example_remote_made)
qed

text \<open>
  Claim C3. Discovery has no partial-success mode, in local and in remote discovery
  alike. A run that returns has had every resolution it made, the self-address query
  and the lookups of all visited peers, answered with \<open>HG_SUCCESS\<close>, and its routing table
  has an entry under the global rank of every visited peer. A visit within defined
  behaviour ends as its resolution decides: it returns on \<open>HG_SUCCESS\<close>, ends in
  \<^verbatim>\<open>msg_abort("hg_lookup failed")\<close> on any other code, and waits when the resolution never
  returns. And when the visits of a discovery are defined and visit \<open>k\<close> is the first
  whose resolution is answered with a code other than \<open>HG_SUCCESS\<close>, the discovery ends
  in \<^verbatim>\<open>msg_abort\<close>: with this message when the steps before the loop return, with theirs
  otherwise.
\<close>

theorem resolution_failure_is_fatal:
  "(discover_local_info env s = (Returns (), s') \<longrightarrow>
      (\<forall>i. 0 \<le> i \<longrightarrow> i < mpi_size env LOCALCOMM \<longrightarrow>
         local_peer_code env (grank s) (local_visited env s i) = Some HG_SUCCESS \<and>
         ld_grank (local_visited env s i) \<in> dom (map_of (laddrs s')))) \<and>
   (local_visit_defined s linfo i \<longrightarrow>
      fst (local_visit env linfo i s) =
        (case local_peer_code env (grank s) (local_peer s linfo i) of
           None \<Rightarrow> Blocks
         | Some c \<Rightarrow> if c = HG_SUCCESS then Returns () else Aborts ''hg_lookup failed'')) \<and>
   (local_discovery_defined env s \<longrightarrow> 0 \<le> k \<longrightarrow> k < mpi_size env LOCALCOMM \<longrightarrow>
      (\<forall>j. 0 \<le> j \<longrightarrow> j < k \<longrightarrow>
         local_peer_code env (grank s) (local_visited env s j) = Some HG_SUCCESS) \<longrightarrow>
      local_peer_code env (grank s) (local_visited env s k) = Some c \<longrightarrow> c \<noteq> HG_SUCCESS \<longrightarrow>
        (\<exists>m'. fst (discover_local_info env s) = Aborts m') \<and>
        (local_setup_returns env s \<longrightarrow>
           fst (discover_local_info env s) = Aborts ''hg_lookup failed'')) \<and>
   (discover_remote_info env hgaddr t = (Returns (), t') \<longrightarrow>
      (\<forall>i. 0 \<le> i \<longrightarrow> i < mpi_size env REPCOMM \<longrightarrow>
         remote_peer_code env (grank t) (remote_visited env hgaddr t i) = Some HG_SUCCESS \<and>
         rd_grank (remote_visited env hgaddr t i) \<in> dom (map_of (gaddrs t')))) \<and>
   (remote_visit_defined rep_rank rep_size rinfo i \<longrightarrow>
      fst (remote_visit env rinfo rep_rank rep_size i t) =
        (case remote_peer_code env (grank t) (remote_peer rep_rank rep_size rinfo i) of
           None \<Rightarrow> Blocks
         | Some c \<Rightarrow> if c = HG_SUCCESS then Returns () else Aborts ''hg_lookup failed'')) \<and>
   (remote_discovery_defined env t \<longrightarrow> 0 \<le> k \<longrightarrow> k < mpi_size env REPCOMM \<longrightarrow>
      (\<forall>j. 0 \<le> j \<longrightarrow> j < k \<longrightarrow>
         remote_peer_code env (grank t) (remote_visited env hgaddr t j) = Some HG_SUCCESS) \<longrightarrow>
      remote_peer_code env (grank t) (remote_visited env hgaddr t k) = Some c \<longrightarrow>
      c \<noteq> HG_SUCCESS \<longrightarrow>
        (\<exists>m'. fst (discover_remote_info env hgaddr t) = Aborts m') \<and>
        (remote_setup_returns env hgaddr t \<longrightarrow>
           fst (discover_remote_info env hgaddr t) = Aborts ''hg_lookup failed''))"
proof (intro conjI impI)
  assume "discover_local_info env s = (Returns (), s')"
  then show "\<forall>i. 0 \<le> i \<longrightarrow> i < mpi_size env LOCALCOMM \<longrightarrow>
         local_peer_code env (grank s) (local_visited env s i) = Some HG_SUCCESS \<and>
         ld_grank (local_visited env s i) \<in> dom (map_of (laddrs s'))"
    using local_discovery_complete [of env s s'] by blast
next
  assume "local_visit_defined s linfo i"
  then show "fst (local_visit env linfo i s) =
        (case local_peer_code env (grank s) (local_peer s linfo i) of
           None \<Rightarrow> Blocks
         | Some c \<Rightarrow> if c = HG_SUCCESS then Returns () else Aborts ''hg_lookup failed'')"
    by (rule local_visit_decided)
next
  assume a: "local_discovery_defined env s" "0 \<le> k" "k < mpi_size env LOCALCOMM"
    "\<forall>j. 0 \<le> j \<longrightarrow> j < k \<longrightarrow>
       local_peer_code env (grank s) (local_visited env s j) = Some HG_SUCCESS"
    "local_peer_code env (grank s) (local_visited env s k) = Some c" "c \<noteq> HG_SUCCESS"
  note r = local_discovery_first_failure [OF a]
  from r show "\<exists>m'. fst (discover_local_info env s) = Aborts m'" by blast
  assume "local_setup_returns env s"
  with r show "fst (discover_local_info env s) = Aborts ''hg_lookup failed''" by blast
next
  assume "discover_remote_info env hgaddr t = (Returns (), t')"
  then show "\<forall>i. 0 \<le> i \<longrightarrow> i < mpi_size env REPCOMM \<longrightarrow>
         remote_peer_code env (grank t) (remote_visited env hgaddr t i) = Some HG_SUCCESS \<and>
         rd_grank (remote_visited env hgaddr t i) \<in> dom (map_of (gaddrs t'))"
    using remote_discovery_complete [of env hgaddr t t'] by blast
next
  assume "remote_visit_defined rep_rank rep_size rinfo i"
  then show "fst (remote_visit env rinfo rep_rank rep_size i t) =
        (case remote_peer_code env (grank t) (remote_peer rep_rank rep_size rinfo i) of
           None \<Rightarrow> Blocks
         | Some c \<Rightarrow> if c = HG_SUCCESS then Returns () else Aborts ''hg_lookup failed'')"
    by (rule remote_visit_decided)
next
  assume a: "remote_discovery_defined env t" "0 \<le> k" "k < mpi_size env REPCOMM"
    "\<forall>j. 0 \<le> j \<longrightarrow> j < k \<longrightarrow>
       remote_peer_code env (grank t) (remote_visited env hgaddr t j) = Some HG_SUCCESS"
    "remote_peer_code env (grank t) (remote_visited env hgaddr t k) = Some c" "c \<noteq> HG_SUCCESS"
  note r = remote_discovery_first_failure [OF a]
  from r show "\<exists>m'. fst (discover_remote_info env hgaddr t) = Aborts m'" by blast
  assume "remote_setup_returns env hgaddr t"
  with r show "fst (discover_remote_info env hgaddr t) = Aborts ''hg_lookup failed''" by blast
qed

theorem resolution_failure_is_fatal_witness:
  "local_peer_code (example_env 1) 1 (local_visited (example_env 1) (example_world 1) 1)
     = Some HG_SUCCESS \<and>
   0 \<in> dom (map_of (laddrs (snd (discover_local_info (example_env 1) (example_world 1))))) \<and>
   remote_peer_code (example_env 3) 3
     (remote_visited (example_env 3) ''tcp://10.0.0.2:5001'' (example_world 3) 1)
     = Some HG_SUCCESS \<and>
   1 \<in> dom (map_of (gaddrs (snd (discover_remote_info (example_env 3) ''tcp://10.0.0.2:5001''
           (example_world 3))))) \<and>
   fst (discover_local_info (unreachable_env 1) (example_world 1))
     = Aborts ''hg_lookup failed'' \<and>
   fst (discover_remote_info (unreachable_env 3) ''tcp://10.0.0.2:5001'' (example_world 3))
     = Aborts ''hg_lookup failed'' \<and>
   fst (local_visit (unreachable_env 1) (local_hginfo (unreachable_env 1) (example_world 1)) 1
          ((example_world 1)\<lparr>lrank := 1, lsize := 2, localranks := [0, 0]\<rparr>))
     = Aborts ''hg_lookup failed''"
proof -
  have l: "discover_local_info (example_env 1) (example_world 1) =
     (Returns (), snd (discover_local_info (example_env 1) (example_world 1)))"
    by (simp add: example_local_1)
  have r: "discover_remote_info (example_env 3) ''tcp://10.0.0.2:5001'' (example_world 3) =
     (Returns (), snd (discover_remote_info (example_env 3) ''tcp://10.0.0.2:5001''
        (example_world 3)))"
    by (simp add: example_remote_3)
  have m: "mpi_size (example_env 1) LOCALCOMM = 2" "mpi_size (example_env 3) REPCOMM = 2"
    "grank (example_world 1) = 1" "grank (example_world 3) = 3"
    "mpi_size (unreachable_env 1) LOCALCOMM = 2" "mpi_size (unreachable_env 3) REPCOMM = 2"
    by (simp_all add: example_env_sel unreachable_env_sel example_world_def)
  have v: "ld_grank (local_visited (example_env 1) (example_world 1) 1) = 0"
    "rd_grank (remote_visited (example_env 3) ''tcp://10.0.0.2:5001'' (example_world 3) 1) = 1"
    by (simp_all add: example_env_sel local_visited_def remote_visited_def local_hginfo_def
          remote_hginfo_def MPI_Allgather_def example_world_def signed_modulo_int_def
          upt_conv_Cons build_rdat_def)
  have one: "(0::int) \<le> 1" "HG_OTHER_ERROR 11 \<noteq> HG_SUCCESS"
    "1 < mpi_size (unreachable_env 1) LOCALCOMM" "1 < mpi_size (unreachable_env 3) REPCOMM"
    by (simp_all add: m)
  have lo: "\<forall>j. 0 \<le> j \<longrightarrow> j < 1 \<longrightarrow>
      local_peer_code (unreachable_env 1) (grank (example_world 1))
        (local_visited (unreachable_env 1) (example_world 1) j) = Some HG_SUCCESS"
  proof (intro allI impI)
    fix j :: int
    assume "0 \<le> j" "j < 1"
    then have "j = 0" by simp
    then show "local_peer_code (unreachable_env 1) (grank (example_world 1))
        (local_visited (unreachable_env 1) (example_world 1) j) = Some HG_SUCCESS"
      by (simp add: unreachable_local_run(3))
  qed
  have ro: "\<forall>j. 0 \<le> j \<longrightarrow> j < 1 \<longrightarrow>
      remote_peer_code (unreachable_env 3) (grank (example_world 3))
        (remote_visited (unreachable_env 3) ''tcp://10.0.0.2:5001'' (example_world 3) j)
        = Some HG_SUCCESS"
  proof (intro allI impI)
    fix j :: int
    assume "0 \<le> j" "j < 1"
    then have "j = 0" by simp
    then show "remote_peer_code (unreachable_env 3) (grank (example_world 3))
        (remote_visited (unreachable_env 3) ''tcp://10.0.0.2:5001'' (example_world 3) j)
        = Some HG_SUCCESS"
      by (simp add: unreachable_remote_run(3))
  qed
  note a = resolution_failure_is_fatal
    [where env = "example_env 1" and s = "example_world 1"
       and s' = "snd (discover_local_info (example_env 1) (example_world 1))",
     THEN conjunct1, rule_format, OF l, of 1]
  note b = resolution_failure_is_fatal
    [where env = "example_env 3" and hgaddr = "''tcp://10.0.0.2:5001''"
       and t = "example_world 3"
       and t' = "snd (discover_remote_info (example_env 3) ''tcp://10.0.0.2:5001''
                   (example_world 3))",
     THEN conjunct2, THEN conjunct2, THEN conjunct2, THEN conjunct1, rule_format, OF r, of 1]
  have c': "fst (discover_local_info (unreachable_env 1) (example_world 1))
     = Aborts ''hg_lookup failed''"
    using resolution_failure_is_fatal
      [where env = "unreachable_env 1" and s = "example_world 1" and k = 1
         and c = "HG_OTHER_ERROR 11",
       THEN conjunct2, THEN conjunct2, THEN conjunct1]
      unreachable_local_run one lo
    by blast
  have d': "fst (discover_remote_info (unreachable_env 3) ''tcp://10.0.0.2:5001''
       (example_world 3)) = Aborts ''hg_lookup failed''"
    using resolution_failure_is_fatal
      [where env = "unreachable_env 3" and hgaddr = "''tcp://10.0.0.2:5001''"
         and t = "example_world 3" and k = 1 and c = "HG_OTHER_ERROR 11",
       THEN conjunct2, THEN conjunct2, THEN conjunct2, THEN conjunct2, THEN conjunct2]
      unreachable_remote_run one ro
    by blast
  note e = resolution_failure_is_fatal
    [where env = "unreachable_env 1"
       and s = "(example_world 1)\<lparr>lrank := 1, lsize := 2, localranks := [0, 0]\<rparr>"
       and linfo = "local_hginfo (unreachable_env 1) (example_world 1)" and i = 1,
     THEN conjunct2, THEN conjunct1, rule_format, OF unreachable_local_visit(1)]
  from a have a': "local_peer_code (example_env 1) 1
       (local_visited (example_env 1) (example_world 1) 1) = Some HG_SUCCESS \<and>
     0 \<in> dom (map_of (laddrs (snd (discover_local_info (example_env 1) (example_world 1)))))"
    by (simp add: m v)
  from b have b': "remote_peer_code (example_env 3) 3
       (remote_visited (example_env 3) ''tcp://10.0.0.2:5001'' (example_world 3) 1)
       = Some HG_SUCCESS \<and>
     1 \<in> dom (map_of (gaddrs (snd (discover_remote_info (example_env 3) ''tcp://10.0.0.2:5001''
           (example_world 3)))))"
    by (simp add: m v)
  from e have e': "fst (local_visit (unreachable_env 1)
          (local_hginfo (unreachable_env 1) (example_world 1)) 1
          ((example_world 1)\<lparr>lrank := 1, lsize := 2, localranks := [0, 0]\<rparr>))
     = Aborts ''hg_lookup failed''"
    by (simp only: unreachable_local_visit(2) option.case hg_return_t.distinct if_False)
  from a' b' c' d' e' show ?thesis by (intro conjI) simp_all
qed

text \<open>
  Claim C4, as the code has it. With an inverted port range, a lowest port below 1 or a
  highest port above 65535, \<^verbatim>\<open>nexus_bootstrap\<close> never returns to its caller, and it makes
  none of the calls that come after the port check: it probes no port, does not create
  the group of the representatives, and does nothing on the remote endpoint. The check
  itself is the one of \<^verbatim>\<open>prepare_addr\<close>: that function, called with such a range, only
  queries the interfaces and ends in \<^verbatim>\<open>msg_abort\<close> (when \<^verbatim>\<open>maxport - minport\<close> does not
  overflow). The local group and the local discovery come before it in
  \<^verbatim>\<open>nexus_bootstrap\<close>; the theorem after this one shows them in a run.
\<close>

theorem bad_ports_stop_bootstrap_at_port_check:
  "maxport < minport \<or> minport < 1 \<or> 65535 < maxport \<longrightarrow>
     (\<forall>x. fst (nexus_bootstrap env minport maxport subnet proto s) \<noteq> Returns x) \<and>
     list_all (\<lambda>e. \<not> past_port_check e)
       (made s (snd (nexus_bootstrap env minport maxport subnet proto s))) \<and>
     (fst (prepare_addr env minport maxport subnet proto t) = Undefined \<and>
        \<not> in_int (maxport - minport) \<or>
      (\<exists>m \<in> set port_check_aborts.
         fst (prepare_addr env minport maxport subnet proto t) = Aborts m)) \<and>
     list_all ifaddr_query (made t (snd (prepare_addr env minport maxport subnet proto t)))"
proof
  assume "maxport < minport \<or> minport < 1 \<or> 65535 < maxport"
  then have bad: "bad_ports minport maxport"
    by (simp add: bad_ports_def)
  from bootstrap_bad_ports_never_returns [OF bad]
    adds_made [OF adds_bootstrap_bad_ports [OF bad]]
    prepare_addr_bad_ports_outcome [OF bad]
    adds_made [OF adds_prepare_addr_bad_ports [OF bad]]
  show "(\<forall>x. fst (nexus_bootstrap env minport maxport subnet proto s) \<noteq> Returns x) \<and>
     list_all (\<lambda>e. \<not> past_port_check e)
       (made s (snd (nexus_bootstrap env minport maxport subnet proto s))) \<and>
     (fst (prepare_addr env minport maxport subnet proto t) = Undefined \<and>
        \<not> in_int (maxport - minport) \<or>
      (\<exists>m \<in> set port_check_aborts.
         fst (prepare_addr env minport maxport subnet proto t) = Aborts m)) \<and>
     list_all ifaddr_query (made t (snd (prepare_addr env minport maxport subnet proto t)))"
    by blast
qed

theorem bad_ports_stop_bootstrap_at_port_check_witness:
  "fst (nexus_bootstrap (example_env 0) 5001 5000 ''10.'' ''tcp'' (example_world 0))
     \<noteq> Returns NX_SUCCESS \<and>
   list_all (\<lambda>e. \<not> past_port_check e)
     (made (example_world 0)
        (snd (nexus_bootstrap (example_env 0) 5001 5000 ''10.'' ''tcp'' (example_world 0)))) \<and>
   fst (prepare_addr (example_env 0) 0 5000 ''10.'' ''tcp'' (example_world 0))
     = Aborts ''bad min port'' \<and>
   list_all ifaddr_query
     (made (example_world 0)
        (snd (prepare_addr (example_env 0) 0 5000 ''10.'' ''tcp'' (example_world 0))))"
proof -
  have a: "(5000::int) < 5001 \<or> (5001::int) < 1 \<or> (65535::int) < 5000"
    by simp
  have b: "(5000::int) < 0 \<or> (0::int) < 1 \<or> (65535::int) < 5000"
    by simp
  note r = bad_ports_stop_bootstrap_at_port_check
    [of 5000 5001 "example_env 0" "''10.''" "''tcp''" "example_world 0" "example_world 0",
     rule_format, OF a]
  note p = bad_ports_stop_bootstrap_at_port_check
    [of 5000 0 "example_env 0" "''10.''" "''tcp''" "example_world 0" "example_world 0",
     rule_format, OF b]
  from r have 1: "fst (nexus_bootstrap (example_env 0) 5001 5000 ''10.'' ''tcp''
      (example_world 0)) \<noteq> Returns NX_SUCCESS"
    by blast
  from r have 2: "list_all (\<lambda>e. \<not> past_port_check e)
     (made (example_world 0)
        (snd (nexus_bootstrap (example_env 0) 5001 5000 ''10.'' ''tcp'' (example_world 0))))"
    by blast
  from p have 3: "list_all ifaddr_query
     (made (example_world 0)
        (snd (prepare_addr (example_env 0) 0 5000 ''10.'' ''tcp'' (example_world 0))))"
    by blast
  have 4: "fst (prepare_addr (example_env 0) 0 5000 ''10.'' ''tcp'' (example_world 0))
     = Aborts ''bad min port''"
    by (simp add: example_prepare_addr_low_port)
  from 1 2 3 4 show ?thesis by blast
qed

text \<open>
  Claim C4 as it is stated fails. Rank 0 of the test topology, bootstrapped with the
  inverted range 5001 to 5000, ends in \<^verbatim>\<open>msg_abort\<close> after it has split the local group,
  brought up the local endpoint, taken part in the all-gather and the barrier of the
  local group and resolved both members of its node: the Local Routing Table has two
  entries by then.
\<close>

theorem inverted_ports_abort_after_local_discovery:
  "fst (nexus_bootstrap (example_env 0) 5001 5000 ''10.'' ''tcp'' (example_world 0))
     = Aborts ''bad min-max port'' \<and>
   made (example_world 0)
     (snd (nexus_bootstrap (example_env 0) 5001 5000 ''10.'' ''tcp'' (example_world 0))) =
     [EvMPI_Comm_rank MPI_COMM_WORLD, EvMPI_Comm_size MPI_COMM_WORLD, Ev_init_local_comm,
      EvMPI_Comm_rank LOCALCOMM, EvMPI_Comm_size LOCALCOMM,
      EvHG_Init LOCAL_EP ''na+sm://100/0'', EvHG_Context_create LOCAL_EP,
      Ev_pthread_create LOCAL_EP, EvMPI_Allgather LOCALCOMM, EvHG_Addr_self LOCAL_EP,
      Ev_hg_lookup LOCAL_EP ''na+sm://101/0'', EvHG_Addr_lookup LOCAL_EP ''na+sm://101/0'',
      EvMPI_Barrier LOCALCOMM, Ev_set_bgdone LOCAL_EP, Ev_pthread_join LOCAL_EP,
      Ev_getifaddrs, Ev_getnameinfo, Ev_getnameinfo, Ev_freeifaddrs,
      Ev_msg_abort ''bad min-max port''] \<and>
   laddrs (snd (nexus_bootstrap (example_env 0) 5001 5000 ''10.'' ''tcp'' (example_world 0)))
     = [(0, 10), (1, 33)] \<and>
   \<not> fails_before_any_operation (example_world 0)
       (nexus_bootstrap (example_env 0) 5001 5000 ''10.'' ''tcp'' (example_world 0))"
  unfolding example_bootstrap_inverted_ports
  by (simp add: fails_before_any_operation_def made_def example_world_def)

text \<open>
  Claim C2. In a job of \<open>N\<close> processes whose bootstraps all return, with the answers of
  MPI consistent across the processes, the Representative Map of every process \<open>g\<close> has
  one entry for each global rank: its length is the size of the world, which is
  \<^verbatim>\<open>gsize\<close>, and its entry for rank \<open>h\<close> is the \<^verbatim>\<open>lroot\<close> that process \<open>h\<close> holds. Every member
  of the local group of \<open>g\<close> holds the same \<^verbatim>\<open>lroot\<close> as \<open>g\<close>, and it is the global rank
  of the member whose local rank is 0.
\<close>

theorem representative_map_covers_every_rank:
  assumes "mpi_consistent N envs ws mem"
    and "\<forall>g. 0 \<le> g \<longrightarrow> g < N \<longrightarrow>
           fst (nexus_bootstrap (envs g) minport maxport subnet proto (ws g)) = Returns NX_SUCCESS"
    and "0 \<le> g" "g < N"
  shows "length (rankreps (bootstrapped envs ws minport maxport subnet proto g)) = nat N \<and>
         gsize (bootstrapped envs ws minport maxport subnet proto g) = N \<and>
         (\<forall>h. 0 \<le> h \<longrightarrow> h < N \<longrightarrow>
            rankreps (bootstrapped envs ws minport maxport subnet proto g) ! nat h =
              lroot (bootstrapped envs ws minport maxport subnet proto h)) \<and>
         (\<forall>r. 0 \<le> r \<longrightarrow> r < lsize (bootstrapped envs ws minport maxport subnet proto g) \<longrightarrow>
            lroot (bootstrapped envs ws minport maxport subnet proto (mem g r)) =
              lroot (bootstrapped envs ws minport maxport subnet proto g)) \<and>
         lroot (bootstrapped envs ws minport maxport subnet proto g) = mem g 0 \<and>
         lrank (bootstrapped envs ws minport maxport subnet proto (mem g 0)) = 0"
proof -
  let ?B = "bootstrapped envs ws minport maxport subnet proto"
  note c = assms(1)
  have run: "fst (nexus_bootstrap (envs h) minport maxport subnet proto (ws h))
      = Returns NX_SUCCESS" if "0 \<le> h" "h < N" for h
    using assms(2) that by blast
  note d = mpi_consistentD [OF c assms(3,4)]
  note p = bootstrapped_process [OF c assms(3,4) run [OF assms(3,4)]]
  have ls: "0 < mpi_size (envs g) LOCALCOMM"
    using d(3,4) by simp
  have 1: "length (rankreps (?B g)) = nat N"
    by (simp add: p(3) length_MPI_Allgather)
  have 3: "rankreps (?B g) ! nat h = lroot (?B h)" if h: "0 \<le> h" "h < N" for h
  proof (cases "h = g")
    case True
    with h show ?thesis
      by (simp add: p(3) p(1) nth_MPI_Allgather)
  next
    case False
    with h d(7) [OF h False]
      bootstrapped_process(1,2) [OF c h run [OF h]]
    show ?thesis
      by (simp add: p(3) nth_MPI_Allgather)
  qed
  have 4: "lroot (?B (mem g r)) = lroot (?B g)"
    if r: "0 \<le> r" "r < lsize (?B g)" for r
  proof -
    from r p(6) have r': "r < mpi_size (envs g) LOCALCOMM" by simp
    from d(6) [OF r(1) r'] have m: "0 \<le> mem g r" "mem g r < N"
      and z: "mem (mem g r) 0 = mem g 0"
      using ls by auto
    from bootstrapped_process(1) [OF c m run [OF m]] z p(1) show ?thesis by simp
  qed
  have m0: "0 \<le> mem g 0" "mem g 0 < N" "mpi_rank (envs (mem g 0)) LOCALCOMM = 0"
    using d(6) [of 0] ls by simp_all
  from bootstrapped_process(7) [OF c m0(1,2) run [OF m0(1,2)]] m0(3)
  have 6: "lrank (?B (mem g 0)) = 0" by simp
  from 1 p(4) 3 4 p(1) 6 show ?thesis by blast
qed

theorem representative_map_covers_every_rank_witness:
  "mpi_consistent 4 example_env example_world (\<lambda>g r. 2 * (g div 2) + r) \<and>
   length (rankreps (bootstrapped example_env example_world 5000 5001 ''10.'' ''tcp'' 3)) = 4 \<and>
   gsize (bootstrapped example_env example_world 5000 5001 ''10.'' ''tcp'' 3) = 4 \<and>
   rankreps (bootstrapped example_env example_world 5000 5001 ''10.'' ''tcp'' 3) ! 0 =
     lroot (bootstrapped example_env example_world 5000 5001 ''10.'' ''tcp'' 0) \<and>
   lroot (bootstrapped example_env example_world 5000 5001 ''10.'' ''tcp'' 2) =
     lroot (bootstrapped example_env example_world 5000 5001 ''10.'' ''tcp'' 3) \<and>
   lroot (bootstrapped example_env example_world 5000 5001 ''10.'' ''tcp'' 3) = 2"
proof -
  have r: "\<forall>g. 0 \<le> g \<longrightarrow> g < 4 \<longrightarrow>
      fst (nexus_bootstrap (example_env g) 5000 5001 ''10.'' ''tcp'' (example_world g))
        = Returns NX_SUCCESS"
    using example_bootstrap_returns by (auto dest: ranks_below_four)
  have p: "(0::int) \<le> 3" "(3::int) < 4"
    by simp_all
  note t = representative_map_covers_every_rank [OF example_consistent r p]
  have ls: "lsize (bootstrapped example_env example_world 5000 5001 ''10.'' ''tcp'' 3) = 2"
    unfolding bootstrapped_def by (simp add: run_defs)
  from t [THEN conjunct1]
  have a: "length (rankreps (bootstrapped example_env example_world 5000 5001
      ''10.'' ''tcp'' 3)) = 4"
    by simp
  note b = t [THEN conjunct2, THEN conjunct1]
  from t [THEN conjunct2, THEN conjunct2, THEN conjunct1, rule_format, of 0]
  have c: "rankreps (bootstrapped example_env example_world 5000 5001 ''10.'' ''tcp'' 3)
       ! 0 =
     lroot (bootstrapped example_env example_world 5000 5001 ''10.'' ''tcp'' 0)"
    by simp
  from t [THEN conjunct2, THEN conjunct2, THEN conjunct2, THEN conjunct1, rule_format, of 0]
  have d: "lroot (bootstrapped example_env example_world 5000 5001 ''10.'' ''tcp'' 2) =
     lroot (bootstrapped example_env example_world 5000 5001 ''10.'' ''tcp'' 3)"
    by (simp add: ls)
  from t [THEN conjunct2, THEN conjunct2, THEN conjunct2, THEN conjunct2, THEN conjunct1]
  have e: "lroot (bootstrapped example_env example_world 5000 5001 ''10.'' ''tcp'' 3) = 2"
    by simp
  from example_consistent a b c d e show ?thesis by (intro conjI)
qed


end
